theory Spec2Isabelle
  imports Complex_Main "HOL-Library.AList" "HOL-Library.Sublist"
begin

section \<open>Task status and the reallocation policy (config/task-reallocation.config.ts)\<close>

text \<open>
  The Prisma enum \<open>TaskStatus\<close>. JavaScript numbers are modelled by \<open>real\<close>:
  coordinates and distances in ideal arithmetic, the score of a worker, whose
  comparison decides the selection, with the rounding of each operation. Nullable
  fields are modelled by \<open>option\<close>, object maps by partial functions.
\<close>

datatype TaskStatus = unassigned | assigned | accepted | rejected | completed

text \<open>\<open>String(status)\<close>: the enum members are their own names.\<close>

fun statusName :: "TaskStatus \<Rightarrow> string" where
  "statusName unassigned = ''unassigned''"
| "statusName assigned = ''assigned''"
| "statusName accepted = ''accepted''"
| "statusName rejected = ''rejected''"
| "statusName completed = ''completed''"

text \<open>\<open>Object.values(TaskStatus)\<close>, in declaration order.\<close>

definition allStatuses :: "TaskStatus list" where
  "allStatuses = [unassigned, assigned, accepted, rejected, completed]"

text \<open>\<open>toUpperCase\<close> and \<open>toLowerCase\<close> on ASCII strings.\<close>

definition upperChar :: "char \<Rightarrow> char" where
  "upperChar c =
     (let n = (of_char c :: nat)
      in if 97 \<le> n \<and> n \<le> 122 then char_of (n - 32) else c)"

definition lowerChar :: "char \<Rightarrow> char" where
  "lowerChar c =
     (let n = (of_char c :: nat)
      in if 65 \<le> n \<and> n \<le> 90 then char_of (n + 32) else c)"

definition toUpperCase :: "string \<Rightarrow> string" where
  "toUpperCase s = map upperChar s"

definition toLowerCase :: "string \<Rightarrow> string" where
  "toLowerCase s = map lowerChar s"

record TaskReallocationConfig =
  allowedStatuses :: "TaskStatus \<rightharpoonup> bool"
  defaultAllowReallocation :: bool
  errorMessages :: "string \<rightharpoonup> string"

definition defaultTaskReallocationConfig :: TaskReallocationConfig where
  "defaultTaskReallocationConfig =
     \<lparr> allowedStatuses =
         [unassigned \<mapsto> True, assigned \<mapsto> True, accepted \<mapsto> True,
          rejected \<mapsto> True, completed \<mapsto> False],
       defaultAllowReallocation = False,
       errorMessages =
         [''unassigned'' \<mapsto> ''Unassigned tasks cannot be reallocated'',
          ''assigned'' \<mapsto> ''Assigned tasks cannot be reallocated'',
          ''accepted'' \<mapsto> ''Accepted tasks cannot be reallocated'',
          ''rejected'' \<mapsto> ''Rejected tasks cannot be reallocated'',
          ''completed'' \<mapsto> ''Completed tasks cannot be reallocated'',
          ''default'' \<mapsto> ''Task reallocation is not allowed for this status''] \<rparr>"

text \<open>
  \<open>loadTaskReallocationConfig\<close>: the process environment is the argument \<open>env\<close>. Each
  variable \<open>TASK_REALLOCATION_<STATUS>\<close> that is set overrides the entry of its status,
  \<open>TASK_REALLOCATION_DEFAULT\<close> overrides the fallback.
\<close>

definition applyEnvStatus ::
  "(string \<rightharpoonup> string) \<Rightarrow> TaskReallocationConfig \<Rightarrow> TaskStatus \<Rightarrow> TaskReallocationConfig" where
  "applyEnvStatus env config status =
     (case env (''TASK_REALLOCATION_'' @ toUpperCase (statusName status)) of
        None \<Rightarrow> config
      | Some envValue \<Rightarrow>
          config\<lparr> allowedStatuses :=
            (allowedStatuses config)(status \<mapsto> (toLowerCase envValue = ''true'')) \<rparr>)"

definition loadTaskReallocationConfig :: "(string \<rightharpoonup> string) \<Rightarrow> TaskReallocationConfig" where
  "loadTaskReallocationConfig env =
     (let config = foldl (applyEnvStatus env) defaultTaskReallocationConfig allStatuses
      in case env ''TASK_REALLOCATION_DEFAULT'' of
           None \<Rightarrow> config
         | Some defaultEnv \<Rightarrow>
             config\<lparr> defaultAllowReallocation := (toLowerCase defaultEnv = ''true'') \<rparr>)"

definition canReallocateTask :: "TaskStatus \<Rightarrow> TaskReallocationConfig \<Rightarrow> bool" where
  "canReallocateTask status config =
     (case allowedStatuses config status of
        Some b \<Rightarrow> b
      | None \<Rightarrow> defaultAllowReallocation config)"

definition getReallocationErrorMessage :: "TaskStatus \<Rightarrow> TaskReallocationConfig \<Rightarrow> string" where
  "getReallocationErrorMessage status config =
     (case errorMessages config (statusName status) of
        Some msg \<Rightarrow> msg
      | None \<Rightarrow>
          (case errorMessages config ''default'' of
             Some msg \<Rightarrow> msg
           | None \<Rightarrow> ''Task reallocation is not allowed for this status''))"

section \<open>Numbers, tasks, workers\<close>

text \<open>
  A distance in the engine is a JavaScript number that is either finite or \<open>Infinity\<close>
  (the value \<open>selectBestWorkerOptimized\<close> uses when coordinates are missing).
\<close>

datatype number = Num real | Infinity

text \<open>\<open>a + b\<close>, \<open>a / n\<close> and \<open>a >= 0\<close> on such numbers.\<close>

fun numAdd :: "number \<Rightarrow> number \<Rightarrow> number" where
  "numAdd (Num a) (Num b) = Num (a + b)"
| "numAdd _ _ = Infinity"

fun numDiv :: "number \<Rightarrow> nat \<Rightarrow> number" where
  "numDiv (Num a) n = Num (a / real n)"
| "numDiv Infinity n = Infinity"

fun numNonneg :: "number \<Rightarrow> bool" where
  "numNonneg (Num a) = (0 \<le> a)"
| "numNonneg Infinity = True"

text \<open>
  The rounding of a real number to a double (IEEE 754 binary64, round to nearest, ties
  to even): \<open>ulp x\<close> is the spacing of the doubles around \<open>x\<close>, with the exponent
  held at \<open>-1022\<close> for subnormal numbers, and \<open>x\<close> goes to the nearest multiple of it.
  Overflow to \<open>Infinity\<close> is left out: where the rounding is used below, no operation
  leaves the range of its operands. An arithmetic operation of the code on doubles is
  the operation on reals followed by this rounding.
\<close>

definition roundHalfEven :: "real \<Rightarrow> int" where
  "roundHalfEven y =
     (let f = \<lfloor>y\<rfloor>; r = y - of_int f
      in if r < 1 / 2 then f else if 1 / 2 < r then f + 1 else if even f then f else f + 1)"

definition binade :: "real \<Rightarrow> int" where
  "binade x = max \<lfloor>log 2 \<bar>x\<bar>\<rfloor> (- 1022)"

definition ulp :: "real \<Rightarrow> real" where
  "ulp x = 2 powr real_of_int (binade x - 52)"

definition toDouble :: "real \<Rightarrow> real" where
  "toDouble x = (if x = 0 then 0 else of_int (roundHalfEven (x / ulp x)) * ulp x)"

text \<open>
  Truthiness of a nullable coordinate, as in \<open>if (worker.lat && worker.lon)\<close> and
  \<open>if (!task.lat || !task.lon)\<close>: \<open>null\<close> and \<open>0\<close> are falsy.
\<close>

definition truthy :: "real option \<Rightarrow> bool" where
  "truthy x = (case x of None \<Rightarrow> False | Some v \<Rightarrow> v \<noteq> 0)"

record Task =
  id_task :: string
  lat_task :: "real option"
  lon_task :: "real option"
  status :: TaskStatus
  assignedUserId :: "string option"
  assignedAt :: "int option"
  geocodePending :: bool
  createdAt :: int

record User =
  id_user :: string
  lat_user :: "real option"
  lon_user :: "real option"
  role :: string
  active :: bool

record WorkerPoint =
  data_wp :: User
  distance_wp :: "number option"

record Allocation =
  taskId :: string
  workerId :: string
  distance :: "number option"

section \<open>Spatial index (SpatialIndexService)\<close>

record SpatialPoint =
  id_point :: string
  lat_point :: real
  lon_point :: real
  data :: User

text \<open>
  The index is a JavaScript \<open>Map\<close> from strings to arrays of points, keyed by the
  text "gridLat,gridLon" of two integers. The key is modelled by the pair of
  integers it prints, the map by an association list in insertion order.
\<close>

type_synonym GridKey = "int \<times> int"
type_synonym SpatialIndex = "(GridKey \<times> SpatialPoint list) list"

definition GRID_SIZE :: real where
  "GRID_SIZE = 1 / 100"

definition getGridKey :: "real \<Rightarrow> real \<Rightarrow> GridKey" where
  "getGridKey lat lon = (\<lfloor>lat / GRID_SIZE\<rfloor>, \<lfloor>lon / GRID_SIZE\<rfloor>)"

definition indexWorker :: "SpatialIndex \<Rightarrow> User \<Rightarrow> SpatialIndex" where
  "indexWorker idx worker =
     (if truthy (lat_user worker) \<and> truthy (lon_user worker) then
        (let gridKey = getGridKey (the (lat_user worker)) (the (lon_user worker));
             idx1 = (if map_of idx gridKey = None then AList.update gridKey [] idx else idx)
         in case map_of idx1 gridKey of
              None \<Rightarrow> idx1
            | Some arr \<Rightarrow>
                AList.update gridKey
                  (arr @ [\<lparr> id_point = id_user worker,
                             lat_point = the (lat_user worker),
                             lon_point = the (lon_user worker),
                             data = worker \<rparr>]) idx1)
      else idx)"

definition buildSpatialIndex :: "User list \<Rightarrow> SpatialIndex" where
  "buildSpatialIndex workers = foldl indexWorker [] workers"

text \<open>\<open>Math.atan2(y, x)\<close> on reals.\<close>

definition atan2 :: "real \<Rightarrow> real \<Rightarrow> real" where
  "atan2 y x =
     (if 0 < x then arctan (y / x)
      else if x < 0 then (if 0 \<le> y then arctan (y / x) + pi else arctan (y / x) - pi)
      else if 0 < y then pi / 2
      else if y < 0 then - (pi / 2)
      else 0)"

definition haversineDistance :: "real \<Rightarrow> real \<Rightarrow> real \<Rightarrow> real \<Rightarrow> real" where
  "haversineDistance lat1 lon1 lat2 lon2 =
     (let R = 6371;
          dLat = ((lat2 - lat1) * pi) / 180;
          dLon = ((lon2 - lon1) * pi) / 180;
          a = (sin (dLat / 2))\<^sup>2
              + cos ((lat1 * pi) / 180) * cos ((lat2 * pi) / 180) * (sin (dLon / 2))\<^sup>2;
          c = 2 * atan2 (sqrt a) (sqrt (1 - a))
      in R * c)"

definition getSearchCells :: "real \<Rightarrow> real \<Rightarrow> real \<Rightarrow> GridKey list" where
  "getSearchCells lat lon radius =
     (let gridRadius = \<lceil>radius / GRID_SIZE\<rceil>;
          centerLat = \<lfloor>lat / GRID_SIZE\<rfloor>;
          centerLon = \<lfloor>lon / GRID_SIZE\<rfloor>
      in concat (map (\<lambda>latOffset.
                   map (\<lambda>lonOffset. (centerLat + latOffset, centerLon + lonOffset))
                       [- gridRadius .. gridRadius])
                 [- gridRadius .. gridRadius]))"

definition workersInCell :: "SpatialIndex \<Rightarrow> GridKey \<Rightarrow> SpatialPoint list" where
  "workersInCell idx cellKey = (case map_of idx cellKey of None \<Rightarrow> [] | Some ws \<Rightarrow> ws)"

definition findNearbyWorkers :: "SpatialIndex \<Rightarrow> real \<Rightarrow> real \<Rightarrow> real \<Rightarrow> SpatialPoint list" where
  "findNearbyWorkers idx taskLat taskLon radiusKm =
     (let searchRadius = radiusKm / 111;
          searchCells = getSearchCells taskLat taskLon searchRadius
      in concat (map (\<lambda>cellKey.
                   filter (\<lambda>worker.
                             haversineDistance taskLat taskLon (lat_point worker) (lon_point worker)
                               \<le> radiusKm)
                          (workersInCell idx cellKey))
                 searchCells))"

record SpatialStats =
  totalWorkers :: nat
  gridCells :: nat
  avgWorkersPerCell :: real

definition getStats :: "SpatialIndex \<Rightarrow> SpatialStats" where
  "getStats idx =
     (let total = sum_list (map (\<lambda>(k, ws). length ws) idx);
          cells = length idx
      in \<lparr> totalWorkers = total, gridCells = cells,
           avgWorkersPerCell = (if 0 < cells then real total / real cells else 0) \<rparr>)"

section \<open>Scoring and worker selection (TaskAllocationService)\<close>

definition MAX_TASKS_PER_WORKER :: nat where
  "MAX_TASKS_PER_WORKER = 50"

definition MAX_ALLOCATION_RADIUS :: real where
  "MAX_ALLOCATION_RADIUS = 10"

text \<open>
  Modelled from the spec: \<open>haversineDistance\<close> of \<open>common/utils/geo\<close>, which the
  allocation service imports, is not among the sources. The spec describes the distance
  utility as the great-circle distance between two coordinates; it is taken to be the
  haversine formula that the spatial index carries as its own private method.
\<close>

definition geo_haversineDistance :: "real \<Rightarrow> real \<Rightarrow> real \<Rightarrow> real \<Rightarrow> real" where
  "geo_haversineDistance = haversineDistance"

text \<open>
  \<open>calculateWorkerScore\<close>, in the arithmetic of doubles: every operation is rounded.
  For an infinite distance \<open>100 - distance / 10\<close> is \<open>-Infinity\<close> and
  \<open>Math.max(0, ...)\<close> gives \<open>0\<close>. With \<open>maxTasks = 0\<close> the division gives
  \<open>Infinity\<close> for a positive load and \<open>NaN\<close> for the load \<open>0\<close>, and the score is
  \<open>-Infinity\<close> or \<open>NaN\<close>.
\<close>

datatype score = Score real | MinusInfinity | NotANumber

definition calculateWorkerScore :: "number \<Rightarrow> nat \<Rightarrow> nat \<Rightarrow> score" where
  "calculateWorkerScore distanceKm currentTasks maxTasks =
     (let distanceScore =
            (case distanceKm of
               Num d \<Rightarrow> max 0 (toDouble (100 - toDouble (d / 10)))
             | Infinity \<Rightarrow> 0)
      in if maxTasks = 0 then (if currentTasks = 0 then NotANumber else MinusInfinity)
         else (let loadScore =
                     toDouble (toDouble (1 - toDouble (real currentTasks / real maxTasks)) * 50)
               in Score (toDouble (distanceScore + loadScore))))"

text \<open>\<open>workerTaskCounts[id] || 0\<close> on a record from worker ids to counts.\<close>

definition countOf :: "(string \<rightharpoonup> nat) \<Rightarrow> string \<Rightarrow> nat" where
  "countOf workerTaskCounts wid = (case workerTaskCounts wid of None \<Rightarrow> 0 | Some n \<Rightarrow> n)"

record Best =
  bestWorker :: "User option"
  bestScore :: real
  bestDistance :: number

definition workerDistance :: "WorkerPoint \<Rightarrow> Task \<Rightarrow> number" where
  "workerDistance workerPoint task =
     (case distance_wp workerPoint of
        Some d \<Rightarrow> d
      | None \<Rightarrow>
          (case (lat_task task, lon_task task,
                 lat_user (data_wp workerPoint), lon_user (data_wp workerPoint)) of
             (Some tlat, Some tlon, Some wlat, Some wlon) \<Rightarrow>
               Num (geo_haversineDistance tlat tlon wlat wlon)
           | _ \<Rightarrow> Infinity))"

text \<open>
  One iteration of the \<open>for\<close> loop of \<open>selectBestWorkerOptimized\<close>. The test
  \<open>score > bestScore\<close> is false for a score that is \<open>-Infinity\<close> or \<open>NaN\<close>, so
  \<open>bestScore\<close> is always finite.
\<close>

definition selectStep :: "(string \<rightharpoonup> nat) \<Rightarrow> Task \<Rightarrow> Best \<Rightarrow> WorkerPoint \<Rightarrow> Best" where
  "selectStep workerTaskCounts task best workerPoint =
     (let worker = data_wp workerPoint;
          currentTasks = countOf workerTaskCounts (id_user worker)
      in if MAX_TASKS_PER_WORKER \<le> currentTasks then best
         else
           (let distanceKm = workerDistance workerPoint task
            in case calculateWorkerScore distanceKm currentTasks MAX_TASKS_PER_WORKER of
                 Score s \<Rightarrow>
                   if bestScore best < s
                   then \<lparr> bestWorker = Some worker, bestScore = s, bestDistance = distanceKm \<rparr>
                   else best
               | _ \<Rightarrow> best))"

definition selectBestWorkerOptimized ::
  "WorkerPoint list \<Rightarrow> (string \<rightharpoonup> nat) \<Rightarrow> Task \<Rightarrow> (User \<times> number) option" where
  "selectBestWorkerOptimized nearbyWorkers workerTaskCounts task =
     (let best = foldl (selectStep workerTaskCounts task)
                   \<lparr> bestWorker = None, bestScore = - 1, bestDistance = Infinity \<rparr>
                   nearbyWorkers
      in case bestWorker best of
           None \<Rightarrow> None
         | Some w \<Rightarrow> Some (w, bestDistance best))"

section \<open>The persistent store (Prisma)\<close>

text \<open>
  Exceptions are values: a call that throws returns \<open>Inl\<close> of the error. The store is
  the task table and the user table, with a flag that says whether it can be reached; a
  call on an unreachable store throws. Times (\<open>Date.now()\<close>, \<open>new Date()\<close>) are
  integers of milliseconds, passed in by the caller.
\<close>

datatype error =
    StoreUnavailable
  | RedisUnavailable
  | InvalidExpireTime
  | CircuitOpen
  | JsonError
  | BadRequestException error

record Store =
  online :: bool
  taskRows :: "Task list"
  userRows :: "User list"

text \<open>
  \<open>prisma.task.findMany\<close> of \<open>allocateTasksOptimized\<close>: the unassigned, geocoded
  tasks by creation time, at most \<open>batchSize\<close> of them.
\<close>

definition findPendingTasks :: "Store \<Rightarrow> nat \<Rightarrow> error + Task list" where
  "findPendingTasks db batchSize =
     (if online db
      then Inr (take batchSize
                 (sort_key createdAt
                   (filter (\<lambda>t. \<not> geocodePending t \<and> status t = unassigned) (taskRows db))))
      else Inl StoreUnavailable)"

text \<open>\<open>CacheService.getWorkers\<close>: read from the store, the cache is disabled there.\<close>

definition getWorkers :: "Store \<Rightarrow> error + User list" where
  "getWorkers db =
     (if online db
      then Inr (filter (\<lambda>u. role u = ''WORKER'' \<and> lat_user u \<noteq> None \<and> lon_user u \<noteq> None
                             \<and> active u) (userRows db))
      else Inl StoreUnavailable)"

text \<open>The number of active tasks (assigned or accepted) of a worker in the task table.\<close>

definition activeCount :: "Task list \<Rightarrow> string \<Rightarrow> nat" where
  "activeCount rows wid =
     length (filter (\<lambda>t. assignedUserId t = Some wid
                          \<and> (status t = assigned \<or> status t = accepted)) rows)"

text \<open>
  \<open>getWorkerTaskCountsBatch\<close>: every requested id starts at \<open>0\<close>; a group of the
  \<open>groupBy\<close> overwrites it when its \<open>assignedUserId\<close> is truthy (not the empty string).
  When the store call throws, the catch block answers \<open>0\<close> for every id.
\<close>

definition getWorkerTaskCountsBatch :: "Store \<Rightarrow> string list \<Rightarrow> (string \<rightharpoonup> nat)" where
  "getWorkerTaskCountsBatch db workerIds =
     (if online db
      then (\<lambda>wid. if wid \<in> set workerIds
                  then Some (if wid = [] then 0 else activeCount (taskRows db) wid)
                  else None)
      else (\<lambda>wid. if wid \<in> set workerIds then Some 0 else None))"

text \<open>
  \<open>tx.task.updateMany\<close> with the guard \<open>{ id, status: 'unassigned' }\<close>: the rows it
  changes and their number.
\<close>

definition updateManyGuarded :: "int \<Rightarrow> Allocation \<Rightarrow> Task list \<Rightarrow> nat \<times> Task list" where
  "updateManyGuarded now allocation rows =
     (length (filter (\<lambda>t. id_task t = taskId allocation \<and> status t = unassigned) rows),
      map (\<lambda>t. if id_task t = taskId allocation \<and> status t = unassigned
               then t\<lparr> assignedUserId := Some (workerId allocation),
                       status := assigned,
                       assignedAt := Some now \<rparr>
               else t) rows)"

text \<open>The loop inside the transaction of \<open>bulkUpdateTaskAllocations\<close>.\<close>

fun bulkUpdateLoop :: "int \<Rightarrow> Allocation list \<Rightarrow> string list \<times> Task list \<Rightarrow> string list \<times> Task list" where
  "bulkUpdateLoop now [] acc = acc"
| "bulkUpdateLoop now (allocation # rest) (successful, rows) =
     (case updateManyGuarded now allocation rows of
        (n, rows') \<Rightarrow>
          bulkUpdateLoop now rest
            (if 0 < n then successful @ [taskId allocation] else successful, rows'))"

text \<open>
  \<open>bulkUpdateTaskAllocations\<close>: the transaction either runs as a whole or throws, and
  the error is thrown on.
\<close>

definition bulkUpdateTaskAllocations ::
  "int \<Rightarrow> Allocation list \<Rightarrow> Store \<Rightarrow> error + (string list \<times> Store)" where
  "bulkUpdateTaskAllocations now allocations db =
     (if online db
      then (case bulkUpdateLoop now allocations ([], taskRows db) of
              (successful, rows') \<Rightarrow> Inr (successful, db\<lparr> taskRows := rows' \<rparr>))
      else Inl StoreUnavailable)"

section \<open>Statistics of a run\<close>

definition averageStep :: "number \<times> nat \<Rightarrow> Allocation \<Rightarrow> number \<times> nat" where
  "averageStep acc allocation =
     (case distance allocation of
        Some d \<Rightarrow> (if numNonneg d then (numAdd (fst acc) d, snd acc + 1) else acc)
      | None \<Rightarrow> acc)"

definition calculateAverageDistance :: "Allocation list \<Rightarrow> number" where
  "calculateAverageDistance allocations =
     (if allocations = [] then Num 0
      else (case foldl averageStep (Num 0, 0) allocations of
              (totalDistance, validAllocations) \<Rightarrow>
                if 0 < validAllocations then numDiv totalDistance validAllocations else Num 0))"

definition calculateWorkerUtilization :: "User list \<Rightarrow> (string \<rightharpoonup> nat) \<Rightarrow> real" where
  "calculateWorkerUtilization workers workerTaskCounts =
     (if workers = [] then 0
      else (let totalUtilization =
                  sum_list (map (\<lambda>w. real (countOf workerTaskCounts (id_user w))
                                        / real MAX_TASKS_PER_WORKER) workers);
                validWorkers = length workers
            in if 0 < validWorkers then totalUtilization / real validWorkers else 0))"

section \<open>The cache store (Redis) and the circuit breaker (RedisCacheService)\<close>

record CachedWorker =
  id_cw :: string
  lat_cw :: real
  lon_cw :: real
  role_cw :: string
  active_cw :: bool
  currentTaskCount :: nat
  lastUpdated :: int

record WorkerSummary =
  unassigned_n :: nat
  assigned_n :: nat
  accepted_n :: nat
  completed_n :: nat
  rejected_n :: nat
  total_n :: nat

record AllocationMetrics =
  totalTasks_m :: nat
  allocated_m :: nat
  failed_m :: int
  successRate_m :: real
  duration_m :: int
  spatialIndexStats_m :: SpatialStats
  avgDistance_m :: number
  workerUtilization_m :: real

text \<open>
  A cache entry holds a text: the JSON of a document, or the text \<open>version.toString()\<close>
  of a version number. The model keeps the document the text denotes, so
  \<open>JSON.parse\<close> of \<open>JSON.stringify x\<close> is \<open>x\<close>, and keeps the number a version text
  was printed from; what \<open>parseInt\<close> reads from that text is \<open>parseIntOfNumber\<close>
  below. Reading an entry as a document of another kind is treated as a parse error.
\<close>

datatype doc =
    DocVersion real
  | DocSummary WorkerSummary
  | DocWorkers "CachedWorker list"
  | DocWorker "CachedWorker option"
  | DocStats SpatialStats int
  | DocUsers "User list"
  | DocResults AllocationMetrics int
  | DocRecent "(AllocationMetrics \<times> int) list"

text \<open>
  The cache store: whether it can be reached, its clock in milliseconds, and its
  entries. An entry written with a time to live carries the time at which it expires;
  once the clock is past that time the key does not exist for any command.
\<close>

record Redis =
  up :: bool
  clock :: int
  entries :: "(string \<times> doc \<times> int option) list"

definition liveAt :: "int \<Rightarrow> doc \<times> int option \<Rightarrow> bool" where
  "liveAt t e = (case snd e of None \<Rightarrow> True | Some expiry \<Rightarrow> t \<le> expiry)"

definition liveEntries :: "Redis \<Rightarrow> (string \<times> doc \<times> int option) list" where
  "liveEntries r = filter (\<lambda>kv. liveAt (clock r) (snd kv)) (entries r)"

definition lookupLive :: "Redis \<Rightarrow> string \<Rightarrow> doc option" where
  "lookupLive r key =
     (case map_of (entries r) key of
        None \<Rightarrow> None
      | Some e \<Rightarrow> if liveAt (clock r) e then Some (fst e) else None)"

text \<open>
  The commands of the client. Each one throws when the cache store cannot be reached;
  \<open>SETEX\<close> is refused with a time to live of \<open>0\<close>. \<open>redisScan\<close> is the whole
  \<open>SCAN\<close> loop of \<open>getKeysByPattern\<close>; the patterns in use are a literal key or a
  prefix followed by a star.
\<close>

definition globMatch :: "string \<Rightarrow> string \<Rightarrow> bool" where
  "globMatch pattern key =
     (if pattern \<noteq> [] \<and> last pattern = CHR ''*'' then prefix (butlast pattern) key
      else pattern = key)"

definition redisGet :: "string \<Rightarrow> Redis \<Rightarrow> (error + doc option) \<times> Redis" where
  "redisGet key r =
     (if up r then (Inr (lookupLive r key), r) else (Inl RedisUnavailable, r))"

definition redisSet :: "string \<Rightarrow> doc \<Rightarrow> Redis \<Rightarrow> (error + unit) \<times> Redis" where
  "redisSet key v r =
     (if up r then (Inr (), r\<lparr> entries := AList.update key (v, None) (entries r) \<rparr>)
      else (Inl RedisUnavailable, r))"

definition redisSetex :: "string \<Rightarrow> nat \<Rightarrow> doc \<Rightarrow> Redis \<Rightarrow> (error + unit) \<times> Redis" where
  "redisSetex key seconds v r =
     (if \<not> up r then (Inl RedisUnavailable, r)
      else if seconds = 0 then (Inl InvalidExpireTime, r)
      else (Inr (), r\<lparr> entries :=
                         AList.update key (v, Some (clock r + int seconds * 1000)) (entries r) \<rparr>))"

definition redisDel :: "string list \<Rightarrow> Redis \<Rightarrow> (error + nat) \<times> Redis" where
  "redisDel keys r =
     (if up r
      then (Inr (length (filter (\<lambda>kv. fst kv \<in> set keys) (liveEntries r))),
            r\<lparr> entries := filter (\<lambda>kv. fst kv \<notin> set keys) (entries r) \<rparr>)
      else (Inl RedisUnavailable, r))"

definition redisScan :: "string \<Rightarrow> Redis \<Rightarrow> (error + string list) \<times> Redis" where
  "redisScan pattern r =
     (if up r then (Inr (filter (globMatch pattern) (map fst (liveEntries r))), r)
      else (Inl RedisUnavailable, r))"

datatype BreakerState = CLOSED | OPEN | HALF_OPEN

record CircuitBreaker =
  failures :: nat
  lastFailure :: int
  state :: BreakerState
  failureThreshold :: nat
  recoveryTimeout :: int

record RedisCacheService =
  redis :: Redis
  circuitBreaker :: CircuitBreaker

text \<open>The breaker of a freshly constructed service.\<close>

definition initialCircuitBreaker :: CircuitBreaker where
  "initialCircuitBreaker =
     \<lparr> failures = 0, lastFailure = 0, state = CLOSED,
       failureThreshold = 5, recoveryTimeout = 60000 \<rparr>"

definition onCircuitBreakerSuccess :: "CircuitBreaker \<Rightarrow> CircuitBreaker" where
  "onCircuitBreakerSuccess cb =
     (let cb1 = cb\<lparr> failures := 0 \<rparr>
      in if state cb1 = HALF_OPEN then cb1\<lparr> state := CLOSED \<rparr> else cb1)"

definition onCircuitBreakerFailure :: "int \<Rightarrow> CircuitBreaker \<Rightarrow> CircuitBreaker" where
  "onCircuitBreakerFailure failTime cb =
     cb\<lparr> failures := failures cb + 1, lastFailure := failTime \<rparr>"

text \<open>
  \<open>executeWithCircuitBreaker\<close>. \<open>now\<close> is the clock read on entry, \<open>failTime\<close> the
  clock read by \<open>onCircuitBreakerFailure\<close> after the operation has thrown. The wrapped
  operation acts on the cache store; it runs only when the last branch is reached.
\<close>

definition executeWithCircuitBreaker ::
  "int \<Rightarrow> int \<Rightarrow> (Redis \<Rightarrow> (error + 'a) \<times> Redis) \<Rightarrow> RedisCacheService
     \<Rightarrow> (error + 'a) \<times> RedisCacheService" where
  "executeWithCircuitBreaker now failTime operation svc =
     (let cb0 = circuitBreaker svc;
          cb1 = (if state cb0 = CLOSED \<and> failureThreshold cb0 \<le> failures cb0
                 then cb0\<lparr> state := OPEN, lastFailure := now \<rparr> else cb0);
          cb2 = (if state cb1 = OPEN \<and> recoveryTimeout cb1 < now - lastFailure cb1
                 then cb1\<lparr> state := HALF_OPEN \<rparr> else cb1)
      in if state cb2 = OPEN then (Inl CircuitOpen, svc\<lparr> circuitBreaker := cb2 \<rparr>)
         else (case operation (redis svc) of
                 (Inr result, r') \<Rightarrow>
                   (Inr result, \<lparr> redis = r', circuitBreaker = onCircuitBreakerSuccess cb2 \<rparr>)
               | (Inl e, r') \<Rightarrow>
                   (Inl e, \<lparr> redis = r', circuitBreaker = onCircuitBreakerFailure failTime cb2 \<rparr>)))"

text \<open>
  \<open>set\<close>, \<open>get\<close>, \<open>del\<close>: \<open>get\<close> answers \<open>null\<close> on failure, the others throw on.
  The optional \<open>ttlSeconds\<close> of \<open>set\<close> is tested by truthiness; a call without it is the
  call with \<open>0\<close>.
\<close>

definition set_cache ::
  "string \<Rightarrow> doc \<Rightarrow> nat \<Rightarrow> RedisCacheService \<Rightarrow> (error + unit) \<times> RedisCacheService" where
  "set_cache key v ttlSeconds svc =
     (case (if ttlSeconds \<noteq> 0 then redisSetex key ttlSeconds v (redis svc)
            else redisSet key v (redis svc)) of
        (res, r') \<Rightarrow> (res, svc\<lparr> redis := r' \<rparr>))"

definition get_cache :: "string \<Rightarrow> RedisCacheService \<Rightarrow> doc option \<times> RedisCacheService" where
  "get_cache key svc =
     (case redisGet key (redis svc) of
        (Inr v, r') \<Rightarrow> (v, svc\<lparr> redis := r' \<rparr>)
      | (Inl e, r') \<Rightarrow> (None, svc\<lparr> redis := r' \<rparr>))"

definition del_cache :: "string \<Rightarrow> RedisCacheService \<Rightarrow> (error + nat) \<times> RedisCacheService" where
  "del_cache key svc =
     (case redisDel [key] (redis svc) of (res, r') \<Rightarrow> (res, svc\<lparr> redis := r' \<rparr>))"

subsection \<open>Versioned writes\<close>

text \<open>
  \<open>parseInt(version.toString())\<close> for a finite number. \<open>toString\<close> prints a number
  whose size is at least \<open>10^-6\<close> and below \<open>10^21\<close> in decimal notation, and
  \<open>parseInt\<close> reads its digits up to the decimal point: the number truncated towards
  \<open>0\<close>. Any other number but \<open>0\<close> is printed in exponent notation, as in \<open>1e+21\<close>
  or \<open>1.5e-7\<close>, and \<open>parseInt\<close> reads the one digit before the point or the \<open>e\<close>;
  that digit is taken to be the first significant decimal digit of the number. A
  negative number is printed with a minus sign, which \<open>parseInt\<close> reads.
\<close>

definition firstDigit :: "real \<Rightarrow> int" where
  "firstDigit x = \<lfloor>x / 10 powr real_of_int \<lfloor>log 10 x\<rfloor>\<rfloor>"

definition parseIntOfNumber :: "real \<Rightarrow> int" where
  "parseIntOfNumber v =
     (let a = \<bar>v\<bar>;
          digits = (if a = 0 then 0
                    else if a < 1 / 10 ^ 6 \<or> 10 ^ 21 \<le> a then firstDigit a
                    else \<lfloor>a\<rfloor>)
      in if v < 0 then - digits else digits)"

text \<open>
  \<open>getCacheVersion\<close>: \<open>0\<close> when the version entry is absent or expired, is not a
  number (\<open>parseInt\<close> gives \<open>NaN\<close>, which the callers' guard treats like \<open>0\<close>) or
  cannot be read.
\<close>

definition getCacheVersion :: "string \<Rightarrow> RedisCacheService \<Rightarrow> int \<times> RedisCacheService" where
  "getCacheVersion key svc =
     (case redisGet (key @ '':version'') (redis svc) of
        (Inr (Some (DocVersion v)), r') \<Rightarrow> (parseIntOfNumber v, svc\<lparr> redis := r' \<rparr>)
      | (Inr _, r') \<Rightarrow> (0, svc\<lparr> redis := r' \<rparr>)
      | (Inl e, r') \<Rightarrow> (0, svc\<lparr> redis := r' \<rparr>))"

definition setCacheVersion :: "string \<Rightarrow> real \<Rightarrow> RedisCacheService \<Rightarrow> RedisCacheService" where
  "setCacheVersion key version svc =
     (case redisSetex (key @ '':version'') 300 (DocVersion version) (redis svc) of
        (res, r') \<Rightarrow> svc\<lparr> redis := r' \<rparr>)"

text \<open>
  The guard \<open>currentVersion && currentVersion >= version\<close> compares the integer that
  was read with the caller's number.
\<close>

definition updateCacheWithVersion ::
  "string \<Rightarrow> doc \<Rightarrow> real \<Rightarrow> RedisCacheService \<Rightarrow> bool \<times> RedisCacheService" where
  "updateCacheWithVersion key payload version svc =
     (case getCacheVersion key svc of
        (currentVersion, svc1) \<Rightarrow>
          if currentVersion \<noteq> 0 \<and> version \<le> real_of_int currentVersion then (False, svc1)
          else (case redisSetex key 300 payload (redis svc1) of
                  (Inl e, r') \<Rightarrow> (False, svc1\<lparr> redis := r' \<rparr>)
                | (Inr u, r') \<Rightarrow> (True, setCacheVersion key version (svc1\<lparr> redis := r' \<rparr>))))"

text \<open>
  \<open>AdvancedCacheService.syncCacheWithVersion\<close>. The two calls it makes never throw, so
  its own catch block is never entered; the answer of \<open>updateCacheWithVersion\<close> is
  dropped.
\<close>

definition syncCacheWithVersion ::
  "string \<Rightarrow> doc \<Rightarrow> real \<Rightarrow> RedisCacheService \<Rightarrow> bool \<times> RedisCacheService" where
  "syncCacheWithVersion key payload version svc =
     (case getCacheVersion key svc of
        (currentVersion, svc1) \<Rightarrow>
          if currentVersion \<noteq> 0 \<and> version \<le> real_of_int currentVersion then (False, svc1)
          else (case updateCacheWithVersion key payload version svc1 of
                  (written, svc2) \<Rightarrow> (True, svc2)))"

text \<open>The stored version of a key: the integer that \<open>getCacheVersion\<close> reads.\<close>

definition storedVersion :: "string \<Rightarrow> RedisCacheService \<Rightarrow> int" where
  "storedVersion key svc = fst (getCacheVersion key svc)"



subsection \<open>Worker caches\<close>

text \<open>
  \<open>Promise.all\<close> over calls that have all been started: every call runs, the first
  rejection is the one that is thrown. The calls are taken in list order.
\<close>

fun promiseAll ::
  "('x \<Rightarrow> RedisCacheService \<Rightarrow> (error + unit) \<times> RedisCacheService) \<Rightarrow> 'x list
     \<Rightarrow> RedisCacheService \<Rightarrow> (error + unit) \<times> RedisCacheService" where
  "promiseAll f [] svc = (Inr (), svc)"
| "promiseAll f (x # xs) svc =
     (case f x svc of
        (res, svc1) \<Rightarrow>
          (case promiseAll f xs svc1 of
             (resRest, svc2) \<Rightarrow>
               (case res of Inl e \<Rightarrow> (Inl e, svc2) | Inr u \<Rightarrow> (resRest, svc2))))"

text \<open>
  \<open>invalidateWorkerTaskCache\<close> (called without a task id): for each pattern, scan and
  delete. Nothing is caught here.
\<close>

fun invalidatePatterns ::
  "string list \<Rightarrow> nat \<Rightarrow> RedisCacheService \<Rightarrow> (error + nat) \<times> RedisCacheService" where
  "invalidatePatterns [] totalKeysDeleted svc = (Inr totalKeysDeleted, svc)"
| "invalidatePatterns (pattern # rest) totalKeysDeleted svc =
     (case redisScan pattern (redis svc) of
        (Inl e, r1) \<Rightarrow> (Inl e, svc\<lparr> redis := r1 \<rparr>)
      | (Inr keys, r1) \<Rightarrow>
          if keys \<noteq> [] then
            (case redisDel keys r1 of
               (Inl e, r2) \<Rightarrow> (Inl e, svc\<lparr> redis := r2 \<rparr>)
             | (Inr n, r2) \<Rightarrow>
                 invalidatePatterns rest (totalKeysDeleted + length keys) (svc\<lparr> redis := r2 \<rparr>))
          else invalidatePatterns rest totalKeysDeleted (svc\<lparr> redis := r1 \<rparr>))"

definition invalidateWorkerTaskCache ::
  "string \<Rightarrow> RedisCacheService \<Rightarrow> (error + nat) \<times> RedisCacheService" where
  "invalidateWorkerTaskCache wid svc =
     invalidatePatterns
       [''worker:tasks:'' @ wid @ '':*'',
        ''worker:summary:'' @ wid,
        ''worker:tasks:all:'' @ wid] 0 svc"

definition SUMMARY_TTL :: nat where
  "SUMMARY_TTL = 9000"

definition countByStatus :: "Task list \<Rightarrow> string \<Rightarrow> TaskStatus \<Rightarrow> nat" where
  "countByStatus rows wid st =
     length (filter (\<lambda>t. assignedUserId t = Some wid \<and> status t = st) rows)"

text \<open>
  \<open>getWorkerTaskSummaryCached\<close>: a cached summary if the breaker lets the read through
  and the entry parses, otherwise the counts of the store (which throws when the store
  is unreachable), written back to the cache on a best-effort basis.
\<close>

definition getWorkerTaskSummaryCached ::
  "int \<Rightarrow> Store \<Rightarrow> string \<Rightarrow> RedisCacheService \<Rightarrow> (error + WorkerSummary) \<times> RedisCacheService" where
  "getWorkerTaskSummaryCached now db wid svc =
     (let cacheKey = ''worker:summary:'' @ wid
      in case executeWithCircuitBreaker now now (redisGet cacheKey) svc of
           (Inr (Some (DocSummary cached)), svc1) \<Rightarrow> (Inr cached, svc1)
         | (res, svc1) \<Rightarrow>
             if \<not> online db then (Inl StoreUnavailable, svc1)
             else
               (let c1 = countByStatus (taskRows db) wid assigned;
                    c2 = countByStatus (taskRows db) wid accepted;
                    c3 = countByStatus (taskRows db) wid completed;
                    c4 = countByStatus (taskRows db) wid rejected;
                    summary = \<lparr> unassigned_n = 0, assigned_n = c1, accepted_n = c2,
                                completed_n = c3, rejected_n = c4,
                                total_n = c1 + c2 + c3 + c4 \<rparr>
                in case executeWithCircuitBreaker now now
                          (redisSetex cacheKey SUMMARY_TTL (DocSummary summary)) svc1 of
                     (written, svc2) \<Rightarrow> (Inr summary, svc2)))"

text \<open>
  \<open>summary.total\<close> is recomputed as the sum of every numeric field of the object, the
  old total included.
\<close>

definition retotal :: "WorkerSummary \<Rightarrow> WorkerSummary" where
  "retotal s =
     s\<lparr> total_n := unassigned_n s + assigned_n s + accepted_n s + completed_n s
                    + rejected_n s + total_n s \<rparr>"

record TaskCounts =
  assigned_tc :: nat
  accepted_tc :: nat
  completed_tc :: nat
  rejected_tc :: nat

definition addTaskCounts :: "TaskCounts \<Rightarrow> WorkerSummary \<Rightarrow> WorkerSummary" where
  "addTaskCounts taskCounts s =
     retotal (s\<lparr> assigned_n := assigned_n s + assigned_tc taskCounts,
                 accepted_n := accepted_n s + accepted_tc taskCounts,
                 completed_n := completed_n s + completed_tc taskCounts,
                 rejected_n := rejected_n s + rejected_tc taskCounts \<rparr>)"

fun summaryField :: "TaskStatus \<Rightarrow> WorkerSummary \<Rightarrow> nat" where
  "summaryField unassigned s = unassigned_n s"
| "summaryField assigned s = assigned_n s"
| "summaryField accepted s = accepted_n s"
| "summaryField rejected s = rejected_n s"
| "summaryField completed s = completed_n s"

fun setSummaryField :: "TaskStatus \<Rightarrow> nat \<Rightarrow> WorkerSummary \<Rightarrow> WorkerSummary" where
  "setSummaryField unassigned n s = s\<lparr> unassigned_n := n \<rparr>"
| "setSummaryField assigned n s = s\<lparr> assigned_n := n \<rparr>"
| "setSummaryField accepted n s = s\<lparr> accepted_n := n \<rparr>"
| "setSummaryField rejected n s = s\<lparr> rejected_n := n \<rparr>"
| "setSummaryField completed n s = s\<lparr> completed_n := n \<rparr>"

definition applyStatusChange :: "TaskStatus option \<Rightarrow> TaskStatus \<Rightarrow> WorkerSummary \<Rightarrow> WorkerSummary" where
  "applyStatusChange oldStatus newStatus s =
     (let s1 = (case oldStatus of
                  None \<Rightarrow> s
                | Some old \<Rightarrow> setSummaryField old (summaryField old s - 1) s);
          s2 = setSummaryField newStatus (summaryField newStatus s1 + 1) s1
      in retotal s2)"

text \<open>
  The two catch blocks that \<open>updateWorkerTaskSummaryCacheBulk\<close> and
  \<open>updateWorkerTaskSummaryCache\<close> share: the outer one deletes the entry and swallows
  a failure of the deletion; the inner one deletes the entry and lets a failure reach the
  outer one.
\<close>

definition summaryOuterCatch :: "int \<Rightarrow> string \<Rightarrow> RedisCacheService \<Rightarrow> RedisCacheService" where
  "summaryOuterCatch now cacheKey svc =
     snd (executeWithCircuitBreaker now now (redisDel [cacheKey]) svc)"

definition summaryInnerCatch :: "int \<Rightarrow> string \<Rightarrow> RedisCacheService \<Rightarrow> RedisCacheService" where
  "summaryInnerCatch now cacheKey svc =
     (case executeWithCircuitBreaker now now (redisDel [cacheKey]) svc of
        (Inr n, svc1) \<Rightarrow> svc1
      | (Inl e, svc1) \<Rightarrow> summaryOuterCatch now cacheKey svc1)"

text \<open>
  The body the two update methods share, with the edit of the summary as a parameter.
  The Boolean is the field \<open>updated\<close> of the answer.
\<close>

definition updateSummaryWith ::
  "(WorkerSummary \<Rightarrow> WorkerSummary) \<Rightarrow> int \<Rightarrow> Store \<Rightarrow> string \<Rightarrow> RedisCacheService
     \<Rightarrow> bool \<times> RedisCacheService" where
  "updateSummaryWith edit now db wid svc =
     (let cacheKey = ''worker:summary:'' @ wid
      in case executeWithCircuitBreaker now now (redisGet cacheKey) svc of
           (Inl e, svc1) \<Rightarrow> (False, summaryOuterCatch now cacheKey svc1)
         | (Inr None, svc1) \<Rightarrow>
             (case getWorkerTaskSummaryCached now db wid svc1 of
                (Inr fresh, svc2) \<Rightarrow> (True, svc2)
              | (Inl e, svc2) \<Rightarrow> (False, svc2))
         | (Inr (Some (DocSummary summary)), svc1) \<Rightarrow>
             (case executeWithCircuitBreaker now now
                     (redisSetex cacheKey SUMMARY_TTL (DocSummary (edit summary))) svc1 of
                (Inr u, svc2) \<Rightarrow> (True, svc2)
              | (Inl e, svc2) \<Rightarrow> (False, summaryInnerCatch now cacheKey svc2))
         | (Inr (Some other), svc1) \<Rightarrow> (False, summaryInnerCatch now cacheKey svc1))"

definition updateWorkerTaskSummaryCacheBulk ::
  "int \<Rightarrow> Store \<Rightarrow> string \<Rightarrow> TaskCounts \<Rightarrow> RedisCacheService \<Rightarrow> bool \<times> RedisCacheService" where
  "updateWorkerTaskSummaryCacheBulk now db wid taskCounts svc =
     updateSummaryWith (addTaskCounts taskCounts) now db wid svc"

definition updateWorkerTaskSummaryCache ::
  "int \<Rightarrow> Store \<Rightarrow> string \<Rightarrow> TaskStatus option \<Rightarrow> TaskStatus \<Rightarrow> RedisCacheService
     \<Rightarrow> bool \<times> RedisCacheService" where
  "updateWorkerTaskSummaryCache now db wid oldStatus newStatus svc =
     updateSummaryWith (applyStatusChange oldStatus newStatus) now db wid svc"

text \<open>
  \<open>TaskAllocationService.invalidateWorkerCaches\<close>: one call per worker, all under
  \<open>Promise.all\<close>, inside a try block whose catch only logs. The service at hand has
  \<open>updateWorkerTaskSummaryCacheBulk\<close>, so the fallback for mocks is not taken.
\<close>

definition invalidateOneWorker ::
  "int \<Rightarrow> Store \<Rightarrow> (string \<rightharpoonup> nat) option \<Rightarrow> string \<Rightarrow> RedisCacheService
     \<Rightarrow> (error + unit) \<times> RedisCacheService" where
  "invalidateOneWorker now db workerTaskCounts wid svc =
     (case invalidateWorkerTaskCache wid svc of
        (Inl e, svc1) \<Rightarrow> (Inl e, svc1)
      | (Inr n, svc1) \<Rightarrow>
          (case workerTaskCounts of
             Some counts \<Rightarrow>
               if 0 < countOf counts wid
               then (Inr (), snd (updateWorkerTaskSummaryCacheBulk now db wid
                                    \<lparr> assigned_tc = countOf counts wid, accepted_tc = 0,
                                      completed_tc = 0, rejected_tc = 0 \<rparr> svc1))
               else (Inr (), snd (updateWorkerTaskSummaryCache now db wid
                                    (Some unassigned) assigned svc1))
           | None \<Rightarrow>
               (Inr (), snd (updateWorkerTaskSummaryCache now db wid
                               (Some unassigned) assigned svc1))))"

definition invalidateWorkerCaches ::
  "int \<Rightarrow> Store \<Rightarrow> string list \<Rightarrow> (string \<rightharpoonup> nat) option \<Rightarrow> RedisCacheService
     \<Rightarrow> RedisCacheService" where
  "invalidateWorkerCaches now db workerIds workerTaskCounts svc =
     snd (promiseAll (invalidateOneWorker now db workerTaskCounts) workerIds svc)"

section \<open>Allocation caches (AdvancedCacheService)\<close>

definition digitChar :: "nat \<Rightarrow> char" where
  "digitChar n = char_of (48 + n)"

function showNat :: "nat \<Rightarrow> string" where
  "showNat n = (if n < 10 then [digitChar n] else showNat (n div 10) @ [digitChar (n mod 10)])"
  by pat_completeness auto
termination
  by (relation "measure (\<lambda>n. n)") auto

text \<open>The decimal text of an integer, for keys built from \<open>Date.now()\<close>.\<close>

definition showInt :: "int \<Rightarrow> string" where
  "showInt i = (if i < 0 then CHR ''-'' # showNat (nat (- i)) else showNat (nat i))"

definition toCachedWorker :: "int \<Rightarrow> User \<Rightarrow> CachedWorker" where
  "toCachedWorker now worker =
     \<lparr> id_cw = id_user worker,
       lat_cw = (case lat_user worker of None \<Rightarrow> 0 | Some v \<Rightarrow> v),
       lon_cw = (case lon_user worker of None \<Rightarrow> 0 | Some v \<Rightarrow> v),
       role_cw = role worker,
       active_cw = active worker,
       currentTaskCount = 0,
       lastUpdated = now \<rparr>"

definition WORKER_CACHE_TTL :: nat where
  "WORKER_CACHE_TTL = 300"

definition SPATIAL_INDEX_TTL :: nat where
  "SPATIAL_INDEX_TTL = 600"

text \<open>Each method below is one try block whose catch only logs.\<close>

definition cacheWorkersWithSpatialIndex :: "int \<Rightarrow> User list \<Rightarrow> RedisCacheService \<Rightarrow> RedisCacheService" where
  "cacheWorkersWithSpatialIndex now workers svc =
     (let cachedWorkers = map (toCachedWorker now) workers
      in case set_cache ''workers:spatial_index'' (DocWorkers cachedWorkers)
                SPATIAL_INDEX_TTL svc of
           (Inl e, svc1) \<Rightarrow> svc1
         | (Inr u, svc1) \<Rightarrow>
             snd (promiseAll
                    (\<lambda>worker. set_cache (''worker:'' @ id_user worker)
                       (DocWorker (find (\<lambda>w. id_cw w = id_user worker) cachedWorkers))
                       WORKER_CACHE_TTL)
                    workers svc1))"

definition cacheSpatialIndexStats :: "SpatialStats \<Rightarrow> int \<Rightarrow> RedisCacheService \<Rightarrow> RedisCacheService" where
  "cacheSpatialIndexStats stats timestamp svc =
     snd (set_cache ''spatial:index:stats'' (DocStats stats timestamp) SPATIAL_INDEX_TTL svc)"

definition cacheAllocationResults ::
  "int \<Rightarrow> AllocationMetrics \<Rightarrow> int \<Rightarrow> RedisCacheService \<Rightarrow> RedisCacheService" where
  "cacheAllocationResults now results timestamp svc =
     (case set_cache (''allocation:results:'' @ showInt now) (DocResults results timestamp)
             3600 svc of
        (Inl e, svc1) \<Rightarrow> svc1
      | (Inr u, svc1) \<Rightarrow>
          (case get_cache ''allocation:recent'' svc1 of
             (recent, svc2) \<Rightarrow>
               (case (case recent of
                        None \<Rightarrow> Inr []
                      | Some (DocRecent l) \<Rightarrow> Inr l
                      | Some other \<Rightarrow> Inl JsonError) of
                  Inl e \<Rightarrow> svc2
                | Inr recentList \<Rightarrow>
                    (let pushed = recentList @ [(results, timestamp)];
                         kept = (if 50 < length pushed then drop (length pushed - 50) pushed
                                 else pushed)
                     in snd (set_cache ''allocation:recent'' (DocRecent kept) 3600 svc2)))))"

section \<open>The allocation run (TaskAllocationService.allocateTasksOptimized)\<close>

text \<open>
  One iteration of the loop over the tasks: the proposals so far and the count of tasks
  that failed to allocate.
\<close>

definition allocationStep ::
  "SpatialIndex \<Rightarrow> (string \<rightharpoonup> nat) \<Rightarrow> Allocation list \<times> int \<Rightarrow> Task \<Rightarrow> Allocation list \<times> int" where
  "allocationStep idx counts acc task =
     (if \<not> truthy (lat_task task) \<or> \<not> truthy (lon_task task) then (fst acc, snd acc + 1)
      else
        (let nearbyWorkers =
               findNearbyWorkers idx (the (lat_task task)) (the (lon_task task))
                 MAX_ALLOCATION_RADIUS;
             nearbyWorkerPoints =
               map (\<lambda>sp. \<lparr> data_wp = data sp, distance_wp = None \<rparr>) nearbyWorkers
         in if nearbyWorkers = [] then (fst acc, snd acc + 1)
            else (case selectBestWorkerOptimized nearbyWorkerPoints counts task of
                    Some (chosenWorker, d) \<Rightarrow>
                      (fst acc @ [\<lparr> taskId = id_task task,
                                     workerId = id_user chosenWorker,
                                     distance = Some d \<rparr>], snd acc)
                  | None \<Rightarrow> (fst acc, snd acc + 1))))"

definition proposeAllocations ::
  "SpatialIndex \<Rightarrow> (string \<rightharpoonup> nat) \<Rightarrow> Task list \<Rightarrow> Allocation list \<times> int" where
  "proposeAllocations idx counts tasks = foldl (allocationStep idx counts) ([], 0) tasks"

text \<open>
  The bookkeeping after the guarded bulk update: the variables
  \<open>successfulAllocations\<close>, \<open>allocatedCount\<close>, \<open>allocationFailedCount\<close>,
  \<open>workerTaskCounts\<close> and \<open>affectedWorkers\<close> (a set in insertion order) as the block
  leaves them.
\<close>

record Bookkeeping =
  successfulAllocations :: "Allocation list"
  allocatedCount :: nat
  allocationFailedCount :: int
  workerTaskCounts :: "string \<rightharpoonup> nat"
  affectedWorkerSet :: "string list"

definition commitStep ::
  "(string \<rightharpoonup> nat) \<times> string list \<Rightarrow> Allocation \<Rightarrow> (string \<rightharpoonup> nat) \<times> string list" where
  "commitStep acc a =
     ((fst acc)(workerId a \<mapsto> countOf (fst acc) (workerId a) + 1),
      if workerId a \<in> set (snd acc) then snd acc else snd acc @ [workerId a])"

definition reconcile ::
  "Allocation list \<Rightarrow> int \<Rightarrow> (string \<rightharpoonup> nat) \<Rightarrow> string list \<Rightarrow> Bookkeeping" where
  "reconcile allocations failedBefore counts successfulIds =
     (let allocationMap = map_of (rev (map (\<lambda>a. (taskId a, a)) allocations));
          succ = List.map_filter allocationMap successfulIds;
          updated = foldl commitStep (counts, []) succ
      in \<lparr> successfulAllocations = succ,
           allocatedCount = length succ,
           allocationFailedCount =
             failedBefore + (int (length allocations) - int (length succ)),
           workerTaskCounts = fst updated,
           affectedWorkerSet = snd updated \<rparr>)"

record AllocationResult =
  message :: string
  totalTasks :: nat
  allocated :: nat
  allocationFailed :: int
  affectedWorkers :: "nat option"
  successRate :: "real option"
  duration :: "int option"
  spatialIndexStats :: "SpatialStats option"
  avgDistance :: "number option"
  workerUtilization :: "real option"

text \<open>
  The part of the run after the guarded bulk update has answered: cache invalidation,
  statistics, the result.
\<close>

definition finishRun ::
  "int \<Rightarrow> int \<Rightarrow> Task list \<Rightarrow> User list \<Rightarrow> SpatialStats \<Rightarrow> Allocation list \<Rightarrow> Bookkeeping
     \<Rightarrow> Store \<Rightarrow> RedisCacheService \<Rightarrow> AllocationResult \<times> RedisCacheService" where
  "finishRun now finish tasks workers stats allocations bk db svc =
     (let svc1 = (if 0 < length (affectedWorkerSet bk)
                  then invalidateWorkerCaches now db (affectedWorkerSet bk)
                         (Some (workerTaskCounts bk)) svc
                  else svc);
          elapsed = finish - now;
          rate = (if 0 < length tasks
                  then (real (allocatedCount bk) / real (length tasks)) * 100 else 0);
          avg = calculateAverageDistance
                  (if 0 < length (successfulAllocations bk) then successfulAllocations bk
                   else allocations);
          utilization = calculateWorkerUtilization workers (workerTaskCounts bk);
          allocationMetrics =
            \<lparr> totalTasks_m = length tasks, allocated_m = allocatedCount bk,
              failed_m = allocationFailedCount bk, successRate_m = rate,
              duration_m = elapsed, spatialIndexStats_m = stats, avgDistance_m = avg,
              workerUtilization_m = utilization \<rparr>;
          svc2 = cacheAllocationResults finish allocationMetrics finish svc1
      in (\<lparr> message = ''Optimized task allocation completed'',
            totalTasks = length tasks,
            allocated = allocatedCount bk,
            allocationFailed = allocationFailedCount bk,
            affectedWorkers = Some (length (affectedWorkerSet bk)),
            successRate = Some rate,
            duration = Some elapsed,
            spatialIndexStats = Some stats,
            avgDistance = Some avg,
            workerUtilization = Some utilization \<rparr>, svc2))"

text \<open>
  \<open>allocateTasksOptimized\<close>. \<open>db\<close> is the store as the reads at the start find it,
  \<open>dbCommit\<close> the store as the transaction of the bulk update finds it: other writers
  (another run, an admin, a worker) may act in between; without them the two are equal.
  \<open>now\<close> is the clock during the run, \<open>finish\<close> the clock at its end. The answer is
  the result or the \<open>BadRequestException\<close> thrown, the store after the run and the cache
  service after the run. The calls to the performance monitor, an in-process list of
  timings that no result depends on, are left out.
\<close>

definition allocateTasksOptimized ::
  "nat \<Rightarrow> int \<Rightarrow> int \<Rightarrow> Store \<Rightarrow> Store \<Rightarrow> RedisCacheService
     \<Rightarrow> (error + AllocationResult) \<times> Store \<times> RedisCacheService" where
  "allocateTasksOptimized batchSize now finish db dbCommit svc =
     (case (findPendingTasks db batchSize, getWorkers db) of
        (Inl e, _) \<Rightarrow> (Inl (BadRequestException e), dbCommit, svc)
      | (_, Inl e) \<Rightarrow> (Inl (BadRequestException e), dbCommit, svc)
      | (Inr tasks, Inr workers) \<Rightarrow>
          if tasks = [] \<or> workers = [] then
            (Inr \<lparr> message = ''No tasks or workers found'',
                   totalTasks = length tasks,
                   allocated = 0,
                   allocationFailed = int (length tasks),
                   affectedWorkers = None, successRate = None, duration = None,
                   spatialIndexStats = None, avgDistance = None,
                   workerUtilization = None \<rparr>, dbCommit, svc)
          else
            (let idx = buildSpatialIndex workers;
                 stats = getStats idx;
                 svc1 = cacheWorkersWithSpatialIndex now workers svc;
                 svc2 = cacheSpatialIndexStats stats now svc1;
                 svc3 = snd (syncCacheWithVersion ''workers:spatial_index''
                               (DocUsers workers) (real_of_int now) svc2);
                 counts = getWorkerTaskCountsBatch db (map id_user workers);
                 proposed = proposeAllocations idx counts tasks;
                 allocations = fst proposed
             in if 0 < length allocations then
                  (case bulkUpdateTaskAllocations now allocations dbCommit of
                     Inl e \<Rightarrow> (Inl (BadRequestException e), dbCommit, svc3)
                   | Inr (successfulIds, db') \<Rightarrow>
                       (case finishRun now finish tasks workers stats allocations
                               (reconcile allocations (snd proposed) counts successfulIds)
                               db' svc3 of
                          (result, svc4) \<Rightarrow> (Inr result, db', svc4)))
                else
                  (case finishRun now finish tasks workers stats allocations
                          \<lparr> successfulAllocations = [], allocatedCount = 0,
                            allocationFailedCount = snd proposed,
                            workerTaskCounts = counts, affectedWorkerSet = [] \<rparr>
                          dbCommit svc3 of
                     (result, svc4) \<Rightarrow> (Inr result, dbCommit, svc4))))"

section \<open>Vocabulary of the statements\<close>

text \<open>The point that \<open>indexWorker\<close> stores for a worker whose coordinates are truthy.\<close>

definition toPoint :: "User \<Rightarrow> SpatialPoint" where
  "toPoint w = \<lparr> id_point = id_user w, lat_point = the (lat_user w),
                 lon_point = the (lon_user w), data = w \<rparr>"

text \<open>
  A sequence of wrapped cache operations: each call is the clock on entry, the clock at
  a failure, and the operation.
\<close>

fun executeAll ::
  "(int \<times> int \<times> (Redis \<Rightarrow> (error + 'a) \<times> Redis)) list \<Rightarrow> RedisCacheService \<Rightarrow> RedisCacheService" where
  "executeAll [] svc = svc"
| "executeAll ((now, failTime, operation) # rest) svc =
     executeAll rest (snd (executeWithCircuitBreaker now failTime operation svc))"

text \<open>
  Whether each call of such a sequence threw: the operation failed, or the breaker was
  open and the call failed fast.
\<close>

fun executeOutcomes ::
  "(int \<times> int \<times> (Redis \<Rightarrow> (error + 'a) \<times> Redis)) list \<Rightarrow> RedisCacheService \<Rightarrow> bool list" where
  "executeOutcomes [] svc = []"
| "executeOutcomes ((now, failTime, operation) # rest) svc =
     isl (fst (executeWithCircuitBreaker now failTime operation svc))
     # executeOutcomes rest (snd (executeWithCircuitBreaker now failTime operation svc))"

text \<open>Time passing at the cache store.\<close>

definition elapse :: "nat \<Rightarrow> RedisCacheService \<Rightarrow> RedisCacheService" where
  "elapse ms svc = svc\<lparr> redis := (redis svc)\<lparr> clock := clock (redis svc) + int ms \<rparr> \<rparr>"

text \<open>
  A history of a cache: versioned writes through \<open>syncCacheWithVersion\<close> or through
  \<open>updateCacheWithVersion\<close>, with time passing in between. \<open>elapsed\<close> is the time
  that passes over a history. A write is plain for a key when its version is not
  negative and below \<open>10^21\<close>, and it does not use the version entry of the key as its
  own key.
\<close>

datatype event = Sync string doc real | Update string doc real | Elapse nat


fun elapsed :: "event list \<Rightarrow> nat" where
  "elapsed [] = 0"
| "elapsed (Elapse ms # rest) = ms + elapsed rest"
| "elapsed (e # rest) = elapsed rest"


text \<open>
  The cache after the two \<open>SETEX\<close> commands of an accepted versioned write: the value
  and the version, each with a time to live of \<open>300\<close> seconds.
\<close>

definition written :: "string \<Rightarrow> doc \<Rightarrow> real \<Rightarrow> RedisCacheService \<Rightarrow> RedisCacheService" where
  "written key payload version svc =
     svc\<lparr> redis := (redis svc)\<lparr> entries :=
       AList.update (key @ '':version'')
         (DocVersion version, Some (clock (redis svc) + 300000))
         (AList.update key (payload, Some (clock (redis svc) + 300000))
            (entries (redis svc))) \<rparr> \<rparr>"

text \<open>A candidate is eligible when its load is below the cap.\<close>

definition eligible :: "(string \<rightharpoonup> nat) \<Rightarrow> WorkerPoint \<Rightarrow> bool" where
  "eligible counts wp = (countOf counts (id_user (data_wp wp)) < MAX_TASKS_PER_WORKER)"

text \<open>
  The score of a candidate for a task: \<open>max(0, 100 - distanceKm / 10)
  + (1 - currentLoad / maxLoad) * 50\<close> with the cap of \<open>50\<close> as \<open>maxLoad\<close>, every
  operation rounded to a double.
\<close>

definition scoreOf :: "(string \<rightharpoonup> nat) \<Rightarrow> Task \<Rightarrow> WorkerPoint \<Rightarrow> real" where
  "scoreOf counts task wp =
     toDouble
       ((case workerDistance wp task of
           Num d \<Rightarrow> max 0 (toDouble (100 - toDouble (d / 10)))
         | Infinity \<Rightarrow> 0)
        + toDouble (toDouble (1 - toDouble (real (countOf counts (id_user (data_wp wp)))
                                            / real MAX_TASKS_PER_WORKER))
                    * 50))"


text \<open>A worker is stored under a grid key when its coordinates are truthy and fall in that cell.\<close>

definition indexed :: "GridKey \<Rightarrow> User \<Rightarrow> bool" where
  "indexed key w = (truthy (lat_user w) \<and> truthy (lon_user w)
                     \<and> getGridKey (the (lat_user w)) (the (lon_user w)) = key)"

section \<open>Example data\<close>

text \<open>Concrete workers, candidates, tasks and stores at which the results are evaluated.\<close>

definition exampleUser :: "string \<Rightarrow> User" where
  "exampleUser wid = \<lparr> id_user = wid, lat_user = Some (2381 / 100),
       lon_user = Some (90412 / 1000), role = ''WORKER'', active = True \<rparr>"

definition exampleCandidates :: "WorkerPoint list" where
  "exampleCandidates =
     [\<lparr> data_wp = exampleUser ''full'', distance_wp = Some (Num 0) \<rparr>,
      \<lparr> data_wp = exampleUser ''far'', distance_wp = Some (Num 20) \<rparr>,
      \<lparr> data_wp = exampleUser ''near'', distance_wp = Some (Num 5) \<rparr>,
      \<lparr> data_wp = exampleUser ''tie'', distance_wp = Some (Num 5) \<rparr>]"

definition exampleCounts :: "string \<rightharpoonup> nat" where
  "exampleCounts = [''full'' \<mapsto> 50, ''far'' \<mapsto> 0, ''near'' \<mapsto> 0, ''tie'' \<mapsto> 0]"

definition exampleTask :: "string \<Rightarrow> TaskStatus \<Rightarrow> string option \<Rightarrow> Task" where
  "exampleTask tid st owner = \<lparr> id_task = tid, lat_task = Some (2381 / 100),
       lon_task = Some (90412 / 1000), status = st, assignedUserId = owner,
       assignedAt = None, geocodePending = False, createdAt = 0 \<rparr>"



definition exampleCache :: "bool \<Rightarrow> RedisCacheService" where
  "exampleCache reachable =
     \<lparr> redis = \<lparr> up = reachable, clock = 0, entries = [] \<rparr>,
       circuitBreaker = initialCircuitBreaker \<rparr>"

definition exampleCalls :: "(int \<times> int \<times> (Redis \<Rightarrow> (error + doc option) \<times> Redis)) list" where
  "exampleCalls =
     [(1000, 1001, redisGet ''worker:summary:w1''),
      (2000, 2001, redisGet ''worker:summary:w1''),
      (3000, 3001, redisGet ''worker:summary:w1''),
      (4000, 4001, redisGet ''worker:summary:w1''),
      (5000, 5001, redisGet ''worker:summary:w1'')]"

definition exampleOpened :: "bool \<Rightarrow> RedisCacheService" where
  "exampleOpened reachable =
     \<lparr> redis = \<lparr> up = reachable, clock = 0, entries = [] \<rparr>,
       circuitBreaker = \<lparr> failures = 5, lastFailure = 6000, state = OPEN,
                          failureThreshold = 5, recoveryTimeout = 60000 \<rparr> \<rparr>"






definition busyTask :: "nat \<Rightarrow> Task" where
  "busyTask n = \<lparr> id_task = ''busy'' @ replicate n CHR ''x'', lat_task = Some (2381 / 100),
       lon_task = Some (90412 / 1000), status = assigned, assignedUserId = Some ''w1'',
       assignedAt = Some 0, geocodePending = False, createdAt = 0 \<rparr>"

definition crowdedStore :: Store where
  "crowdedStore =
     \<lparr> online = True,
       taskRows = map busyTask [0..<49]
                  @ [exampleTask ''t1'' unassigned None, exampleTask ''t2'' unassigned None],
       userRows = [exampleUser ''w1''] \<rparr>"

definition northWorker :: User where
  "northWorker = \<lparr> id_user = ''w2'', lat_user = Some (2385 / 100),
       lon_user = Some (90412 / 1000), role = ''WORKER'', active = True \<rparr>"

definition farNorthWorker :: User where
  "farNorthWorker = \<lparr> id_user = ''w3'', lat_user = Some (2411 / 100),
       lon_user = Some (90412 / 1000), role = ''WORKER'', active = True \<rparr>"

text \<open>
  Candidates as the allocation run passes them, without a distance: a worker at the
  cap, a worker \<open>0.30\<close> degrees north of the example task and a worker \<open>0.04\<close>
  degrees north of it.
\<close>

definition onDemandCandidates :: "WorkerPoint list" where
  "onDemandCandidates =
     [\<lparr> data_wp = exampleUser ''full'', distance_wp = None \<rparr>,
      \<lparr> data_wp = farNorthWorker, distance_wp = None \<rparr>,
      \<lparr> data_wp = northWorker, distance_wp = None \<rparr>]"

text \<open>
  Two candidates whose scores differ as real numbers and are the same double: at the
  distance \<open>2^-50\<close> km the term \<open>100 - distanceKm / 10\<close> rounds to \<open>100\<close>.
\<close>

definition roundingCandidates :: "WorkerPoint list" where
  "roundingCandidates =
     [\<lparr> data_wp = exampleUser ''a'', distance_wp = Some (Num (1 / 2 ^ 50)) \<rparr>,
      \<lparr> data_wp = exampleUser ''b'', distance_wp = Some (Num 0) \<rparr>]"

definition raceStoreRead :: Store where
  "raceStoreRead =
     \<lparr> online = True, taskRows = [exampleTask ''t1'' unassigned None],
       userRows = [northWorker] \<rparr>"

definition raceStoreCommit :: Store where
  "raceStoreCommit =
     \<lparr> online = True, taskRows = [exampleTask ''t1'' assigned (Some ''w9'')],
       userRows = [northWorker] \<rparr>"

definition worker60 :: User where
  "worker60 = \<lparr> id_user = ''w60'', lat_user = Some 60, lon_user = Some (115 / 1000),
       role = ''WORKER'', active = True \<rparr>"

definition zeroWorker :: User where
  "zeroWorker = \<lparr> id_user = ''w0'', lat_user = Some 0, lon_user = Some (90412 / 1000),
       role = ''WORKER'', active = True \<rparr>"

definition zeroTask :: Task where
  "zeroTask = \<lparr> id_task = ''t0'', lat_task = Some (2381 / 100), lon_task = Some 0,
       status = unassigned, assignedUserId = None, assignedAt = None,
       geocodePending = False, createdAt = 0 \<rparr>"

section \<open>Lemmas\<close>

lemma roundHalfEven_of_int: "roundHalfEven (of_int k) = k"
  by (simp add: roundHalfEven_def)

lemma roundHalfEven_bounds: "\<lfloor>y\<rfloor> \<le> roundHalfEven y \<and> roundHalfEven y \<le> \<lfloor>y\<rfloor> + 1"
  by (simp add: roundHalfEven_def Let_def)

lemma roundHalfEven_le: "y \<le> of_int k \<Longrightarrow> roundHalfEven y \<le> k"
proof -
  assume a: "y \<le> of_int k"
  show ?thesis
  proof (cases "y = of_int k")
    case True then show ?thesis by (simp add: roundHalfEven_of_int)
  next
    case False
    with a have "y < of_int k" by simp
    hence "\<lfloor>y\<rfloor> < k" by (simp add: floor_less_iff)
    thus ?thesis using roundHalfEven_bounds [of y] by linarith
  qed
qed

lemma roundHalfEven_ge: "of_int k \<le> y \<Longrightarrow> k \<le> roundHalfEven y"
proof -
  assume "of_int k \<le> y"
  hence "k \<le> \<lfloor>y\<rfloor>" by (simp add: le_floor_iff)
  thus ?thesis using roundHalfEven_bounds [of y] by linarith
qed

lemma roundHalfEven_near: "\<bar>real_of_int (roundHalfEven y) - y\<bar> \<le> 1 / 2"
  unfolding roundHalfEven_def Let_def by (auto; linarith)

lemma roundHalfEven_close: "\<bar>y - of_int k\<bar> < 1 / 2 \<Longrightarrow> roundHalfEven y = k"
proof -
  assume a: "\<bar>y - of_int k\<bar> < 1 / 2"
  have "\<bar>real_of_int (roundHalfEven y) - real_of_int k\<bar> < 1"
    using roundHalfEven_near [of y] a by linarith
  hence "\<bar>real_of_int (roundHalfEven y - k)\<bar> < 1" by simp
  hence "\<bar>roundHalfEven y - k\<bar> < 1" by linarith
  thus ?thesis by linarith
qed

lemma ulp_pos: "0 < ulp x"
  by (simp add: ulp_def)

lemma toDouble_nonneg: "0 \<le> x \<Longrightarrow> 0 \<le> toDouble x"
proof -
  assume a: "0 \<le> x"
  have "0 \<le> x / ulp x" using a ulp_pos [of x] by simp
  hence "0 \<le> roundHalfEven (x / ulp x)" using roundHalfEven_ge [of 0 "x / ulp x"] by simp
  thus ?thesis using ulp_pos [of x] by (simp add: toDouble_def)
qed

lemma toDouble_le: 
  assumes "x \<le> of_int k * ulp x"
  shows "toDouble x \<le> of_int k * ulp x"
proof (cases "x = 0")
  case True
  then show ?thesis using assms by (simp add: toDouble_def)
next
  case False
  have "x / ulp x \<le> of_int k" using assms ulp_pos [of x] by (simp add: pos_divide_le_eq)
  hence "roundHalfEven (x / ulp x) \<le> k" by (rule roundHalfEven_le)
  hence "real_of_int (roundHalfEven (x / ulp x)) \<le> of_int k" by simp
  hence "real_of_int (roundHalfEven (x / ulp x)) * ulp x \<le> of_int k * ulp x"
    using ulp_pos [of x] by (simp add: mult_right_mono)
  thus ?thesis using False by (simp add: toDouble_def)
qed

lemma toDouble_ge: 
  assumes "of_int k * ulp x \<le> x"
  shows "of_int k * ulp x \<le> toDouble x"
proof (cases "x = 0")
  case True
  then show ?thesis using assms by (simp add: toDouble_def)
next
  case False
  have "of_int k \<le> x / ulp x" using assms ulp_pos [of x] by (simp add: pos_le_divide_eq)
  hence "k \<le> roundHalfEven (x / ulp x)" by (rule roundHalfEven_ge)
  hence "real_of_int k \<le> of_int (roundHalfEven (x / ulp x))" by simp
  hence "of_int k * ulp x \<le> real_of_int (roundHalfEven (x / ulp x)) * ulp x"
    using ulp_pos [of x] by (simp add: mult_right_mono)
  thus ?thesis using False by (simp add: toDouble_def)
qed

lemma toDouble_near: "\<bar>toDouble x - x\<bar> \<le> ulp x / 2"
proof (cases "x = 0")
  case True
  then show ?thesis using ulp_pos [of 0] by (simp add: toDouble_def)
next
  case False
  have "\<bar>real_of_int (roundHalfEven (x / ulp x)) - x / ulp x\<bar> * ulp x \<le> (1 / 2) * ulp x"
    using roundHalfEven_near [of "x / ulp x"] ulp_pos [of x] by (simp add: mult_right_mono)
  moreover have "\<bar>real_of_int (roundHalfEven (x / ulp x)) - x / ulp x\<bar> * ulp x
      = \<bar>real_of_int (roundHalfEven (x / ulp x)) * ulp x - x\<bar>"
  proof -
    have "(real_of_int (roundHalfEven (x / ulp x)) - x / ulp x) * ulp x
        = real_of_int (roundHalfEven (x / ulp x)) * ulp x - x"
      using ulp_pos [of x] by (simp add: left_diff_distrib)
    moreover have "\<bar>real_of_int (roundHalfEven (x / ulp x)) - x / ulp x\<bar> * ulp x
        = \<bar>(real_of_int (roundHalfEven (x / ulp x)) - x / ulp x) * ulp x\<bar>"
      using ulp_pos [of x] by (simp add: abs_mult)
    ultimately show ?thesis by simp
  qed
  ultimately show ?thesis using False by (simp add: toDouble_def)
qed

lemma binade_le_0: "0 < x \<Longrightarrow> x \<le> 1 \<Longrightarrow> binade x \<le> 0"
proof -
  assume a: "0 < x" "x \<le> 1"
  have "log 2 x \<le> 0" using a by simp
  hence "\<lfloor>log 2 x\<rfloor> \<le> 0" by (simp add: floor_le_iff)
  thus ?thesis using a by (simp add: binade_def)
qed

lemma toDouble_le_one: "0 \<le> x \<Longrightarrow> x \<le> 1 \<Longrightarrow> toDouble x \<le> 1"
proof -
  assume a: "0 \<le> x" "x \<le> 1"
  show ?thesis
  proof (cases "x = 0")
    case True then show ?thesis by (simp add: toDouble_def)
  next
    case False
    with a have pos: "0 < x" by simp
    define n where "n = nat (52 - binade x)"
    have b: "binade x \<le> 0" using binade_le_0 [OF pos a(2)] .
    have "real_of_int (52 - binade x) = real n" using b by (simp add: n_def)
    hence "real_of_int (binade x - 52) = - real n" by simp
    hence u: "ulp x = 2 powr (- real n)" unfolding ulp_def by (rule arg_cong)
    have "2 powr (- real n) = 1 / 2 ^ n" by (simp add: powr_minus powr_realpow inverse_eq_divide)
    hence one: "of_int (2 ^ n) * ulp x = 1" using u by simp
    have "toDouble x \<le> of_int (2 ^ n) * ulp x"
      by (rule toDouble_le) (simp only: one a)
    thus ?thesis by (simp only: one)
  qed
qed


lemma binade_eq:
  assumes "2 powr real_of_int k \<le> \<bar>x\<bar>" and "\<bar>x\<bar> < 2 powr real_of_int (k + 1)" and "- 1022 \<le> k"
  shows "binade x = k"
proof -
  have pos: "0 < \<bar>x\<bar>" using assms(1) powr_gt_zero [of 2 "real_of_int k"] by linarith
  have "\<lfloor>log 2 \<bar>x\<bar>\<rfloor> = k"
    using floor_log_eq_powr_iff [of "\<bar>x\<bar>" 2 k] pos assms(1,2) by simp
  thus ?thesis using assms(3) by (simp add: binade_def)
qed

lemma binade_upper:
  assumes "x \<noteq> 0" and "\<bar>x\<bar> < 2 powr real_of_int j" and "- 1021 \<le> j"
  shows "binade x < j"
proof -
  have pos: "0 < \<bar>x\<bar>" using assms(1) by simp
  have "log 2 \<bar>x\<bar> < real_of_int j"
    using assms(2) pos by (simp add: log_less_iff)
  hence "\<lfloor>log 2 \<bar>x\<bar>\<rfloor> < j" by (simp add: floor_less_iff)
  thus ?thesis using assms(3) by (simp add: binade_def)
qed

lemma toDouble_exact:
  assumes x: "x = real_of_int m * 2 powr real_of_int k"
    and m: "\<bar>m\<bar> < 2 ^ 53" and k: "- 1074 \<le> k"
  shows "toDouble x = x"
proof (cases "x = 0")
  case True
  then show ?thesis by (simp add: toDouble_def)
next
  case False
  have "\<bar>x\<bar> = real_of_int \<bar>m\<bar> * 2 powr real_of_int k"
    unfolding x by (simp add: abs_mult)
  also have "\<dots> < 2 ^ 53 * 2 powr real_of_int k"
  proof -
    have "real_of_int \<bar>m\<bar> < real_of_int (2 ^ 53)" using m by (simp only: of_int_less_iff)
    hence "real_of_int \<bar>m\<bar> < 2 ^ 53" by simp
    thus ?thesis by (simp add: mult_strict_right_mono)
  qed
  also have "\<dots> = 2 powr real_of_int (k + 53)"
    by (simp add: powr_add powr_realpow [symmetric])
  finally have "\<bar>x\<bar> < 2 powr real_of_int (k + 53)" .
  hence "binade x < k + 53" using False k by (intro binade_upper) simp_all
  hence d: "0 \<le> k - (binade x - 52)" by simp
  define n where "n = nat (k - (binade x - 52))"
  have "real_of_int k = real_of_int (binade x - 52) + real n" using d by (simp add: n_def)
  hence pk: "2 powr real_of_int k = ulp x * 2 ^ n"
    by (simp add: ulp_def powr_add powr_realpow)
  have "real_of_int m * 2 powr real_of_int k = real_of_int m * (ulp x * 2 ^ n)"
    by (simp only: pk)
  with x have "x = real_of_int m * (ulp x * 2 ^ n)" by (rule trans)
  also have "\<dots> = real_of_int (m * 2 ^ n) * ulp x" by simp
  finally have "x = real_of_int (m * 2 ^ n) * ulp x" .
  hence "x / ulp x = real_of_int (m * 2 ^ n)" using ulp_pos [of x] by (simp add: field_simps)
  hence "roundHalfEven (x / ulp x) = m * 2 ^ n" by (simp only: roundHalfEven_of_int)
  hence "toDouble x = real_of_int (m * 2 ^ n) * ulp x" using False by (simp add: toDouble_def)
  also have "\<dots> = x" using \<open>x = real_of_int (m * 2 ^ n) * ulp x\<close> by simp
  finally show ?thesis .
qed

lemma toDouble_of_int: "\<bar>m\<bar> < 2 ^ 53 \<Longrightarrow> toDouble (real_of_int m) = real_of_int m"
  using toDouble_exact [of "real_of_int m" m 0] by simp

lemma toDouble_half: "\<bar>m\<bar> < 2 ^ 53 \<Longrightarrow> toDouble (real_of_int m / 2) = real_of_int m / 2"
  using toDouble_exact [of "real_of_int m / 2" m "- 1"] by (simp add: powr_minus inverse_eq_divide)

lemma toDouble_examples:
  "toDouble 0 = 0" "toDouble 1 = 1" "toDouble 2 = 2" "toDouble 50 = 50" "toDouble 98 = 98" "toDouble 100 = 100"
  "toDouble 148 = 148" "toDouble 150 = 150" "toDouble (1 / 2) = 1 / 2" "toDouble (199 / 2) = 199 / 2"
  "toDouble (299 / 2) = 299 / 2"
  using toDouble_of_int [of 0] toDouble_of_int [of 1] toDouble_of_int [of 2] toDouble_of_int [of 50]
    toDouble_of_int [of 98] toDouble_of_int [of 100] toDouble_of_int [of 148] toDouble_of_int [of 150]
    toDouble_half [of 1] toDouble_half [of 199] toDouble_half [of 299]
  by simp_all

lemma toDouble_small_error: "0 < x \<Longrightarrow> x \<le> 1 \<Longrightarrow> \<bar>toDouble x - x\<bar> \<le> 1 / 2 ^ 53"
proof -
  assume a: "0 < x" "x \<le> 1"
  have "binade x \<le> 0" using binade_le_0 [OF a] .
  hence "real_of_int (binade x - 52) \<le> - 52" by simp
  hence "ulp x \<le> 2 powr (- 52)" unfolding ulp_def by (simp only: powr_le_cancel_iff) 
  also have "\<dots> = 1 / 2 ^ 52" by (simp add: powr_minus inverse_eq_divide)
  finally have "ulp x / 2 \<le> 1 / 2 ^ 53" by simp
  thus ?thesis using toDouble_near [of x] by linarith
qed

lemma toDouble_absorbed:
  assumes "0 \<le> q" and "q < 1 / 2 ^ 47"
  shows "toDouble (100 - q) = 100"
proof -
  define x where "x = 100 - q"
  have q1: "q < 1" using assms(2) by (simp add: field_simps) 
  have b: "binade x = 6"
    by (rule binade_eq) (use assms(1) q1 in \<open>simp_all add: x_def\<close>)
  have u: "ulp x = 1 / 2 ^ 46" by (simp add: ulp_def b powr_minus inverse_eq_divide)
  have "x / ulp x - real_of_int (100 * 2 ^ 46) = - (q * 2 ^ 46)"
    by (simp only: u) (simp add: x_def algebra_simps)
  moreover have "q * 2 ^ 46 < 1 / 2" using assms(2) by (simp add: field_simps)
  ultimately have "\<bar>x / ulp x - real_of_int (100 * 2 ^ 46)\<bar> < 1 / 2" using assms(1) by simp
  hence "roundHalfEven (x / ulp x) = 100 * 2 ^ 46" by (rule roundHalfEven_close)
  moreover have "x \<noteq> 0" using q1 by (simp add: x_def)
  ultimately show ?thesis unfolding x_def [symmetric] by (simp add: toDouble_def u)
qed

lemma score_cap:
  "calculateWorkerScore (workerDistance wp task) (countOf counts (id_user (data_wp wp)))
     MAX_TASKS_PER_WORKER = Score (scoreOf counts task wp)"
  by (simp add: calculateWorkerScore_def scoreOf_def MAX_TASKS_PER_WORKER_def Let_def)

lemma score_nonneg:
  "eligible counts wp \<Longrightarrow> 0 \<le> scoreOf counts task wp"
proof -
  assume "eligible counts wp"
  hence c: "countOf counts (id_user (data_wp wp)) < 50"
    by (simp add: eligible_def MAX_TASKS_PER_WORKER_def)
  define q where "q = real (countOf counts (id_user (data_wp wp))) / real MAX_TASKS_PER_WORKER"
  have q: "0 \<le> q" "q \<le> 1" using c by (simp_all add: q_def MAX_TASKS_PER_WORKER_def)
  have "0 \<le> toDouble q" "toDouble q \<le> 1"
    using q by (simp_all add: toDouble_nonneg toDouble_le_one)
  hence "0 \<le> toDouble (1 - toDouble q)" by (simp add: toDouble_nonneg)
  hence l: "0 \<le> toDouble (toDouble (1 - toDouble q) * 50)" by (simp add: toDouble_nonneg)
  have d: "0 \<le> (case workerDistance wp task of
                   Num x \<Rightarrow> max 0 (toDouble (100 - toDouble (x / 10)))
                 | Infinity \<Rightarrow> 0)"
    by (cases "workerDistance wp task") simp_all
  show ?thesis
    unfolding scoreOf_def q_def [symmetric] using d l by (intro toDouble_nonneg) linarith
qed

lemma selectStep_ineligible:
  "\<not> eligible counts wp \<Longrightarrow> selectStep counts task b wp = b"
  by (simp add: selectStep_def eligible_def Let_def)

lemma selectStep_eligible:
  "eligible counts wp \<Longrightarrow>
   selectStep counts task b wp =
     (if bestScore b < scoreOf counts task wp
      then \<lparr> bestWorker = Some (data_wp wp), bestScore = scoreOf counts task wp,
             bestDistance = workerDistance wp task \<rparr>
      else b)"
  by (simp add: selectStep_def eligible_def score_cap Let_def)

lemma foldl_select_filter:
  "foldl (selectStep counts task) b xs
     = foldl (selectStep counts task) b (filter (eligible counts) xs)"
  by (induction xs arbitrary: b) (simp_all add: selectStep_ineligible)

lemma foldl_select_eligible:
  assumes "xs \<noteq> []" and "\<forall>x \<in> set xs. eligible counts x"
  shows "\<exists>i < length xs.
           foldl (selectStep counts task)
                 \<lparr> bestWorker = None, bestScore = - 1, bestDistance = Infinity \<rparr> xs
             = \<lparr> bestWorker = Some (data_wp (xs ! i)), bestScore = scoreOf counts task (xs ! i),
                 bestDistance = workerDistance (xs ! i) task \<rparr>
           \<and> (\<forall>j < length xs. scoreOf counts task (xs ! j) \<le> scoreOf counts task (xs ! i))
           \<and> (\<forall>j < i. scoreOf counts task (xs ! j) < scoreOf counts task (xs ! i))"
  using assms
proof (induction xs rule: rev_nonempty_induct)
  case (single x)
  then have e: "eligible counts x" by simp
  then have "0 \<le> scoreOf counts task x" by (rule score_nonneg)
  then show ?case using e by (simp add: selectStep_eligible)
next
  case (snoc x xs)
  let ?b0 = "\<lparr> bestWorker = None, bestScore = - 1, bestDistance = Infinity \<rparr>"
  from snoc have e: "eligible counts x" and all: "\<forall>y \<in> set xs. eligible counts y" by simp_all
  from snoc.IH [OF all] obtain i where i: "i < length xs"
    and f: "foldl (selectStep counts task) ?b0 xs
             = \<lparr> bestWorker = Some (data_wp (xs ! i)), bestScore = scoreOf counts task (xs ! i),
                 bestDistance = workerDistance (xs ! i) task \<rparr>"
    and mx: "\<forall>j < length xs. scoreOf counts task (xs ! j) \<le> scoreOf counts task (xs ! i)"
    and fst: "\<forall>j < i. scoreOf counts task (xs ! j) < scoreOf counts task (xs ! i)"
    by blast
  show ?case
  proof (cases "scoreOf counts task (xs ! i) < scoreOf counts task x")
    case True
    have "foldl (selectStep counts task) ?b0 (xs @ [x])
            = \<lparr> bestWorker = Some (data_wp x), bestScore = scoreOf counts task x,
                bestDistance = workerDistance x task \<rparr>"
      using True e f by (simp add: selectStep_eligible)
    moreover have "\<forall>j < length (xs @ [x]).
        scoreOf counts task ((xs @ [x]) ! j) \<le> scoreOf counts task x"
    proof (intro allI impI)
      fix j assume "j < length (xs @ [x])"
      then consider "j < length xs" | "j = length xs" by fastforce
      then show "scoreOf counts task ((xs @ [x]) ! j) \<le> scoreOf counts task x"
      proof cases
        case 1
        with mx have "scoreOf counts task (xs ! j) \<le> scoreOf counts task (xs ! i)" by blast
        with True 1 show ?thesis by (simp add: nth_append)
      next
        case 2
        then show ?thesis by simp
      qed
    qed
    moreover have "\<forall>j < length xs.
        scoreOf counts task ((xs @ [x]) ! j) < scoreOf counts task x"
    proof (intro allI impI)
      fix j assume j: "j < length xs"
      with mx have "scoreOf counts task (xs ! j) \<le> scoreOf counts task (xs ! i)" by blast
      with True j show "scoreOf counts task ((xs @ [x]) ! j) < scoreOf counts task x"
        by (simp add: nth_append)
    qed
    ultimately show ?thesis
      by (intro exI [of _ "length xs"]) (simp add: nth_append)
  next
    case False
    have "foldl (selectStep counts task) ?b0 (xs @ [x])
            = \<lparr> bestWorker = Some (data_wp (xs ! i)), bestScore = scoreOf counts task (xs ! i),
                bestDistance = workerDistance (xs ! i) task \<rparr>"
      using False e f by (simp add: selectStep_eligible)
    moreover have "\<forall>j < length (xs @ [x]).
        scoreOf counts task ((xs @ [x]) ! j) \<le> scoreOf counts task (xs ! i)"
    proof (intro allI impI)
      fix j assume "j < length (xs @ [x])"
      then consider "j < length xs" | "j = length xs" by fastforce
      then show "scoreOf counts task ((xs @ [x]) ! j) \<le> scoreOf counts task (xs ! i)"
      proof cases
        case 1
        with mx show ?thesis by (simp add: nth_append)
      next
        case 2
        with False show ?thesis by simp
      qed
    qed
    ultimately show ?thesis
      using i fst by (intro exI [of _ i]) (auto simp: nth_append)
  qed
qed







lemma breaker_closed_below:
  assumes "state (circuitBreaker svc) = CLOSED"
    and "failures (circuitBreaker svc) < failureThreshold (circuitBreaker svc)"
  shows "executeWithCircuitBreaker now ft operation svc =
     (case operation (redis svc) of
        (Inr result, r') \<Rightarrow>
          (Inr result, \<lparr> redis = r', circuitBreaker = (circuitBreaker svc)\<lparr> failures := 0 \<rparr> \<rparr>)
      | (Inl e, r') \<Rightarrow>
          (Inl e, \<lparr> redis = r',
                    circuitBreaker = (circuitBreaker svc)\<lparr> failures := failures (circuitBreaker svc) + 1,
                                                          lastFailure := ft \<rparr> \<rparr>))"
  using assms
  by (simp add: executeWithCircuitBreaker_def Let_def onCircuitBreakerSuccess_def
      onCircuitBreakerFailure_def split: prod.splits sum.splits)

lemma breaker_trips:
  assumes "state (circuitBreaker svc) = CLOSED"
    and "failureThreshold (circuitBreaker svc) \<le> failures (circuitBreaker svc)"
    and "0 \<le> recoveryTimeout (circuitBreaker svc)"
  shows "executeWithCircuitBreaker now ft operation svc =
     (Inl CircuitOpen,
      svc\<lparr> circuitBreaker := (circuitBreaker svc)\<lparr> state := OPEN, lastFailure := now \<rparr> \<rparr>)"
  using assms by (simp add: executeWithCircuitBreaker_def Let_def)

lemma breaker_open_fast:
  assumes "state (circuitBreaker svc) = OPEN"
    and "now - lastFailure (circuitBreaker svc) \<le> recoveryTimeout (circuitBreaker svc)"
  shows "executeWithCircuitBreaker now ft operation svc = (Inl CircuitOpen, svc)"
  using assms by (simp add: executeWithCircuitBreaker_def Let_def)

lemma breaker_leaves_open:
  assumes "state (circuitBreaker svc) = OPEN"
    and "state (circuitBreaker (snd (executeWithCircuitBreaker now ft operation svc))) \<noteq> OPEN"
  shows "recoveryTimeout (circuitBreaker svc) < now - lastFailure (circuitBreaker svc)"
  using assms
  by (auto simp: executeWithCircuitBreaker_def Let_def split: if_splits)

lemma breaker_half_open:
  assumes "state (circuitBreaker svc) = HALF_OPEN
           \<or> (state (circuitBreaker svc) = OPEN
               \<and> recoveryTimeout (circuitBreaker svc) < now - lastFailure (circuitBreaker svc))"
  shows "executeWithCircuitBreaker now ft operation svc =
     (case operation (redis svc) of
        (Inr result, r') \<Rightarrow>
          (Inr result, \<lparr> redis = r',
                         circuitBreaker = (circuitBreaker svc)\<lparr> failures := 0, state := CLOSED \<rparr> \<rparr>)
      | (Inl e, r') \<Rightarrow>
          (Inl e, \<lparr> redis = r',
                    circuitBreaker = (circuitBreaker svc)\<lparr> failures := failures (circuitBreaker svc) + 1,
                                                          lastFailure := ft, state := HALF_OPEN \<rparr> \<rparr>))"
  using assms
  by (auto simp: executeWithCircuitBreaker_def Let_def onCircuitBreakerSuccess_def
      onCircuitBreakerFailure_def split: prod.splits sum.splits)

lemma breaker_success:
  assumes "fst (executeWithCircuitBreaker now ft operation svc) = Inr result"
  shows "failures (circuitBreaker (snd (executeWithCircuitBreaker now ft operation svc))) = 0
       \<and> state (circuitBreaker (snd (executeWithCircuitBreaker now ft operation svc))) = CLOSED
       \<and> operation (redis svc) = (Inr result, redis (snd (executeWithCircuitBreaker now ft operation svc)))"
  using assms
  by (auto simp: executeWithCircuitBreaker_def Let_def onCircuitBreakerSuccess_def
      onCircuitBreakerFailure_def split: prod.splits sum.splits if_splits BreakerState.splits)
    (metis BreakerState.exhaust)+

lemma executeAll_failures:
  assumes "state (circuitBreaker svc) = CLOSED"
    and "failures (circuitBreaker svc) + length calls \<le> failureThreshold (circuitBreaker svc)"
    and "\<forall>b \<in> set (executeOutcomes calls svc). b"
  shows "circuitBreaker (executeAll calls svc)
           = (circuitBreaker svc)\<lparr> failures := failures (circuitBreaker svc) + length calls,
                                    lastFailure := (if calls = [] then lastFailure (circuitBreaker svc)
                                                    else fst (snd (last calls))) \<rparr>"
  using assms
proof (induction calls arbitrary: svc)
  case Nil
  then show ?case by simp
next
  case (Cons c calls)
  obtain now ft operation where c: "c = (now, ft, operation)" by (cases c) auto
  from Cons.prems have below: "failures (circuitBreaker svc) < failureThreshold (circuitBreaker svc)"
    by simp
  let ?svc1 = "snd (executeWithCircuitBreaker now ft operation svc)"
  from Cons.prems(3) c have threw: "isl (fst (executeWithCircuitBreaker now ft operation svc))"
    and rest: "\<forall>b \<in> set (executeOutcomes calls ?svc1). b" by auto
  from threw have fails: "isl (fst (operation (redis svc)))"
    by (cases "operation (redis svc)")
       (auto simp: breaker_closed_below [OF Cons.prems(1) below] split: sum.splits)
  have cb1: "circuitBreaker ?svc1
      = (circuitBreaker svc)\<lparr> failures := failures (circuitBreaker svc) + 1, lastFailure := ft \<rparr>"
    using fails
    by (cases "operation (redis svc)")
       (auto simp: breaker_closed_below [OF Cons.prems(1) below] split: sum.splits)
  have "circuitBreaker (executeAll calls ?svc1)
      = (circuitBreaker ?svc1)\<lparr> failures := failures (circuitBreaker ?svc1) + length calls,
           lastFailure := (if calls = [] then lastFailure (circuitBreaker ?svc1)
                           else fst (snd (last calls))) \<rparr>"
    using Cons.prems(1,2) rest by (intro Cons.IH) (simp_all add: cb1)
  then show ?case by (simp add: c cb1)
qed



lemma storedVersion_read:
  "storedVersion key svc =
     (if up (redis svc)
      then (case lookupLive (redis svc) (key @ '':version'') of
              Some (DocVersion v) \<Rightarrow> parseIntOfNumber v | _ \<Rightarrow> 0)
      else 0)"
  by (simp add: storedVersion_def getCacheVersion_def redisGet_def split: option.splits doc.splits)








lemma version_key_neq: "key \<noteq> key @ '':version''"
  by simp

lemma version_key_inj: "k @ '':version'' = key @ '':version'' \<longleftrightarrow> k = key"
  by simp


lemma elapse_zero: "elapse 0 svc = svc"
  by (simp add: elapse_def)

lemma storedVersion_elapse:
  "storedVersion key (elapse d svc) = storedVersion key svc \<or> storedVersion key (elapse d svc) = 0"
  by (auto simp: storedVersion_read elapse_def lookupLive_def liveAt_def
      split: option.splits doc.splits if_splits)




lemma written_other_key:
  assumes "k \<noteq> key" and "k \<noteq> key @ '':version''"
  shows "storedVersion key (elapse d (written k payload version svc))
           = storedVersion key (elapse d svc)"
  using assms
  by (simp add: storedVersion_read elapse_def written_def lookupLive_def liveAt_def update_conv'
      split: option.splits)















lemma haversine_same: "haversineDistance lat lon lat lon = 0"
  by (simp add: haversineDistance_def atan2_def)

lemma haversine_meridian:
  assumes "lat1 \<le> lat2" and "lat2 - lat1 < 180"
  shows "haversineDistance lat1 lon lat2 lon = 6371 * ((lat2 - lat1) * pi / 180)"
proof -
  define x where "x = ((lat2 - lat1) * pi / 180) / 2"
  have x0: "0 \<le> x" using assms by (simp add: x_def)
  have "(lat2 - lat1) * pi < 180 * pi" using assms by simp
  then have x1: "x < pi / 2" by (simp add: x_def)
  have c: "0 < cos x" using x0 x1 by (intro cos_gt_zero_pi) linarith+
  have s: "0 \<le> sin x" using x0 x1 by (intro sin_ge_zero) linarith+
  have "1 - (sin x)\<^sup>2 = (cos x)\<^sup>2" by (simp add: cos_squared_eq)
  then have sq: "sqrt (1 - (sin x)\<^sup>2) = cos x" using c by simp
  have "atan2 (sqrt ((sin x)\<^sup>2)) (sqrt (1 - (sin x)\<^sup>2)) = arctan (sin x / cos x)"
    using c s by (simp add: atan2_def sq)
  also have "\<dots> = arctan (tan x)" by (simp add: tan_def)
  also have "\<dots> = x" using x0 x1 by (intro arctan_tan) linarith+
  finally have at: "atan2 (sqrt ((sin x)\<^sup>2)) (sqrt (1 - (sin x)\<^sup>2)) = x" .
  have "haversineDistance lat1 lon lat2 lon
          = 6371 * (2 * atan2 (sqrt ((sin x)\<^sup>2)) (sqrt (1 - (sin x)\<^sup>2)))"
    unfolding haversineDistance_def Let_def x_def by simp
  also have "\<dots> = 6371 * (2 * x)" unfolding at ..
  finally show ?thesis unfolding x_def by simp
qed

lemma haversine_parallel_60:
  assumes "lon1 \<le> lon2" and "lon2 - lon1 < 360"
  shows "haversineDistance 60 lon1 60 lon2 \<le> 6371 * ((lon2 - lon1) * pi / 360)"
proof -
  define th where "th = ((lon2 - lon1) * pi / 180) / 2"
  define s where "s = sin th / 2"
  have th0: "0 \<le> th" using assms by (simp add: th_def)
  have "(lon2 - lon1) * pi < 360 * pi" using assms by simp
  then have th1: "th < pi" by (simp add: th_def)
  have sin0: "0 \<le> sin th" using th0 th1 by (intro sin_ge_zero) linarith+
  have s0: "0 \<le> s" using sin0 by (simp add: s_def)
  have s1: "s < 1" using sin_le_one [of th] unfolding s_def by linarith
  have half0: "0 \<le> sin (th / 2)" using th0 th1 by (intro sin_ge_zero) linarith+
  have "sin th = 2 * sin (th / 2) * cos (th / 2)" using sin_double [of "th / 2"] by simp
  also have "\<dots> \<le> 2 * sin (th / 2) * 1"
    using half0 by (intro mult_left_mono) simp_all
  finally have sle: "s \<le> sin (th / 2)" by (simp add: s_def)
  have "(60::real) * pi / 180 = pi / 3" by simp
  then have c60: "cos ((60::real) * pi / 180) = 1 / 2" using cos_60 by presburger
  have a: "(sin (0::real))\<^sup>2 + cos (60 * pi / 180) * cos (60 * pi / 180) * (sin th)\<^sup>2 = s\<^sup>2"
    unfolding c60 s_def by (simp add: power2_eq_square)
  have sq: "sqrt (s\<^sup>2) = s" using s0 by simp
  have "s\<^sup>2 < 1" using s0 s1 by (simp add: power_less_one_iff)
  then have t: "0 < sqrt (1 - s\<^sup>2)" by simp
  have bnd: "- (pi / 2) < arcsin s \<and> arcsin s < pi / 2"
    using s0 s1 by (intro arcsin_lt_bounded) linarith+
  have "tan (arcsin s) = s / sqrt (1 - s\<^sup>2)"
    using s0 s1 by (simp add: tan_def cos_arcsin)
  then have "arctan (s / sqrt (1 - s\<^sup>2)) = arcsin s"
    using bnd by (intro arctan_unique) simp_all
  then have at: "atan2 (sqrt (s\<^sup>2)) (sqrt (1 - s\<^sup>2)) = arcsin s"
    unfolding sq using t by (simp add: atan2_def)
  have "arcsin s \<le> arcsin (sin (th / 2))"
    using s0 sle by (intro arcsin_le_arcsin) (simp_all add: order_trans [of "-1" 0])
  also have "\<dots> = th / 2" using th0 th1 by (intro arcsin_sin) linarith+
  finally have le: "arcsin s \<le> th / 2" .
  have "haversineDistance 60 lon1 60 lon2
          = 6371 * (2 * atan2 (sqrt (s\<^sup>2)) (sqrt (1 - s\<^sup>2)))"
    unfolding haversineDistance_def Let_def a [symmetric] th_def by simp
  also have "\<dots> = 6371 * (2 * arcsin s)" unfolding at ..
  also have "\<dots> \<le> 6371 * (2 * (th / 2))" using le by simp
  finally show ?thesis unfolding th_def by (simp add: mult.commute)
qed

lemma haversine_lat60_example: "haversineDistance 60 (5 / 1000) 60 (115 / 1000) \<le> 10"
proof -
  have "haversineDistance 60 (5 / 1000) 60 (115 / 1000)
          \<le> 6371 * ((115 / 1000 - 5 / 1000) * pi / 360)"
    by (rule haversine_parallel_60) simp_all
  also have "\<dots> \<le> 6371 * ((115 / 1000 - 5 / 1000) * 4 / 360)"
    using pi_less_4 by simp
  also have "\<dots> \<le> 10" by simp
  finally show ?thesis .
qed

lemma indexWorker_cell:
  "workersInCell (indexWorker idx w) key
     = workersInCell idx key @ (if indexed key w then [toPoint w] else [])"
  by (auto simp: indexWorker_def workersInCell_def indexed_def toPoint_def Let_def update_conv'
      split: option.splits)

lemma foldl_indexWorker_cell:
  "workersInCell (foldl indexWorker idx ws) key
     = workersInCell idx key @ map toPoint (filter (indexed key) ws)"
  by (induction ws arbitrary: idx) (simp_all add: indexWorker_cell)

lemma buildSpatialIndex_cell:
  "workersInCell (buildSpatialIndex ws) key = map toPoint (filter (indexed key) ws)"
proof -
  have "workersInCell [] key = []" by (simp add: workersInCell_def)
  then show ?thesis
    unfolding buildSpatialIndex_def foldl_indexWorker_cell by simp
qed

lemma findNearbyWorkers_set:
  "set (findNearbyWorkers idx lat lon r)
     = {p. \<exists>cell \<in> set (getSearchCells lat lon (r / 111)).
             p \<in> set (workersInCell idx cell)
             \<and> haversineDistance lat lon (lat_point p) (lon_point p) \<le> r}"
  by (auto simp: findNearbyWorkers_def Let_def)

lemma getSearchCells_mem:
  "(a, b) \<in> set (getSearchCells lat lon radius)
     \<longleftrightarrow> \<bar>a - \<lfloor>lat / GRID_SIZE\<rfloor>\<bar> \<le> \<lceil>radius / GRID_SIZE\<rceil>
         \<and> \<bar>b - \<lfloor>lon / GRID_SIZE\<rfloor>\<bar> \<le> \<lceil>radius / GRID_SIZE\<rceil>"
  (is "?L \<longleftrightarrow> ?R")
proof
  assume ?L
  then show ?R unfolding getSearchCells_def Let_def by auto
next
  assume r: ?R
  define g where "g = \<lceil>radius / GRID_SIZE\<rceil>"
  define x where "x = a - \<lfloor>lat / GRID_SIZE\<rfloor>"
  define y where "y = b - \<lfloor>lon / GRID_SIZE\<rfloor>"
  have x: "x \<in> {- g .. g}" and y: "y \<in> {- g .. g}"
    using r by (auto simp: g_def x_def y_def)
  have "(\<lfloor>lat / GRID_SIZE\<rfloor> + x, \<lfloor>lon / GRID_SIZE\<rfloor> + y)
          \<in> set (concat (map (\<lambda>latOffset.
                   map (\<lambda>lonOffset. (\<lfloor>lat / GRID_SIZE\<rfloor> + latOffset,
                                      \<lfloor>lon / GRID_SIZE\<rfloor> + lonOffset)) [- g .. g])
                 [- g .. g]))"
    using x y by (simp del: atLeastAtMost_iff) (blast intro: imageI)
  then show ?L
    unfolding getSearchCells_def Let_def g_def [symmetric] by (simp add: x_def y_def)
qed

lemma findNearbyWorkers_build:
  "set (findNearbyWorkers (buildSpatialIndex ws) lat lon r)
     = toPoint ` {w \<in> set ws. truthy (lat_user w) \<and> truthy (lon_user w)
          \<and> \<bar>\<lfloor>the (lat_user w) / GRID_SIZE\<rfloor> - \<lfloor>lat / GRID_SIZE\<rfloor>\<bar> \<le> \<lceil>r / 111 / GRID_SIZE\<rceil>
          \<and> \<bar>\<lfloor>the (lon_user w) / GRID_SIZE\<rfloor> - \<lfloor>lon / GRID_SIZE\<rfloor>\<bar> \<le> \<lceil>r / 111 / GRID_SIZE\<rceil>
          \<and> haversineDistance lat lon (the (lat_user w)) (the (lon_user w)) \<le> r}"
  unfolding findNearbyWorkers_set buildSpatialIndex_cell
  by (auto simp: getSearchCells_mem indexed_def getGridKey_def toPoint_def image_iff)

lemma getSearchCells_product:
  "getSearchCells lat lon radius
     = map (\<lambda>(a, b). (\<lfloor>lat / GRID_SIZE\<rfloor> + a, \<lfloor>lon / GRID_SIZE\<rfloor> + b))
         (List.product [- \<lceil>radius / GRID_SIZE\<rceil> .. \<lceil>radius / GRID_SIZE\<rceil>]
                       [- \<lceil>radius / GRID_SIZE\<rceil> .. \<lceil>radius / GRID_SIZE\<rceil>])"
  by (simp add: getSearchCells_def Let_def product_concat_map map_concat comp_def)

lemma getSearchCells_distinct: "distinct (getSearchCells lat lon radius)"
  unfolding getSearchCells_product
  by (simp add: distinct_map distinct_product inj_on_def split_def prod_eq_iff)

lemma concat_single_cell:
  "distinct cells \<Longrightarrow> \<forall>c \<in> set cells. c \<noteq> key \<longrightarrow> f c = [] \<Longrightarrow>
   concat (map f cells) = (if key \<in> set cells then f key else [])"
  by (induction cells) auto

lemma findNearbyWorkers_single:
  assumes "truthy (lat_user w)" and "truthy (lon_user w)"
  shows "findNearbyWorkers (buildSpatialIndex [w]) lat lon r =
     (if getGridKey (the (lat_user w)) (the (lon_user w)) \<in> set (getSearchCells lat lon (r / 111))
         \<and> haversineDistance lat lon (the (lat_user w)) (the (lon_user w)) \<le> r
      then [toPoint w] else [])"
proof -
  let ?key = "getGridKey (the (lat_user w)) (the (lon_user w))"
  let ?f = "\<lambda>cellKey. filter (\<lambda>worker.
              haversineDistance lat lon (lat_point worker) (lon_point worker) \<le> r)
              (workersInCell (buildSpatialIndex [w]) cellKey)"
  have other: "\<forall>c \<in> set (getSearchCells lat lon (r / 111)). c \<noteq> ?key \<longrightarrow> ?f c = []"
    by (auto simp: buildSpatialIndex_cell indexed_def)
  have key: "?f ?key = (if haversineDistance lat lon (the (lat_user w)) (the (lon_user w)) \<le> r
                       then [toPoint w] else [])"
    using assms by (simp add: buildSpatialIndex_cell indexed_def toPoint_def)
  have "findNearbyWorkers (buildSpatialIndex [w]) lat lon r
          = concat (map ?f (getSearchCells lat lon (r / 111)))"
    by (simp add: findNearbyWorkers_def Let_def)
  also have "\<dots> = (if ?key \<in> set (getSearchCells lat lon (r / 111)) then ?f ?key else [])"
    by (rule concat_single_cell [OF getSearchCells_distinct other])
  finally show ?thesis unfolding key by simp
qed

lemma select_member:
  assumes "selectBestWorkerOptimized nearby counts task = Some (w, d)"
  shows "\<exists>wp \<in> set nearby. data_wp wp = w \<and> eligible counts wp \<and> d = workerDistance wp task"
proof -
  let ?b0 = "\<lparr> bestWorker = None, bestScore = - 1, bestDistance = Infinity \<rparr>"
  let ?cs = "filter (eligible counts) nearby"
  have sel: "selectBestWorkerOptimized nearby counts task
      = (case bestWorker (foldl (selectStep counts task) ?b0 ?cs) of
           None \<Rightarrow> None
         | Some w \<Rightarrow> Some (w, bestDistance (foldl (selectStep counts task) ?b0 ?cs)))"
    unfolding selectBestWorkerOptimized_def Let_def
    by (simp only: foldl_select_filter [of counts task ?b0 nearby, symmetric])
  have ne: "?cs \<noteq> []"
  proof
    assume "?cs = []"
    then have "selectBestWorkerOptimized nearby counts task = None"
      unfolding sel by simp
    with assms show False by simp
  qed
  have all: "\<forall>x \<in> set ?cs. eligible counts x" by simp
  from foldl_select_eligible [OF ne all, of task] obtain i where
    i: "i < length ?cs"
    and f: "foldl (selectStep counts task) ?b0 ?cs
           = \<lparr> bestWorker = Some (data_wp (?cs ! i)), bestScore = scoreOf counts task (?cs ! i),
               bestDistance = workerDistance (?cs ! i) task \<rparr>"
    by blast
  have "selectBestWorkerOptimized nearby counts task
         = Some (data_wp (?cs ! i), workerDistance (?cs ! i) task)"
    unfolding sel f by simp
  with assms have w: "w = data_wp (?cs ! i)" and d: "d = workerDistance (?cs ! i) task"
    by simp_all
  from i have "?cs ! i \<in> set ?cs" by (rule nth_mem)
  then have "?cs ! i \<in> set nearby" and "eligible counts (?cs ! i)" by simp_all
  with w d show ?thesis by blast
qed

lemma allocationStep_falsy:
  "\<not> truthy (lat_task task) \<or> \<not> truthy (lon_task task) \<Longrightarrow>
   allocationStep idx counts acc task = (fst acc, snd acc + 1)"
  by (auto simp: allocationStep_def)

lemma allocationStep_sound:
  assumes "a \<in> set (fst (allocationStep idx counts acc task))"
  shows "a \<in> set (fst acc)
     \<or> (truthy (lat_task task) \<and> truthy (lon_task task) \<and> taskId a = id_task task
         \<and> (\<exists>p \<in> set (findNearbyWorkers idx (the (lat_task task)) (the (lon_task task))
                          MAX_ALLOCATION_RADIUS).
               workerId a = id_user (data p)
               \<and> countOf counts (id_user (data p)) < MAX_TASKS_PER_WORKER))"
proof (cases "\<not> truthy (lat_task task) \<or> \<not> truthy (lon_task task)")
  case True
  with assms show ?thesis by (simp add: allocationStep_falsy)
next
  case False
  let ?near = "findNearbyWorkers idx (the (lat_task task)) (the (lon_task task))
                 MAX_ALLOCATION_RADIUS"
  let ?pts = "map (\<lambda>sp. \<lparr> data_wp = data sp, distance_wp = None \<rparr>) ?near"
  show ?thesis
  proof (cases "selectBestWorkerOptimized ?pts counts task")
    case None
    with False have "allocationStep idx counts acc task = (fst acc, snd acc + 1)"
      by (simp add: allocationStep_def Let_def)
    with assms show ?thesis by simp
  next
    case (Some r)
    obtain w d where r: "r = (w, d)" by (cases r) auto
    from Some r have "selectBestWorkerOptimized ?pts counts task = Some (w, d)" by simp
    from select_member [OF this]
    obtain wp where wp: "wp \<in> set ?pts" "data_wp wp = w" "eligible counts wp" by blast
    then obtain p where p: "p \<in> set ?near" "data p = w" by auto
    from wp have lt: "countOf counts (id_user w) < MAX_TASKS_PER_WORKER"
      by (simp add: eligible_def)
    from False Some r have "allocationStep idx counts acc task
        = (if ?near = [] then (fst acc, snd acc + 1)
           else (fst acc @ [\<lparr> taskId = id_task task, workerId = id_user w,
                               distance = Some d \<rparr>], snd acc))"
      by (simp add: allocationStep_def Let_def)
    with assms have "a \<in> set (fst acc)
        \<or> a = \<lparr> taskId = id_task task, workerId = id_user w, distance = Some d \<rparr>"
      by (auto split: if_splits)
    then show ?thesis
    proof
      assume "a \<in> set (fst acc)"
      then show ?thesis by simp
    next
      assume "a = \<lparr> taskId = id_task task, workerId = id_user w, distance = Some d \<rparr>"
      with False p lt show ?thesis by auto
    qed
  qed
qed

lemma foldl_allocationStep_sound:
  "a \<in> set (fst (foldl (allocationStep idx counts) acc tasks)) \<Longrightarrow>
   a \<in> set (fst acc)
     \<or> (\<exists>task \<in> set tasks.
           truthy (lat_task task) \<and> truthy (lon_task task) \<and> taskId a = id_task task
           \<and> (\<exists>p \<in> set (findNearbyWorkers idx (the (lat_task task)) (the (lon_task task))
                            MAX_ALLOCATION_RADIUS).
                 workerId a = id_user (data p)
                 \<and> countOf counts (id_user (data p)) < MAX_TASKS_PER_WORKER))"
proof (induction tasks arbitrary: acc)
  case Nil
  then show ?case by simp
next
  case (Cons t tasks)
  from Cons.prems have "a \<in> set (fst (foldl (allocationStep idx counts)
                                        (allocationStep idx counts acc t) tasks))" by simp
  from Cons.IH [OF this] show ?case
  proof
    assume "a \<in> set (fst (allocationStep idx counts acc t))"
    from allocationStep_sound [OF this] show ?thesis by auto
  next
    assume "\<exists>task \<in> set tasks.
           truthy (lat_task task) \<and> truthy (lon_task task) \<and> taskId a = id_task task
           \<and> (\<exists>p \<in> set (findNearbyWorkers idx (the (lat_task task)) (the (lon_task task))
                            MAX_ALLOCATION_RADIUS).
                 workerId a = id_user (data p)
                 \<and> countOf counts (id_user (data p)) < MAX_TASKS_PER_WORKER)"
    then show ?thesis by auto
  qed
qed

lemma foldl_allocationStep_falsy:
  "\<forall>t \<in> set tasks. \<not> truthy (lat_task t) \<or> \<not> truthy (lon_task t) \<Longrightarrow>
   foldl (allocationStep idx counts) acc tasks = (fst acc, snd acc + int (length tasks))"
  by (induction tasks arbitrary: acc) (simp_all add: allocationStep_falsy)

lemma nearby_indexed:
  assumes "p \<in> set (findNearbyWorkers (buildSpatialIndex workers) lat lon r)"
  shows "data p \<in> set workers \<and> truthy (lat_user (data p)) \<and> truthy (lon_user (data p))
         \<and> haversineDistance lat lon (the (lat_user (data p))) (the (lon_user (data p))) \<le> r"
  using assms unfolding findNearbyWorkers_build by (auto simp: toPoint_def)

lemma finishRun_result:
  "fst (finishRun now finish tasks workers stats allocations bk db svc) =
     \<lparr> message = ''Optimized task allocation completed'',
       totalTasks = length tasks,
       allocated = allocatedCount bk,
       allocationFailed = allocationFailedCount bk,
       affectedWorkers = Some (length (affectedWorkerSet bk)),
       successRate = Some (if 0 < length tasks
                           then (real (allocatedCount bk) / real (length tasks)) * 100 else 0),
       duration = Some (finish - now),
       spatialIndexStats = Some stats,
       avgDistance = Some (calculateAverageDistance
                             (if 0 < length (successfulAllocations bk)
                              then successfulAllocations bk else allocations)),
       workerUtilization = Some (calculateWorkerUtilization workers (workerTaskCounts bk)) \<rparr>"
  by (simp add: finishRun_def Let_def)

lemma allocate_independent:
  "fst (allocateTasksOptimized batchSize now finish db dbCommit svc)
     = fst (allocateTasksOptimized batchSize now finish db dbCommit svc')
   \<and> fst (snd (allocateTasksOptimized batchSize now finish db dbCommit svc))
     = fst (snd (allocateTasksOptimized batchSize now finish db dbCommit svc'))"
  unfolding allocateTasksOptimized_def Let_def
  by (simp add: finishRun_result split_def split: sum.splits)

lemma allocate_returns:
  assumes "online db" and "online dbCommit"
  shows "\<exists>result. fst (allocateTasksOptimized batchSize now finish db dbCommit svc) = Inr result"
  using assms
  unfolding allocateTasksOptimized_def Let_def
  by (simp add: findPendingTasks_def getWorkers_def bulkUpdateTaskAllocations_def split_def)

lemma allocate_committed:
  assumes "findPendingTasks db batchSize = Inr tasks" and "getWorkers db = Inr workers"
    and "tasks \<noteq> []" and "workers \<noteq> []"
    and "proposeAllocations (buildSpatialIndex workers)
           (getWorkerTaskCountsBatch db (map id_user workers)) tasks = (allocations, failed)"
    and "allocations \<noteq> []"
    and "bulkUpdateTaskAllocations now allocations dbCommit = Inr (successfulIds, db')"
  shows "fst (allocateTasksOptimized batchSize now finish db dbCommit svc)
           = Inr (fst (finishRun now finish tasks workers (getStats (buildSpatialIndex workers))
                         allocations
                         (reconcile allocations failed
                            (getWorkerTaskCountsBatch db (map id_user workers)) successfulIds)
                         db' svc))"
    and "fst (snd (allocateTasksOptimized batchSize now finish db dbCommit svc)) = db'"
  using assms
  unfolding allocateTasksOptimized_def Let_def
  by (simp_all add: finishRun_result split_def)

lemma busy_fields:
  "status (busyTask n) = assigned" "assignedUserId (busyTask n) = Some ''w1''"
  "geocodePending (busyTask n) = False"
  by (simp_all add: busyTask_def)

lemma busy_not_pending:
  "filter (\<lambda>t. \<not> geocodePending t \<and> status t = unassigned) (map busyTask ns) = []"
  by (simp add: filter_map comp_def busy_fields)

lemma busy_active: "activeCount (map busyTask ns @ rest) ''w1'' = length ns + activeCount rest ''w1''"
  by (simp add: activeCount_def filter_map comp_def busy_fields)

lemma busy_update:
  "updateManyGuarded now a (map busyTask ns @ rest)
     = (fst (updateManyGuarded now a rest), map busyTask ns @ snd (updateManyGuarded now a rest))"
  by (simp add: updateManyGuarded_def filter_map comp_def busy_fields)

lemma crowded_pending:
  "findPendingTasks crowdedStore 100
     = Inr [exampleTask ''t1'' unassigned None, exampleTask ''t2'' unassigned None]"
  by (simp add: findPendingTasks_def crowdedStore_def busy_not_pending exampleTask_def)

lemma crowded_workers: "getWorkers crowdedStore = Inr [exampleUser ''w1'']"
  by (simp add: getWorkers_def crowdedStore_def exampleUser_def del: not_None_eq)

lemma crowded_counts:
  "countOf (getWorkerTaskCountsBatch crowdedStore (map id_user [exampleUser ''w1''])) ''w1'' = 49"
proof -
  have "activeCount [exampleTask ''t1'' unassigned None, exampleTask ''t2'' unassigned None]
          ''w1'' = 0"
    by (simp add: activeCount_def exampleTask_def)
  then show ?thesis
    by (simp add: getWorkerTaskCountsBatch_def countOf_def crowdedStore_def busy_active
        exampleUser_def)
qed

lemma near_same_place:
  "findNearbyWorkers (buildSpatialIndex [exampleUser wid]) (2381 / 100) (90412 / 1000)
      MAX_ALLOCATION_RADIUS = [toPoint (exampleUser wid)]"
  by (simp add: findNearbyWorkers_single exampleUser_def truthy_def getSearchCells_mem
      getGridKey_def GRID_SIZE_def MAX_ALLOCATION_RADIUS_def haversine_same)

lemma select_single:
  assumes "countOf counts (id_user (data_wp wp)) < MAX_TASKS_PER_WORKER"
  shows "selectBestWorkerOptimized [wp] counts task = Some (data_wp wp, workerDistance wp task)"
proof -
  have e: "eligible counts wp" using assms by (simp add: eligible_def)
  have "0 \<le> scoreOf counts task wp" using e by (rule score_nonneg)
  then show ?thesis
    using e by (simp add: selectBestWorkerOptimized_def selectStep_eligible)
qed

lemma select_same_place:
  assumes "countOf counts wid < MAX_TASKS_PER_WORKER"
  shows "selectBestWorkerOptimized [\<lparr> data_wp = exampleUser wid, distance_wp = None \<rparr>] counts
           (exampleTask tid unassigned None) = Some (exampleUser wid, Num 0)"
proof -
  have d: "workerDistance \<lparr> data_wp = exampleUser wid, distance_wp = None \<rparr>
             (exampleTask tid unassigned None) = Num 0"
    by (simp add: workerDistance_def exampleUser_def exampleTask_def geo_haversineDistance_def
        haversine_same)
  have w: "id_user (exampleUser wid) = wid" by (simp add: exampleUser_def)
  show ?thesis
    using select_single [of counts "\<lparr> data_wp = exampleUser wid, distance_wp = None \<rparr>"
        "exampleTask tid unassigned None"] assms
    by (simp add: d w)
qed

lemma step_same_place:
  assumes "countOf counts wid < MAX_TASKS_PER_WORKER"
  shows "allocationStep (buildSpatialIndex [exampleUser wid]) counts acc
           (exampleTask tid unassigned None)
         = (fst acc @ [\<lparr> taskId = tid, workerId = wid, distance = Some (Num 0) \<rparr>], snd acc)"
proof -
  have t: "truthy (lat_task (exampleTask tid unassigned None))"
      "truthy (lon_task (exampleTask tid unassigned None))"
    by (simp_all add: exampleTask_def truthy_def)
  have c: "the (lat_task (exampleTask tid unassigned None)) = 2381 / 100"
      "the (lon_task (exampleTask tid unassigned None)) = 90412 / 1000"
      "id_task (exampleTask tid unassigned None) = tid"
    by (simp_all add: exampleTask_def)
  have w: "id_user (exampleUser wid) = wid" by (simp add: exampleUser_def)
  have pts: "map (\<lambda>sp. \<lparr> data_wp = data sp, distance_wp = None \<rparr>) [toPoint (exampleUser wid)]
               = [\<lparr> data_wp = exampleUser wid, distance_wp = None \<rparr>]"
    by (simp add: toPoint_def)
  show ?thesis
    unfolding allocationStep_def Let_def c near_same_place pts select_same_place [OF assms]
    using t by (simp add: w)
qed

lemma crowded_proposals:
  "proposeAllocations (buildSpatialIndex [exampleUser ''w1''])
     (getWorkerTaskCountsBatch crowdedStore (map id_user [exampleUser ''w1'']))
     [exampleTask ''t1'' unassigned None, exampleTask ''t2'' unassigned None]
   = ([\<lparr> taskId = ''t1'', workerId = ''w1'', distance = Some (Num 0) \<rparr>,
       \<lparr> taskId = ''t2'', workerId = ''w1'', distance = Some (Num 0) \<rparr>], 0)"
proof -
  have "countOf (getWorkerTaskCountsBatch crowdedStore (map id_user [exampleUser ''w1'']))
          ''w1'' < MAX_TASKS_PER_WORKER"
    unfolding crowded_counts by (simp add: MAX_TASKS_PER_WORKER_def)
  from step_same_place [OF this] show ?thesis
    by (simp add: proposeAllocations_def)
qed

lemma crowded_bulk:
  "bulkUpdateTaskAllocations 1000
     [\<lparr> taskId = ''t1'', workerId = ''w1'', distance = Some (Num 0) \<rparr>,
      \<lparr> taskId = ''t2'', workerId = ''w1'', distance = Some (Num 0) \<rparr>] crowdedStore
   = Inr ([''t1'', ''t2''],
          crowdedStore\<lparr> taskRows := map busyTask [0..<49]
             @ [(exampleTask ''t1'' assigned (Some ''w1''))\<lparr> assignedAt := Some 1000 \<rparr>,
                (exampleTask ''t2'' assigned (Some ''w1''))\<lparr> assignedAt := Some 1000 \<rparr>] \<rparr>)"
proof -
  have rows: "taskRows crowdedStore = map busyTask [0..<49]
                  @ [exampleTask ''t1'' unassigned None, exampleTask ''t2'' unassigned None]"
    and on: "online crowdedStore"
    by (simp_all add: crowdedStore_def)
  show ?thesis
    unfolding bulkUpdateTaskAllocations_def rows
    using on
    by (simp add: busy_update) (simp add: updateManyGuarded_def exampleTask_def)
qed

lemma north_distance:
  "haversineDistance (2381 / 100) (90412 / 1000) (2385 / 100) (90412 / 1000)
     = 6371 * ((2385 / 100 - 2381 / 100) * pi / 180)"
  by (rule haversine_meridian) simp_all

lemma north_distance_bounds:
  "0 < 6371 * ((2385 / 100 - 2381 / 100) * pi / 180)"
  "6371 * ((2385 / 100 - 2381 / 100) * pi / 180) \<le> (10::real)"
proof -
  show "0 < 6371 * ((2385 / 100 - 2381 / 100) * pi / 180)" by simp
  have "6371 * ((2385 / 100 - 2381 / 100) * pi / 180)
          \<le> 6371 * ((2385 / 100 - 2381 / 100) * 4 / 180)"
    using pi_less_4 by simp
  also have "\<dots> \<le> (10::real)" by simp
  finally show "6371 * ((2385 / 100 - 2381 / 100) * pi / 180) \<le> (10::real)" .
qed

lemma north_near:
  "findNearbyWorkers (buildSpatialIndex [northWorker]) (2381 / 100) (90412 / 1000)
      MAX_ALLOCATION_RADIUS = [toPoint northWorker]"
proof -
  have t: "truthy (lat_user northWorker)" "truthy (lon_user northWorker)"
    by (simp_all add: northWorker_def truthy_def)
  have c: "the (lat_user northWorker) = 2385 / 100" "the (lon_user northWorker) = 90412 / 1000"
    by (simp_all add: northWorker_def)
  have cell: "getGridKey (2385 / 100) (90412 / 1000)
                \<in> set (getSearchCells (2381 / 100) (90412 / 1000) (MAX_ALLOCATION_RADIUS / 111))"
    by (simp add: getSearchCells_mem getGridKey_def GRID_SIZE_def MAX_ALLOCATION_RADIUS_def)
  have d: "haversineDistance (2381 / 100) (90412 / 1000) (2385 / 100) (90412 / 1000)
             \<le> MAX_ALLOCATION_RADIUS"
    unfolding north_distance MAX_ALLOCATION_RADIUS_def by (rule north_distance_bounds)
  show ?thesis
    unfolding findNearbyWorkers_single [OF t] c using cell d by simp
qed

lemma race_run:
  "fst (allocateTasksOptimized 100 1000 1001 raceStoreRead raceStoreCommit svc)
     = Inr \<lparr> message = ''Optimized task allocation completed'',
             totalTasks = 1, allocated = 0, allocationFailed = 1,
             affectedWorkers = Some 0, successRate = Some 0, duration = Some 1,
             spatialIndexStats = Some \<lparr> totalWorkers = 1, gridCells = 1, avgWorkersPerCell = 1 \<rparr>,
             avgDistance = Some (Num (6371 * ((2385 / 100 - 2381 / 100) * pi / 180))),
             workerUtilization = Some 0 \<rparr>"
proof -
  let ?task = "exampleTask ''t1'' unassigned None"
  let ?counts = "getWorkerTaskCountsBatch raceStoreRead (map id_user [northWorker])"
  let ?alloc = "\<lparr> taskId = ''t1'', workerId = ''w2'',
                   distance = Some (Num (6371 * ((2385 / 100 - 2381 / 100) * pi / 180))) \<rparr>"
  have pend: "findPendingTasks raceStoreRead 100 = Inr [?task]"
    by (simp add: findPendingTasks_def raceStoreRead_def exampleTask_def)
  have wk: "getWorkers raceStoreRead = Inr [northWorker]"
    by (simp add: getWorkers_def raceStoreRead_def northWorker_def del: not_None_eq)
  have cnt: "countOf ?counts ''w2'' = 0"
    by (simp add: getWorkerTaskCountsBatch_def countOf_def raceStoreRead_def northWorker_def
        activeCount_def exampleTask_def)
  have t: "truthy (lat_task ?task)" "truthy (lon_task ?task)"
    by (simp_all add: exampleTask_def truthy_def)
  have c: "the (lat_task ?task) = 2381 / 100" "the (lon_task ?task) = 90412 / 1000"
      "id_task ?task = ''t1''"
    by (simp_all add: exampleTask_def)
  have w: "id_user northWorker = ''w2''" by (simp add: northWorker_def)
  have pts: "map (\<lambda>sp. \<lparr> data_wp = data sp, distance_wp = None \<rparr>) [toPoint northWorker]
               = [\<lparr> data_wp = northWorker, distance_wp = None \<rparr>]"
    by (simp add: toPoint_def)
  have dist: "workerDistance \<lparr> data_wp = northWorker, distance_wp = None \<rparr> ?task
                = Num (6371 * ((2385 / 100 - 2381 / 100) * pi / 180))"
    unfolding north_distance [symmetric]
    by (simp add: workerDistance_def northWorker_def exampleTask_def geo_haversineDistance_def)
  have sel: "selectBestWorkerOptimized [\<lparr> data_wp = northWorker, distance_wp = None \<rparr>]
               ?counts ?task
             = Some (northWorker, Num (6371 * ((2385 / 100 - 2381 / 100) * pi / 180)))"
  proof -
    have "countOf ?counts (id_user (data_wp \<lparr> data_wp = northWorker, distance_wp = None \<rparr>))
            < MAX_TASKS_PER_WORKER"
      by (simp add: getWorkerTaskCountsBatch_def countOf_def raceStoreRead_def northWorker_def
          activeCount_def exampleTask_def MAX_TASKS_PER_WORKER_def)
    from select_single [OF this, of ?task] show ?thesis
      unfolding dist by simp
  qed
  have step: "allocationStep (buildSpatialIndex [northWorker]) ?counts ([], 0) ?task
                = ([?alloc], 0)"
    unfolding allocationStep_def Let_def c north_near pts sel
    using t by (simp add: w)
  have proposals: "proposeAllocations (buildSpatialIndex [northWorker]) ?counts [?task]
                = ([?alloc], 0)"
    unfolding proposeAllocations_def foldl.simps step ..
  have bulk: "bulkUpdateTaskAllocations 1000 [?alloc] raceStoreCommit = Inr ([], raceStoreCommit)"
    by (simp add: bulkUpdateTaskAllocations_def updateManyGuarded_def raceStoreCommit_def
        exampleTask_def)
  have stats: "getStats (buildSpatialIndex [northWorker])
                 = \<lparr> totalWorkers = 1, gridCells = 1, avgWorkersPerCell = 1 \<rparr>"
    by (simp add: getStats_def buildSpatialIndex_def indexWorker_def northWorker_def truthy_def
        Let_def)
  have rec: "reconcile [?alloc] 0 ?counts []
               = \<lparr> successfulAllocations = [], allocatedCount = 0, allocationFailedCount = 1,
                   workerTaskCounts = ?counts, affectedWorkerSet = [] \<rparr>"
    by (simp add: reconcile_def Let_def List.map_filter_simps)
  have avg: "calculateAverageDistance [?alloc]
               = Num (6371 * ((2385 / 100 - 2381 / 100) * pi / 180))"
    by (simp add: calculateAverageDistance_def averageStep_def)
  have util: "calculateWorkerUtilization [northWorker] ?counts = 0"
    by (simp add: calculateWorkerUtilization_def Let_def getWorkerTaskCountsBatch_def
        countOf_def raceStoreRead_def northWorker_def activeCount_def exampleTask_def)
  have run: "fst (allocateTasksOptimized 100 1000 1001 raceStoreRead raceStoreCommit svc)
      = Inr (fst (finishRun 1000 1001 [?task] [northWorker]
                    (getStats (buildSpatialIndex [northWorker])) [?alloc]
                    (reconcile [?alloc] 0 ?counts []) raceStoreCommit svc))"
    by (rule allocate_committed(1) [OF pend wk _ _ proposals _ bulk]) simp_all
  show ?thesis
    unfolding run finishRun_result stats rec
    by (simp add: avg [simplified] util [simplified])
qed

lemma crowded_run:
  "(\<exists>result. fst (allocateTasksOptimized 100 1000 1001 crowdedStore crowdedStore svc) = Inr result
       \<and> totalTasks result = 2 \<and> allocated result = 2 \<and> allocationFailed result = 0)
   \<and> fst (snd (allocateTasksOptimized 100 1000 1001 crowdedStore crowdedStore svc))
       = crowdedStore\<lparr> taskRows := map busyTask [0..<49]
             @ [(exampleTask ''t1'' assigned (Some ''w1''))\<lparr> assignedAt := Some 1000 \<rparr>,
                (exampleTask ''t2'' assigned (Some ''w1''))\<lparr> assignedAt := Some 1000 \<rparr>] \<rparr>"
proof -
  let ?tasks = "[exampleTask ''t1'' unassigned None, exampleTask ''t2'' unassigned None]"
  let ?allocs = "[\<lparr> taskId = ''t1'', workerId = ''w1'', distance = Some (Num 0) \<rparr>,
                  \<lparr> taskId = ''t2'', workerId = ''w1'', distance = Some (Num 0) \<rparr>]"
  let ?counts = "getWorkerTaskCountsBatch crowdedStore (map id_user [exampleUser ''w1''])"
  let ?after = "crowdedStore\<lparr> taskRows := map busyTask [0..<49]
             @ [(exampleTask ''t1'' assigned (Some ''w1''))\<lparr> assignedAt := Some 1000 \<rparr>,
                (exampleTask ''t2'' assigned (Some ''w1''))\<lparr> assignedAt := Some 1000 \<rparr>] \<rparr>"
  have run: "fst (allocateTasksOptimized 100 1000 1001 crowdedStore crowdedStore svc)
      = Inr (fst (finishRun 1000 1001 ?tasks [exampleUser ''w1'']
                    (getStats (buildSpatialIndex [exampleUser ''w1''])) ?allocs
                    (reconcile ?allocs 0 ?counts [''t1'', ''t2'']) ?after svc))"
    by (rule allocate_committed(1)
          [OF crowded_pending crowded_workers _ _ crowded_proposals _ crowded_bulk]) simp_all
  have store: "fst (snd (allocateTasksOptimized 100 1000 1001 crowdedStore crowdedStore svc))
      = ?after"
    by (rule allocate_committed(2)
          [OF crowded_pending crowded_workers _ _ crowded_proposals _ crowded_bulk]) simp_all
  have rec: "allocatedCount (reconcile ?allocs 0 ?counts [''t1'', ''t2'']) = 2"
    "allocationFailedCount (reconcile ?allocs 0 ?counts [''t1'', ''t2'']) = 0"
    by (simp_all add: reconcile_def Let_def List.map_filter_simps)
  show ?thesis
    unfolding run finishRun_result store using rec by simp
qed

lemma roundHalfEven_mono: "a \<le> b \<Longrightarrow> roundHalfEven a \<le> roundHalfEven b"
proof -
  assume ab: "a \<le> b"
  have fl: "\<lfloor>a\<rfloor> \<le> \<lfloor>b\<rfloor>" using ab by (rule floor_mono)
  show ?thesis
  proof (cases "\<lfloor>a\<rfloor> = \<lfloor>b\<rfloor>")
    case True
    then show ?thesis using ab unfolding roundHalfEven_def Let_def by auto
  next
    case False
    with fl have "\<lfloor>a\<rfloor> + 1 \<le> \<lfloor>b\<rfloor>" by simp
    then show ?thesis using roundHalfEven_bounds [of a] roundHalfEven_bounds [of b] by linarith
  qed
qed

lemma binade_lower: "- 1022 \<le> binade x"
  by (simp add: binade_def)

lemma binade_mono: "0 < x \<Longrightarrow> x \<le> y \<Longrightarrow> binade x \<le> binade y"
proof -
  assume a: "0 < x" "x \<le> y"
  hence "log 2 x \<le> log 2 y" by simp
  hence "\<lfloor>log 2 x\<rfloor> \<le> \<lfloor>log 2 y\<rfloor>" by (rule floor_mono)
  thus ?thesis using a by (simp add: binade_def)
qed

lemma below_next_binade: "0 < x \<Longrightarrow> x < 2 powr real_of_int (binade x + 1)"
proof -
  assume a: "0 < x"
  have "log 2 x < real_of_int (\<lfloor>log 2 x\<rfloor> + 1)" by linarith
  also have "\<dots> \<le> real_of_int (binade x + 1)" using a by (simp add: binade_def)
  finally have "log 2 x < real_of_int (binade x + 1)" .
  thus ?thesis using a by (simp add: log_less_iff)
qed

lemma above_binade: "0 < x \<Longrightarrow> - 1022 < binade x \<Longrightarrow> 2 powr real_of_int (binade x) \<le> x"
proof -
  assume a: "0 < x" "- 1022 < binade x"
  hence "binade x = \<lfloor>log 2 x\<rfloor>" by (simp add: binade_def max_def split: if_splits)
  hence "real_of_int (binade x) \<le> log 2 x" by simp
  thus ?thesis using a(1) by (simp add: le_log_iff)
qed

lemma toDouble_mono_nonneg:
  assumes "0 \<le> x" and "x \<le> y"
  shows "toDouble x \<le> toDouble y"
proof (cases "x = 0")
  case True
  then show ?thesis using assms toDouble_nonneg [of y] by (simp add: toDouble_def)
next
  case False
  with assms have x: "0 < x" and y: "0 < y" by simp_all
  have le: "binade x \<le> binade y" using x assms(2) by (rule binade_mono)
  show ?thesis
  proof (cases "binade x = binade y")
    case True
    hence u: "ulp x = ulp y" by (simp add: ulp_def)
    have "x / ulp y \<le> y / ulp y" using assms(2) ulp_pos [of y] by (simp add: divide_right_mono)
    hence "roundHalfEven (x / ulp y) \<le> roundHalfEven (y / ulp y)" by (rule roundHalfEven_mono)
    hence "real_of_int (roundHalfEven (x / ulp y)) \<le> real_of_int (roundHalfEven (y / ulp y))"
      by simp
    hence "real_of_int (roundHalfEven (x / ulp y)) * ulp y
             \<le> real_of_int (roundHalfEven (y / ulp y)) * ulp y"
      using ulp_pos [of y] by (simp add: mult_right_mono)
    then show ?thesis using x y by (simp add: toDouble_def u)
  next
    case False
    with le have lt: "binade x + 1 \<le> binade y" by simp
    define m where "m = 2 powr real_of_int (binade x + 1)"
    have mx: "m = real_of_int (2 ^ 53) * ulp x"
    proof -
      have "real_of_int (binade x + 1) = real_of_int (binade x - 52) + 53" by simp
      hence "m = 2 powr real_of_int (binade x - 52) * 2 powr 53"
        unfolding m_def by (simp only: powr_add)
      thus ?thesis by (simp add: ulp_def)
    qed
    have "x \<le> m" using below_next_binade [OF x] by (simp add: m_def)
    hence "toDouble x \<le> real_of_int (2 ^ 53) * ulp x"
      unfolding mx by (rule toDouble_le)
    hence a: "toDouble x \<le> m" by (simp only: mx)
    define n where "n = 2 powr real_of_int (binade y)"
    have ny: "n = real_of_int (2 ^ 52) * ulp y"
    proof -
      have "real_of_int (binade y) = real_of_int (binade y - 52) + 52" by simp
      hence "n = 2 powr real_of_int (binade y - 52) * 2 powr 52"
        unfolding n_def by (simp only: powr_add)
      thus ?thesis by (simp add: ulp_def)
    qed
    have "- 1022 < binade y" using lt binade_lower [of x] by linarith
    hence "n \<le> y" using above_binade [OF y] by (simp add: n_def)
    hence "real_of_int (2 ^ 52) * ulp y \<le> toDouble y"
      unfolding ny by (rule toDouble_ge)
    hence b: "n \<le> toDouble y" by (simp only: ny)
    have "m \<le> n" unfolding m_def n_def using lt by simp
    with a b show ?thesis by linarith
  qed
qed


lemma toDouble_integers:
  "toDouble 0 = 0" "toDouble 1 = 1" "toDouble 2 = 2" "toDouble 5 = 5" "toDouble 50 = 50"
  "toDouble 98 = 98" "toDouble 99 = 99" "toDouble 100 = 100" "toDouble 148 = 148"
  "toDouble 149 = 149" "toDouble 150 = 150"
  using toDouble_of_int [of 0] toDouble_of_int [of 1] toDouble_of_int [of 2]
    toDouble_of_int [of 5] toDouble_of_int [of 50] toDouble_of_int [of 98]
    toDouble_of_int [of 99] toDouble_of_int [of 100] toDouble_of_int [of 148]
    toDouble_of_int [of 149] toDouble_of_int [of 150]
  by simp_all

lemma toDouble_halves:
  "toDouble (1 / 2) = 1 / 2" "toDouble (199 / 2) = 199 / 2" "toDouble (299 / 2) = 299 / 2"
  using toDouble_half [of 1] toDouble_half [of 199] toDouble_half [of 299]
  by simp_all

lemma load_score_zero: "toDouble (toDouble (1 - toDouble (real 0 / real MAX_TASKS_PER_WORKER)) * 50) = 50"
  by (simp add: toDouble_integers)

lemma score_precomputed:
  assumes "countOf counts (id_user (data_wp wp)) = 0"
  shows "distance_wp wp = Some (Num 20) \<Longrightarrow> scoreOf counts task wp = 148"
    and "distance_wp wp = Some (Num 5) \<Longrightarrow> scoreOf counts task wp = 299 / 2"
    and "distance_wp wp = Some (Num 0) \<Longrightarrow> scoreOf counts task wp = 150"
  using assms
  by (simp_all add: scoreOf_def workerDistance_def toDouble_integers toDouble_halves)

lemma score_absorbed:
  assumes "countOf counts (id_user (data_wp wp)) = 0"
    and "distance_wp wp = Some (Num (1 / 2 ^ 50))"
  shows "scoreOf counts task wp = 150"
proof -
  define x :: real where "x = (1 / 2 ^ 50) / 10"
  define e :: real where "e = 1 / 2 ^ 53"
  define q where "q = toDouble x"
  have "\<bar>q - x\<bar> \<le> e"
    unfolding q_def e_def by (rule toDouble_small_error) (simp_all add: x_def)
  hence "q \<le> x + e" by linarith
  also have "\<dots> < 1 / 2 ^ 47" by (simp add: x_def e_def)
  finally have small: "q < 1 / 2 ^ 47" .
  have "0 \<le> q" unfolding q_def by (rule toDouble_nonneg) (simp add: x_def)
  hence "toDouble (100 - q) = 100" using small by (rule toDouble_absorbed)
  thus ?thesis
    unfolding q_def x_def using assms
    by (simp add: scoreOf_def workerDistance_def toDouble_integers)
qed

lemma far_north_distance:
  "haversineDistance (2381 / 100) (90412 / 1000) (2411 / 100) (90412 / 1000)
     = 6371 * ((2411 / 100 - 2381 / 100) * pi / 180)"
  by (rule haversine_meridian) simp_all

lemma score_distance_bounds:
  assumes w: "workerDistance wp task = Num d" and c: "countOf counts (id_user (data_wp wp)) = 0"
  shows "20 \<le> d \<Longrightarrow> d \<le> 50 \<Longrightarrow> scoreOf counts task wp \<le> 148"
    and "0 \<le> d \<Longrightarrow> d \<le> 10 \<Longrightarrow> 149 \<le> scoreOf counts task wp"
proof -
  have s: "scoreOf counts task wp = toDouble (max 0 (toDouble (100 - toDouble (d / 10))) + 50)"
    by (simp add: scoreOf_def w c toDouble_integers)
  {
    assume d: "20 \<le> d" "d \<le> 50"
    have "toDouble 2 \<le> toDouble (d / 10)" using d by (intro toDouble_mono_nonneg) simp_all
    hence q1: "2 \<le> toDouble (d / 10)" by (simp add: toDouble_integers)
    have "toDouble (d / 10) \<le> toDouble 5" using d by (intro toDouble_mono_nonneg) simp_all
    hence q2: "toDouble (d / 10) \<le> 5" by (simp add: toDouble_integers)
    have "toDouble (100 - toDouble (d / 10)) \<le> toDouble 98"
      using q1 q2 by (intro toDouble_mono_nonneg) simp_all
    hence x1: "toDouble (100 - toDouble (d / 10)) \<le> 98" by (simp add: toDouble_integers)
    have "toDouble (max 0 (toDouble (100 - toDouble (d / 10))) + 50) \<le> toDouble 148"
      using x1 by (intro toDouble_mono_nonneg) simp_all
    thus "scoreOf counts task wp \<le> 148" by (simp add: s toDouble_integers)
  }
  {
    assume d: "0 \<le> d" "d \<le> 10"
    have q0: "0 \<le> toDouble (d / 10)" using d by (intro toDouble_nonneg) simp
    have "toDouble (d / 10) \<le> toDouble 1" using d by (intro toDouble_mono_nonneg) simp_all
    hence q1: "toDouble (d / 10) \<le> 1" by (simp add: toDouble_integers)
    have "toDouble 99 \<le> toDouble (100 - toDouble (d / 10))"
      using q1 by (intro toDouble_mono_nonneg) simp_all
    hence x1: "99 \<le> toDouble (100 - toDouble (d / 10))" by (simp add: toDouble_integers)
    have "toDouble 149 \<le> toDouble (max 0 (toDouble (100 - toDouble (d / 10))) + 50)"
      using x1 by (intro toDouble_mono_nonneg) simp_all
    thus "149 \<le> scoreOf counts task wp" by (simp add: s toDouble_integers)
  }
qed







lemma written_other_now:
  "k \<noteq> key \<Longrightarrow> k \<noteq> key @ '':version'' \<Longrightarrow>
   storedVersion key (written k payload version svc) = storedVersion key svc"
  using written_other_key [of k key 0 payload version svc] by (simp add: elapse_zero)


section \<open>Results\<close>

lemma loadTaskReallocationConfig_no_env:
  "loadTaskReallocationConfig Map.empty = defaultTaskReallocationConfig"
  by (simp add: loadTaskReallocationConfig_def applyEnvStatus_def allStatuses_def)

text \<open>
  C9. Under the default reallocation configuration (no environment overrides) the claim
  expects \<open>canReallocateTask\<close> to refuse accepted and completed tasks. The code refuses
  completed tasks only: for an accepted task it answers \<open>True\<close>, because the default table
  sets \<open>accepted\<close> to \<open>true\<close>. The statuses unassigned, assigned and rejected are
  reallocatable, as the claim says, and the five rejection messages are pairwise distinct.
\<close>

theorem C9_accepted_is_reallocatable_by_default:
  "canReallocateTask accepted (loadTaskReallocationConfig Map.empty) = True
   \<and> canReallocateTask completed (loadTaskReallocationConfig Map.empty) = False
   \<and> canReallocateTask unassigned (loadTaskReallocationConfig Map.empty) = True
   \<and> canReallocateTask assigned (loadTaskReallocationConfig Map.empty) = True
   \<and> canReallocateTask rejected (loadTaskReallocationConfig Map.empty) = True
   \<and> distinct (map (\<lambda>s. getReallocationErrorMessage s defaultTaskReallocationConfig) allStatuses)"
  by (simp add: loadTaskReallocationConfig_no_env canReallocateTask_def
      defaultTaskReallocationConfig_def getReallocationErrorMessage_def allStatuses_def)

text \<open>
  C5. Worker selection. Candidates whose load is at or above \<open>MAX_TASKS_PER_WORKER\<close>,
  which is \<open>50\<close>, are left out before scoring. The distance of a candidate is the
  distance it carries or, when it carries none, the great-circle distance between the
  coordinates of the task and of the worker, and \<open>Infinity\<close> when a coordinate is
  missing. The score of a remaining candidate is
  \<open>max(0, 100 - distanceKm/10) + (1 - currentLoad/maxLoad) * 50\<close> with the cap as
  \<open>maxLoad\<close>, evaluated as the code evaluates it: on doubles, each operation rounded.
  When no candidate remains the answer is no worker; otherwise the answer is a remaining
  candidate whose score is maximal and strictly above the score of every remaining
  candidate before it in enumeration order, together with its distance.

  The examples: among candidates that carry their distances the nearer one wins and the
  first of two equal ones; two candidates at the distances \<open>2^-50\<close> and \<open>0\<close>, whose
  scores differ as real numbers, have the same score as doubles, and the first one wins;
  among candidates without a distance the one whose coordinates are nearer wins; a
  candidate at the cap alone gives no worker.
\<close>

theorem C5_selection:
  "(let load = (\<lambda>wp. countOf counts (id_user (data_wp wp)));
        candidates = filter (\<lambda>wp. load wp < MAX_TASKS_PER_WORKER) nearbyWorkers;
        distanceKm =
          (\<lambda>wp. case distance_wp wp of
                   Some d \<Rightarrow> d
                 | None \<Rightarrow>
                     (case (lat_task task, lon_task task,
                            lat_user (data_wp wp), lon_user (data_wp wp)) of
                        (Some tlat, Some tlon, Some wlat, Some wlon) \<Rightarrow>
                          Num (geo_haversineDistance tlat tlon wlat wlon)
                      | _ \<Rightarrow> Infinity));
        score =
          (\<lambda>wp. toDouble
                   ((case distanceKm wp of
                       Num d \<Rightarrow> max 0 (toDouble (100 - toDouble (d / 10)))
                     | Infinity \<Rightarrow> 0)
                    + toDouble (toDouble (1 - toDouble (real (load wp)
                                                        / real MAX_TASKS_PER_WORKER))
                                * 50)))
    in (candidates = [] \<longrightarrow> selectBestWorkerOptimized nearbyWorkers counts task = None)
       \<and> (candidates \<noteq> [] \<longrightarrow>
            (\<exists>i < length candidates.
               selectBestWorkerOptimized nearbyWorkers counts task
                 = Some (data_wp (candidates ! i), distanceKm (candidates ! i))
               \<and> (\<forall>j < length candidates. score (candidates ! j) \<le> score (candidates ! i))
               \<and> (\<forall>j < i. score (candidates ! j) < score (candidates ! i)))))
   \<and> MAX_TASKS_PER_WORKER = 50"
proof -
  let ?b0 = "\<lparr> bestWorker = None, bestScore = - 1, bestDistance = Infinity \<rparr>"
  let ?cs = "filter (eligible counts) nearbyWorkers"
  have sel: "selectBestWorkerOptimized nearbyWorkers counts task
      = (case bestWorker (foldl (selectStep counts task) ?b0 ?cs) of
           None \<Rightarrow> None
         | Some w \<Rightarrow> Some (w, bestDistance (foldl (selectStep counts task) ?b0 ?cs)))"
    unfolding selectBestWorkerOptimized_def Let_def
    by (simp only: foldl_select_filter [of counts task ?b0 nearbyWorkers, symmetric])
  have none: "?cs = [] \<longrightarrow> selectBestWorkerOptimized nearbyWorkers counts task = None"
    by (simp add: sel)
  have some: "?cs \<noteq> [] \<longrightarrow>
      (\<exists>i < length ?cs.
         selectBestWorkerOptimized nearbyWorkers counts task
           = Some (data_wp (?cs ! i), workerDistance (?cs ! i) task)
         \<and> (\<forall>j < length ?cs. scoreOf counts task (?cs ! j) \<le> scoreOf counts task (?cs ! i))
         \<and> (\<forall>j < i. scoreOf counts task (?cs ! j) < scoreOf counts task (?cs ! i)))"
  proof
    assume ne: "?cs \<noteq> []"
    have all: "\<forall>x \<in> set ?cs. eligible counts x" by simp
    from foldl_select_eligible [OF ne all, of task] obtain i where
      i: "i < length ?cs"
      and f: "foldl (selectStep counts task) ?b0 ?cs
             = \<lparr> bestWorker = Some (data_wp (?cs ! i)), bestScore = scoreOf counts task (?cs ! i),
                 bestDistance = workerDistance (?cs ! i) task \<rparr>"
      and rest: "(\<forall>j < length ?cs. scoreOf counts task (?cs ! j) \<le> scoreOf counts task (?cs ! i))
           \<and> (\<forall>j < i. scoreOf counts task (?cs ! j) < scoreOf counts task (?cs ! i))"
      by blast
    have "selectBestWorkerOptimized nearbyWorkers counts task
           = Some (data_wp (?cs ! i), workerDistance (?cs ! i) task)"
      unfolding sel f by simp
    with i rest show "\<exists>i < length ?cs.
         selectBestWorkerOptimized nearbyWorkers counts task
           = Some (data_wp (?cs ! i), workerDistance (?cs ! i) task)
         \<and> (\<forall>j < length ?cs. scoreOf counts task (?cs ! j) \<le> scoreOf counts task (?cs ! i))
         \<and> (\<forall>j < i. scoreOf counts task (?cs ! j) < scoreOf counts task (?cs ! i))"
      by blast
  qed
  have cap: "MAX_TASKS_PER_WORKER = 50" by (simp add: MAX_TASKS_PER_WORKER_def)
  show ?thesis
    unfolding Let_def
    using none some cap
    unfolding eligible_def scoreOf_def workerDistance_def by blast
qed

theorem C5_selection_witness:
  "selectBestWorkerOptimized exampleCandidates exampleCounts (exampleTask ''t1'' unassigned None)
     = Some (exampleUser ''near'', Num 5)
   \<and> selectBestWorkerOptimized roundingCandidates exampleCounts
        (exampleTask ''t1'' unassigned None)
     = Some (exampleUser ''a'', Num (1 / 2 ^ 50))
   \<and> selectBestWorkerOptimized onDemandCandidates exampleCounts
        (exampleTask ''t1'' unassigned None)
     = Some (northWorker, Num (6371 * ((2385 / 100 - 2381 / 100) * pi / 180)))
   \<and> selectBestWorkerOptimized [hd exampleCandidates] exampleCounts
        (exampleTask ''t1'' unassigned None)
     = None"
proof -
  let ?t = "exampleTask ''t1'' unassigned None"
  have some: "\<And>cands cs. filter (eligible exampleCounts) cands = cs \<Longrightarrow> cs \<noteq> [] \<Longrightarrow>
      \<exists>i < length cs.
         selectBestWorkerOptimized cands exampleCounts ?t
           = Some (data_wp (cs ! i), workerDistance (cs ! i) ?t)
         \<and> (\<forall>j < length cs. scoreOf exampleCounts ?t (cs ! j) \<le> scoreOf exampleCounts ?t (cs ! i))
         \<and> (\<forall>j < i. scoreOf exampleCounts ?t (cs ! j) < scoreOf exampleCounts ?t (cs ! i))"
  proof -
    fix cands cs
    assume "filter (eligible exampleCounts) cands = cs" and "cs \<noteq> []"
    then show "\<exists>i < length cs.
         selectBestWorkerOptimized cands exampleCounts ?t
           = Some (data_wp (cs ! i), workerDistance (cs ! i) ?t)
         \<and> (\<forall>j < length cs. scoreOf exampleCounts ?t (cs ! j) \<le> scoreOf exampleCounts ?t (cs ! i))
         \<and> (\<forall>j < i. scoreOf exampleCounts ?t (cs ! j) < scoreOf exampleCounts ?t (cs ! i))"
      using C5_selection [of exampleCounts cands ?t]
      unfolding Let_def eligible_def scoreOf_def workerDistance_def by blast
  qed
  have none: "\<And>cands. filter (eligible exampleCounts) cands = [] \<Longrightarrow>
      selectBestWorkerOptimized cands exampleCounts ?t = None"
  proof -
    fix cands
    assume "filter (eligible exampleCounts) cands = []"
    then show "selectBestWorkerOptimized cands exampleCounts ?t = None"
      using C5_selection [of exampleCounts cands ?t]
      unfolding Let_def eligible_def by blast
  qed
  have zero: "\<And>wid. wid \<noteq> ''full'' \<Longrightarrow> countOf exampleCounts wid = 0"
    by (simp add: exampleCounts_def countOf_def)
  have full: "\<not> eligible exampleCounts \<lparr> data_wp = exampleUser ''full'', distance_wp = d \<rparr>" for d
    by (simp add: eligible_def exampleCounts_def countOf_def exampleUser_def
        MAX_TASKS_PER_WORKER_def)
  have idu: "id_user (exampleUser wid) = wid" for wid
    by (simp add: exampleUser_def)
  have el: "id_user (data_wp wp) \<noteq> ''full'' \<Longrightarrow> eligible exampleCounts wp" for wp
    by (simp add: eligible_def zero MAX_TASKS_PER_WORKER_def)
  let ?far = "\<lparr> data_wp = exampleUser ''far'', distance_wp = Some (Num 20) \<rparr>"
  let ?near = "\<lparr> data_wp = exampleUser ''near'', distance_wp = Some (Num 5) \<rparr>"
  let ?tie = "\<lparr> data_wp = exampleUser ''tie'', distance_wp = Some (Num 5) \<rparr>"
  have s1: "scoreOf exampleCounts ?t ?far = 148" "scoreOf exampleCounts ?t ?near = 299 / 2"
    "scoreOf exampleCounts ?t ?tie = 299 / 2"
    by (simp_all add: score_precomputed zero exampleUser_def)
  have f1: "filter (eligible exampleCounts) exampleCandidates = [?far, ?near, ?tie]"
    by (simp add: exampleCandidates_def full el idu)
  have "[?far, ?near, ?tie] \<noteq> []" by simp
  from some [OF f1 this] obtain i where i: "i < length [?far, ?near, ?tie]"
    and r: "selectBestWorkerOptimized exampleCandidates exampleCounts ?t
           = Some (data_wp ([?far, ?near, ?tie] ! i), workerDistance ([?far, ?near, ?tie] ! i) ?t)"
    and mx: "\<forall>j < length [?far, ?near, ?tie]. scoreOf exampleCounts ?t ([?far, ?near, ?tie] ! j)
                      \<le> scoreOf exampleCounts ?t ([?far, ?near, ?tie] ! i)"
    and fs: "\<forall>j < i. scoreOf exampleCounts ?t ([?far, ?near, ?tie] ! j)
                      < scoreOf exampleCounts ?t ([?far, ?near, ?tie] ! i)"
    by blast
  from i consider "i = 0" | "i = 1" | "i = 2" by fastforce
  then have w1: "selectBestWorkerOptimized exampleCandidates exampleCounts ?t
      = Some (exampleUser ''near'', Num 5)"
  proof cases
    case 1
    with mx [rule_format, of 1]
    have "scoreOf exampleCounts ?t ?near \<le> scoreOf exampleCounts ?t ?far" by simp
    then show ?thesis by (simp add: s1)
  next
    case 2
    with r show ?thesis by (simp add: workerDistance_def)
  next
    case 3
    with fs [rule_format, of 1]
    have "scoreOf exampleCounts ?t ?near < scoreOf exampleCounts ?t ?tie" by simp
    then show ?thesis by (simp add: s1)
  qed
  let ?a = "\<lparr> data_wp = exampleUser ''a'', distance_wp = Some (Num (1 / 2 ^ 50)) \<rparr>"
  let ?b = "\<lparr> data_wp = exampleUser ''b'', distance_wp = Some (Num 0) \<rparr>"
  have s2: "scoreOf exampleCounts ?t ?a = 150" "scoreOf exampleCounts ?t ?b = 150"
    by (simp_all add: score_precomputed score_absorbed zero exampleUser_def)
  have f2: "filter (eligible exampleCounts) roundingCandidates = [?a, ?b]"
    by (simp add: roundingCandidates_def el idu)
  have "[?a, ?b] \<noteq> []" by simp
  from some [OF f2 this] obtain i2 where i2: "i2 < length [?a, ?b]"
    and r2: "selectBestWorkerOptimized roundingCandidates exampleCounts ?t
           = Some (data_wp ([?a, ?b] ! i2), workerDistance ([?a, ?b] ! i2) ?t)"
    and fs2: "\<forall>j < i2. scoreOf exampleCounts ?t ([?a, ?b] ! j)
                      < scoreOf exampleCounts ?t ([?a, ?b] ! i2)"
    by blast
  from i2 consider "i2 = 0" | "i2 = 1" by fastforce
  then have w2: "selectBestWorkerOptimized roundingCandidates exampleCounts ?t
      = Some (exampleUser ''a'', Num (1 / 2 ^ 50))"
  proof cases
    case 1
    with r2 show ?thesis by (simp add: workerDistance_def)
  next
    case 2
    with fs2 [rule_format, of 0]
    have "scoreOf exampleCounts ?t ?a < scoreOf exampleCounts ?t ?b" by simp
    then show ?thesis unfolding s2 by simp
  qed
  let ?fn = "\<lparr> data_wp = farNorthWorker, distance_wp = None \<rparr>"
  let ?n = "\<lparr> data_wp = northWorker, distance_wp = None \<rparr>"
  have dn: "workerDistance ?n ?t = Num (6371 * ((2385 / 100 - 2381 / 100) * pi / 180))"
    by (simp only: workerDistance_def geo_haversineDistance_def north_distance [symmetric])
       (simp add: northWorker_def exampleTask_def)
  have dfn: "workerDistance ?fn ?t = Num (6371 * ((2411 / 100 - 2381 / 100) * pi / 180))"
    by (simp only: workerDistance_def geo_haversineDistance_def far_north_distance [symmetric])
       (simp add: farNorthWorker_def exampleTask_def)
  have "0 \<le> 6371 * ((2385 / 100 - 2381 / 100) * pi / 180)" by simp
  moreover have "6371 * ((2385 / 100 - 2381 / 100) * pi / 180) \<le> 10"
    by (rule north_distance_bounds)
  ultimately have sn: "149 \<le> scoreOf exampleCounts ?t ?n"
    by (intro score_distance_bounds(2) [OF dn]) (simp_all add: zero northWorker_def)
  have "20 \<le> 6371 * ((2411 / 100 - 2381 / 100) * pi / 180)"
    using pi_ge_two by simp
  moreover have "6371 * ((2411 / 100 - 2381 / 100) * pi / 180) \<le> 50"
    using pi_less_4 by simp
  ultimately have sfn: "scoreOf exampleCounts ?t ?fn \<le> 148"
    by (intro score_distance_bounds(1) [OF dfn]) (simp_all add: zero farNorthWorker_def)
  have f3: "filter (eligible exampleCounts) onDemandCandidates = [?fn, ?n]"
    by (simp add: onDemandCandidates_def full el farNorthWorker_def northWorker_def)
  have "[?fn, ?n] \<noteq> []" by simp
  from some [OF f3 this] obtain i3 where i3: "i3 < length [?fn, ?n]"
    and r3: "selectBestWorkerOptimized onDemandCandidates exampleCounts ?t
           = Some (data_wp ([?fn, ?n] ! i3), workerDistance ([?fn, ?n] ! i3) ?t)"
    and mx3: "\<forall>j < length [?fn, ?n]. scoreOf exampleCounts ?t ([?fn, ?n] ! j)
                      \<le> scoreOf exampleCounts ?t ([?fn, ?n] ! i3)"
    by blast
  from i3 consider "i3 = 0" | "i3 = 1" by fastforce
  then have w3: "selectBestWorkerOptimized onDemandCandidates exampleCounts ?t
      = Some (northWorker, Num (6371 * ((2385 / 100 - 2381 / 100) * pi / 180)))"
  proof cases
    case 1
    with mx3 [rule_format, of 1]
    have "scoreOf exampleCounts ?t ?n \<le> scoreOf exampleCounts ?t ?fn" by simp
    with sn sfn show ?thesis by simp
  next
    case 2
    with r3 show ?thesis by (simp add: dn)
  qed
  have f4: "filter (eligible exampleCounts) [hd exampleCandidates] = []"
    by (simp add: exampleCandidates_def eligible_def exampleCounts_def countOf_def
        exampleUser_def MAX_TASKS_PER_WORKER_def)
  from w1 w2 w3 none [OF f4] show ?thesis by simp
qed



text \<open>
  C7. The circuit breaker. It starts \<open>CLOSED\<close> with no failure, a threshold of 5 and a
  recovery timeout of 60000 ms. A closed breaker below the threshold runs the operation:
  when the operation fails, the failure count goes up by one and \<open>lastFailure\<close> is the
  time of the failure; when it succeeds, the count is \<open>0\<close> again. So from a closed
  breaker without failures, calls in a row that all throw, as many as the threshold at
  most, leave the breaker closed with as many failures as there were calls. After as
  many as the threshold, five for a fresh breaker, the next call, whatever its operation,
  opens the breaker and fails with \<open>CircuitOpen\<close> without touching the cache store: the
  field \<open>state\<close> turns \<open>OPEN\<close> at that call, with \<open>lastFailure\<close> set to its time,
  as for every closed breaker whose count has reached the threshold. An open breaker
  whose timeout has not elapsed since \<open>lastFailure\<close> fails fast and changes nothing;
  it leaves \<open>OPEN\<close> only when the timeout has elapsed, and then runs the operation
  half-open. A half-open breaker closes when the operation succeeds. Every call that
  succeeds leaves the breaker \<open>CLOSED\<close> with a failure count of 0.

  The examples: five reads of an unreachable cache store all throw; after four of them
  the breaker is closed with four failures, after five with five, and the sixth call
  opens it without a read. The opened breaker fails fast 60000 ms after that call and
  runs a read one millisecond later, which succeeds on a reachable store and closes the
  breaker. A read that succeeds after four failures resets the count.
\<close>

theorem C7_circuit_breaker:
  "state initialCircuitBreaker = CLOSED \<and> failures initialCircuitBreaker = 0
   \<and> failureThreshold initialCircuitBreaker = 5 \<and> recoveryTimeout initialCircuitBreaker = 60000
   \<and> (state (circuitBreaker svc) = CLOSED
        \<and> failures (circuitBreaker svc) < failureThreshold (circuitBreaker svc)
        \<longrightarrow> fst (executeWithCircuitBreaker now failTime operation svc) = fst (operation (redis svc))
            \<and> redis (snd (executeWithCircuitBreaker now failTime operation svc))
                = snd (operation (redis svc))
            \<and> circuitBreaker (snd (executeWithCircuitBreaker now failTime operation svc))
                = (if isl (fst (operation (redis svc)))
                   then (circuitBreaker svc)\<lparr> failures := failures (circuitBreaker svc) + 1,
                                               lastFailure := failTime \<rparr>
                   else (circuitBreaker svc)\<lparr> failures := 0 \<rparr>))
   \<and> (state (circuitBreaker svc) = CLOSED \<and> failures (circuitBreaker svc) = 0
        \<and> length calls \<le> failureThreshold (circuitBreaker svc)
        \<and> (\<forall>threw \<in> set (executeOutcomes calls svc). threw)
        \<longrightarrow> state (circuitBreaker (executeAll calls svc)) = CLOSED
            \<and> failures (circuitBreaker (executeAll calls svc)) = length calls)
   \<and> (state (circuitBreaker svc) = CLOSED \<and> failures (circuitBreaker svc) = 0
        \<and> 0 \<le> recoveryTimeout (circuitBreaker svc)
        \<and> length calls = failureThreshold (circuitBreaker svc)
        \<and> (\<forall>threw \<in> set (executeOutcomes calls svc). threw)
        \<longrightarrow> executeWithCircuitBreaker now failTime operation (executeAll calls svc)
                = (Inl CircuitOpen,
                   (executeAll calls svc)\<lparr> circuitBreaker :=
                      (circuitBreaker (executeAll calls svc))\<lparr> state := OPEN, lastFailure := now \<rparr> \<rparr>))
   \<and> (state (circuitBreaker svc) = CLOSED
        \<and> failureThreshold (circuitBreaker svc) \<le> failures (circuitBreaker svc)
        \<and> 0 \<le> recoveryTimeout (circuitBreaker svc)
        \<longrightarrow> executeWithCircuitBreaker now failTime operation svc
                = (Inl CircuitOpen,
                   svc\<lparr> circuitBreaker :=
                      (circuitBreaker svc)\<lparr> state := OPEN, lastFailure := now \<rparr> \<rparr>))
   \<and> (state (circuitBreaker svc) = OPEN
        \<and> now - lastFailure (circuitBreaker svc) \<le> recoveryTimeout (circuitBreaker svc)
        \<longrightarrow> executeWithCircuitBreaker now failTime operation svc = (Inl CircuitOpen, svc))
   \<and> (state (circuitBreaker svc) = OPEN
        \<and> state (circuitBreaker (snd (executeWithCircuitBreaker now failTime operation svc))) \<noteq> OPEN
        \<longrightarrow> recoveryTimeout (circuitBreaker svc) < now - lastFailure (circuitBreaker svc))
   \<and> (state (circuitBreaker svc) = OPEN
        \<and> recoveryTimeout (circuitBreaker svc) < now - lastFailure (circuitBreaker svc)
        \<longrightarrow> fst (executeWithCircuitBreaker now failTime operation svc) = fst (operation (redis svc))
            \<and> redis (snd (executeWithCircuitBreaker now failTime operation svc))
                = snd (operation (redis svc))
            \<and> state (circuitBreaker (snd (executeWithCircuitBreaker now failTime operation svc)))
                = (if isl (fst (operation (redis svc))) then HALF_OPEN else CLOSED))
   \<and> (state (circuitBreaker svc) = HALF_OPEN
        \<longrightarrow> fst (executeWithCircuitBreaker now failTime operation svc) = fst (operation (redis svc))
            \<and> redis (snd (executeWithCircuitBreaker now failTime operation svc))
                = snd (operation (redis svc))
            \<and> state (circuitBreaker (snd (executeWithCircuitBreaker now failTime operation svc)))
                = (if isl (fst (operation (redis svc))) then HALF_OPEN else CLOSED))
   \<and> (\<not> isl (fst (executeWithCircuitBreaker now failTime operation svc))
        \<longrightarrow> failures (circuitBreaker (snd (executeWithCircuitBreaker now failTime operation svc))) = 0
            \<and> state (circuitBreaker (snd (executeWithCircuitBreaker now failTime operation svc)))
                = CLOSED)"
proof -
  let ?run = "executeWithCircuitBreaker now failTime operation svc"
  let ?cb = "circuitBreaker svc"
  have init: "state initialCircuitBreaker = CLOSED \<and> failures initialCircuitBreaker = 0
     \<and> failureThreshold initialCircuitBreaker = 5 \<and> recoveryTimeout initialCircuitBreaker = 60000"
    by (simp add: initialCircuitBreaker_def)
  have closed: "state ?cb = CLOSED \<and> failures ?cb < failureThreshold ?cb
        \<longrightarrow> fst ?run = fst (operation (redis svc))
            \<and> redis (snd ?run) = snd (operation (redis svc))
            \<and> circuitBreaker (snd ?run)
                = (if isl (fst (operation (redis svc)))
                   then ?cb\<lparr> failures := failures ?cb + 1, lastFailure := failTime \<rparr>
                   else ?cb\<lparr> failures := 0 \<rparr>)"
    by (auto simp: breaker_closed_below split: prod.splits sum.splits)
  have run: "state ?cb = CLOSED \<and> failures ?cb = 0 \<and> length calls \<le> failureThreshold ?cb
        \<and> (\<forall>threw \<in> set (executeOutcomes calls svc). threw)
        \<longrightarrow> circuitBreaker (executeAll calls svc)
             = ?cb\<lparr> failures := length calls,
                     lastFailure := (if calls = [] then lastFailure ?cb
                                     else fst (snd (last calls))) \<rparr>"
  proof
    assume a: "state ?cb = CLOSED \<and> failures ?cb = 0 \<and> length calls \<le> failureThreshold ?cb
        \<and> (\<forall>threw \<in> set (executeOutcomes calls svc). threw)"
    then have "circuitBreaker (executeAll calls svc)
           = ?cb\<lparr> failures := failures ?cb + length calls,
                   lastFailure := (if calls = [] then lastFailure ?cb
                                   else fst (snd (last calls))) \<rparr>"
      by (intro executeAll_failures) auto
    with a show "circuitBreaker (executeAll calls svc)
             = ?cb\<lparr> failures := length calls,
                     lastFailure := (if calls = [] then lastFailure ?cb
                                     else fst (snd (last calls))) \<rparr>"
      by simp
  qed
  have count: "state ?cb = CLOSED \<and> failures ?cb = 0 \<and> length calls \<le> failureThreshold ?cb
        \<and> (\<forall>threw \<in> set (executeOutcomes calls svc). threw)
        \<longrightarrow> state (circuitBreaker (executeAll calls svc)) = CLOSED
            \<and> failures (circuitBreaker (executeAll calls svc)) = length calls"
  proof
    assume a: "state ?cb = CLOSED \<and> failures ?cb = 0 \<and> length calls \<le> failureThreshold ?cb
        \<and> (\<forall>threw \<in> set (executeOutcomes calls svc). threw)"
    with run have cb: "circuitBreaker (executeAll calls svc)
             = ?cb\<lparr> failures := length calls,
                     lastFailure := (if calls = [] then lastFailure ?cb
                                     else fst (snd (last calls))) \<rparr>"
      by blast
    from a have "state ?cb = CLOSED" by blast
    then show "state (circuitBreaker (executeAll calls svc)) = CLOSED
            \<and> failures (circuitBreaker (executeAll calls svc)) = length calls"
      by (simp add: cb)
  qed
  have trip: "state ?cb = CLOSED \<and> failures ?cb = 0 \<and> 0 \<le> recoveryTimeout ?cb
        \<and> length calls = failureThreshold ?cb
        \<and> (\<forall>threw \<in> set (executeOutcomes calls svc). threw)
        \<longrightarrow> executeWithCircuitBreaker now failTime operation (executeAll calls svc)
                = (Inl CircuitOpen,
                   (executeAll calls svc)\<lparr> circuitBreaker :=
                      (circuitBreaker (executeAll calls svc))\<lparr> state := OPEN, lastFailure := now \<rparr> \<rparr>)"
  proof
    assume a: "state ?cb = CLOSED \<and> failures ?cb = 0 \<and> 0 \<le> recoveryTimeout ?cb
        \<and> length calls = failureThreshold ?cb
        \<and> (\<forall>threw \<in> set (executeOutcomes calls svc). threw)"
    then have b: "state ?cb = CLOSED" "failures ?cb = 0" "0 \<le> recoveryTimeout ?cb"
      "length calls = failureThreshold ?cb"
      "\<forall>threw \<in> set (executeOutcomes calls svc). threw"
      by blast+
    from run b have cb: "circuitBreaker (executeAll calls svc)
             = ?cb\<lparr> failures := length calls,
                     lastFailure := (if calls = [] then lastFailure ?cb
                                     else fst (snd (last calls))) \<rparr>"
      by (metis order_refl)
    show "executeWithCircuitBreaker now failTime operation (executeAll calls svc)
                = (Inl CircuitOpen,
                   (executeAll calls svc)\<lparr> circuitBreaker :=
                      (circuitBreaker (executeAll calls svc))\<lparr> state := OPEN, lastFailure := now \<rparr> \<rparr>)"
      using b(1-4) by (intro breaker_trips) (simp_all add: cb)
  qed
  have opens: "state ?cb = CLOSED \<and> failureThreshold ?cb \<le> failures ?cb
        \<and> 0 \<le> recoveryTimeout ?cb
        \<longrightarrow> ?run = (Inl CircuitOpen, svc\<lparr> circuitBreaker := ?cb\<lparr> state := OPEN, lastFailure := now \<rparr> \<rparr>)"
    by (simp add: breaker_trips)
  have fast: "state ?cb = OPEN \<and> now - lastFailure ?cb \<le> recoveryTimeout ?cb
        \<longrightarrow> ?run = (Inl CircuitOpen, svc)"
    by (simp add: breaker_open_fast)
  have leave: "state ?cb = OPEN \<and> state (circuitBreaker (snd ?run)) \<noteq> OPEN
        \<longrightarrow> recoveryTimeout ?cb < now - lastFailure ?cb"
    using breaker_leaves_open [of svc now failTime operation] by blast
  have half1: "state ?cb = OPEN \<and> recoveryTimeout ?cb < now - lastFailure ?cb
        \<longrightarrow> fst ?run = fst (operation (redis svc))
            \<and> redis (snd ?run) = snd (operation (redis svc))
            \<and> state (circuitBreaker (snd ?run))
                = (if isl (fst (operation (redis svc))) then HALF_OPEN else CLOSED)"
    by (auto simp: breaker_half_open split: prod.splits sum.splits)
  have half2: "state ?cb = HALF_OPEN
        \<longrightarrow> fst ?run = fst (operation (redis svc))
            \<and> redis (snd ?run) = snd (operation (redis svc))
            \<and> state (circuitBreaker (snd ?run))
                = (if isl (fst (operation (redis svc))) then HALF_OPEN else CLOSED)"
    by (auto simp: breaker_half_open split: prod.splits sum.splits)
  have succ: "\<not> isl (fst ?run)
        \<longrightarrow> failures (circuitBreaker (snd ?run)) = 0 \<and> state (circuitBreaker (snd ?run)) = CLOSED"
  proof
    assume "\<not> isl (fst ?run)"
    then obtain result where "fst ?run = Inr result" by (cases "fst ?run") auto
    from breaker_success [OF this]
    show "failures (circuitBreaker (snd ?run)) = 0 \<and> state (circuitBreaker (snd ?run)) = CLOSED"
      by simp
  qed
  from init closed count trip opens fast leave half1 half2 succ show ?thesis by blast
qed

theorem C7_circuit_breaker_witness:
  "executeOutcomes exampleCalls (exampleCache False) = [True, True, True, True, True]
   \<and> failures (circuitBreaker (executeAll (take 4 exampleCalls) (exampleCache False))) = 4
   \<and> state (circuitBreaker (executeAll (take 4 exampleCalls) (exampleCache False))) = CLOSED
   \<and> failures (circuitBreaker (executeAll exampleCalls (exampleCache False))) = 5
   \<and> state (circuitBreaker (executeAll exampleCalls (exampleCache False))) = CLOSED
   \<and> executeWithCircuitBreaker 6000 6001 (redisGet ''worker:summary:w1'')
         (executeAll exampleCalls (exampleCache False))
       = (Inl CircuitOpen, exampleOpened False)
   \<and> executeWithCircuitBreaker 66000 66001 (redisGet ''worker:summary:w1'') (exampleOpened True)
       = (Inl CircuitOpen, exampleOpened True)
   \<and> fst (executeWithCircuitBreaker 66001 66002 (redisGet ''worker:summary:w1'')
             (exampleOpened True)) = Inr None
   \<and> state (circuitBreaker (snd (executeWithCircuitBreaker 66001 66002
               (redisGet ''worker:summary:w1'') (exampleOpened True)))) = CLOSED
   \<and> failures (circuitBreaker (snd (executeWithCircuitBreaker 66001 66002
               (redisGet ''worker:summary:w1'') (exampleOpened True)))) = 0
   \<and> failures (circuitBreaker (snd (executeWithCircuitBreaker 7000 7001
               (redisGet ''worker:summary:w1'')
               (executeAll (take 4 exampleCalls) (exampleCache True))))) = 0"
proof -
  let ?op = "redisGet ''worker:summary:w1''"
  let ?down = "exampleCache False"
  have cb0: "state (circuitBreaker (exampleCache reachable)) = CLOSED"
    "failures (circuitBreaker (exampleCache reachable)) = 0"
    "failureThreshold (circuitBreaker (exampleCache reachable)) = 5"
    "recoveryTimeout (circuitBreaker (exampleCache reachable)) = 60000" for reachable
    by (simp_all add: exampleCache_def initialCircuitBreaker_def)
  have outcomes: "executeOutcomes exampleCalls ?down = [True, True, True, True, True]"
    by (simp add: exampleCalls_def exampleCache_def initialCircuitBreaker_def
        executeWithCircuitBreaker_def redisGet_def onCircuitBreakerFailure_def Let_def)
  then have threw: "\<forall>threw \<in> set (executeOutcomes exampleCalls ?down). threw"
    by simp
  have threw4: "\<forall>threw \<in> set (executeOutcomes (take 4 exampleCalls) ?down). threw"
    by (simp add: exampleCalls_def exampleCache_def initialCircuitBreaker_def
        executeWithCircuitBreaker_def redisGet_def onCircuitBreakerFailure_def Let_def)
  have len: "length exampleCalls = 5" "length (take 4 exampleCalls) = 4"
    by (simp_all add: exampleCalls_def)
  have four: "state (circuitBreaker (executeAll (take 4 exampleCalls) ?down)) = CLOSED
      \<and> failures (circuitBreaker (executeAll (take 4 exampleCalls) ?down)) = 4"
    using C7_circuit_breaker [of ?down 0 0 ?op "take 4 exampleCalls"] cb0 threw4 len by simp
  have five: "state (circuitBreaker (executeAll exampleCalls ?down)) = CLOSED
      \<and> failures (circuitBreaker (executeAll exampleCalls ?down)) = 5"
    using C7_circuit_breaker [of ?down 0 0 ?op exampleCalls] cb0 threw len by simp
  have trip: "executeWithCircuitBreaker 6000 6001 ?op (executeAll exampleCalls ?down)
      = (Inl CircuitOpen,
         (executeAll exampleCalls ?down)\<lparr> circuitBreaker :=
            (circuitBreaker (executeAll exampleCalls ?down))\<lparr> state := OPEN, lastFailure := 6000 \<rparr> \<rparr>)"
    using C7_circuit_breaker [of ?down 6000 6001 ?op exampleCalls] cb0 threw len by simp
  have after: "(executeAll exampleCalls ?down)\<lparr> circuitBreaker :=
            (circuitBreaker (executeAll exampleCalls ?down))\<lparr> state := OPEN, lastFailure := 6000 \<rparr> \<rparr>
      = exampleOpened False"
    by (simp add: exampleCalls_def exampleCache_def initialCircuitBreaker_def exampleOpened_def
        executeWithCircuitBreaker_def redisGet_def onCircuitBreakerFailure_def Let_def)
  have op: "state (circuitBreaker (exampleOpened reachable)) = OPEN"
    "lastFailure (circuitBreaker (exampleOpened reachable)) = 6000"
    "recoveryTimeout (circuitBreaker (exampleOpened reachable)) = 60000" for reachable
    by (simp_all add: exampleOpened_def)
  have fast: "executeWithCircuitBreaker 66000 66001 ?op (exampleOpened True)
      = (Inl CircuitOpen, exampleOpened True)"
    using C7_circuit_breaker [of "exampleOpened True" 66000 66001 ?op "[]"] op by simp
  have read: "fst (?op (redis (exampleOpened True))) = Inr None"
    by (simp add: exampleOpened_def redisGet_def lookupLive_def)
  have half: "fst (executeWithCircuitBreaker 66001 66002 ?op (exampleOpened True)) = Inr None
      \<and> state (circuitBreaker (snd (executeWithCircuitBreaker 66001 66002 ?op
                  (exampleOpened True)))) = CLOSED"
    using C7_circuit_breaker [of "exampleOpened True" 66001 66002 ?op "[]"] op read by simp
  then have reset: "failures (circuitBreaker (snd (executeWithCircuitBreaker 66001 66002 ?op
                  (exampleOpened True)))) = 0"
    using C7_circuit_breaker [of "exampleOpened True" 66001 66002 ?op "[]"] by simp
  let ?four = "executeAll (take 4 exampleCalls) (exampleCache True)"
  have "\<not> isl (fst (executeWithCircuitBreaker 7000 7001 ?op ?four))"
    by (simp add: exampleCalls_def exampleCache_def initialCircuitBreaker_def
        executeWithCircuitBreaker_def redisGet_def lookupLive_def onCircuitBreakerSuccess_def
        Let_def)
  then have ok: "failures (circuitBreaker (snd (executeWithCircuitBreaker 7000 7001 ?op ?four))) = 0"
    using C7_circuit_breaker [of ?four 7000 7001 ?op "[]"] by simp
  from outcomes four five trip after fast half reset ok show ?thesis by simp
qed







text \<open>
  C1. The capacity invariant does not hold inside a batch. The store holds a worker with
  49 active tasks and two unassigned tasks at the worker's place. The run reads the load
  49 once, proposes the worker for both tasks (the loop does not count its own
  proposals), and the bulk update commits both: the worker ends with 51 active tasks,
  above \<open>MAX_TASKS_PER_WORKER = 50\<close>.
\<close>

theorem C1_capacity_exceeded_within_batch:
  "MAX_TASKS_PER_WORKER = 50
   \<and> activeCount (taskRows crowdedStore) ''w1'' = 49
   \<and> (\<exists>result. fst (allocateTasksOptimized 100 1000 1001 crowdedStore crowdedStore
                       (exampleCache True)) = Inr result
          \<and> totalTasks result = 2 \<and> allocated result = 2 \<and> allocationFailed result = 0)
   \<and> activeCount (taskRows (fst (snd (allocateTasksOptimized 100 1000 1001 crowdedStore
                                        crowdedStore (exampleCache True))))) ''w1'' = 51"
proof -
  have before: "activeCount (taskRows crowdedStore) ''w1'' = 49"
    by (simp add: crowdedStore_def busy_active) (simp add: activeCount_def exampleTask_def)
  have after: "activeCount (map busyTask [0..<49]
             @ [(exampleTask ''t1'' assigned (Some ''w1''))\<lparr> assignedAt := Some 1000 \<rparr>,
                (exampleTask ''t2'' assigned (Some ''w1''))\<lparr> assignedAt := Some 1000 \<rparr>])
            ''w1'' = 51"
    by (simp add: busy_active) (simp add: activeCount_def exampleTask_def)
  from crowded_run [of "exampleCache True"] before after show ?thesis
    by (simp add: MAX_TASKS_PER_WORKER_def)
qed

text \<open>
  C2. The reported average distance is not always taken from the committed subset. One
  unassigned task is read, a worker about 4.4 km north of it is proposed, and before the
  bulk update another writer assigns the task: nothing commits, \<open>allocated\<close> is 0 and
  no worker is affected, yet \<open>avgDistance\<close> is the distance of the lost proposal (a
  positive number) and not the value 0 that the empty committed list gives.
\<close>

theorem C2_average_distance_of_lost_proposals:
  "(\<exists>result. fst (allocateTasksOptimized 100 1000 1001 raceStoreRead raceStoreCommit
                     (exampleCache True)) = Inr result
        \<and> allocated result = 0 \<and> allocationFailed result = 1
        \<and> affectedWorkers result = Some 0
        \<and> avgDistance result = Some (Num (6371 * ((2385 / 100 - 2381 / 100) * pi / 180))))
   \<and> calculateAverageDistance [] = Num 0
   \<and> 0 < 6371 * ((2385 / 100 - 2381 / 100) * pi / 180)"
proof -
  have "calculateAverageDistance [] = Num 0" by (simp add: calculateAverageDistance_def)
  with race_run [of "exampleCache True"] north_distance_bounds(1) show ?thesis by simp
qed

text \<open>
  C4. The query can miss a worker inside the radius. At latitude 60 a worker stands 0.11
  degrees of longitude east of the query point: the haversine distance is at most 10 km
  (about 6.1 km), the worker is in the index (cell \<open>(6000, 11)\<close>), but the margin of
  \<open>ceil((10 / 111) / 0.01) = 10\<close> cells around the query cell \<open>(6000, 0)\<close> stops one
  cell short, and the query with radius 10 returns nothing.
\<close>

theorem C4_worker_in_radius_missed:
  "truthy (lat_user worker60) \<and> truthy (lon_user worker60)
   \<and> workersInCell (buildSpatialIndex [worker60]) (6000, 11) = [toPoint worker60]
   \<and> haversineDistance 60 (5 / 1000) (the (lat_user worker60)) (the (lon_user worker60)) \<le> 10
   \<and> findNearbyWorkers (buildSpatialIndex [worker60]) 60 (5 / 1000) 10 = []"
proof -
  have t: "truthy (lat_user worker60)" "truthy (lon_user worker60)"
    by (simp_all add: worker60_def truthy_def)
  have c: "the (lat_user worker60) = 60" "the (lon_user worker60) = 115 / 1000"
    by (simp_all add: worker60_def)
  have cell: "workersInCell (buildSpatialIndex [worker60]) (6000, 11) = [toPoint worker60]"
    by (simp add: buildSpatialIndex_cell indexed_def worker60_def truthy_def getGridKey_def
        GRID_SIZE_def)
  have d: "haversineDistance 60 (5 / 1000) (the (lat_user worker60)) (the (lon_user worker60))
             \<le> 10"
    unfolding c by (rule haversine_lat60_example)
  have out: "getGridKey 60 (115 / 1000) \<notin> set (getSearchCells 60 (5 / 1000) (10 / 111))"
    by (simp add: getSearchCells_mem getGridKey_def GRID_SIZE_def)
  have miss: "findNearbyWorkers (buildSpatialIndex [worker60]) 60 (5 / 1000) 10 = []"
    unfolding findNearbyWorkers_single [OF t] c using out by simp
  from t cell d miss show ?thesis by simp
qed

text \<open>
  C6. Cache failures do not change the allocation outcome. For the same batch size,
  clock and store, a run answers the same (the same result with all its fields, or the
  same exception) and leaves the same store whatever the cache service is: reachable or
  not, with any entries and any breaker state. When the store is reachable at the reads
  and at the commit the run returns a result and does not throw. On an unreachable
  cache store every command of the client fails.
\<close>

theorem C6_cache_fail_open:
  "fst (allocateTasksOptimized batchSize now finish db dbCommit svcFailing)
     = fst (allocateTasksOptimized batchSize now finish db dbCommit svcWorking)
   \<and> fst (snd (allocateTasksOptimized batchSize now finish db dbCommit svcFailing))
     = fst (snd (allocateTasksOptimized batchSize now finish db dbCommit svcWorking))
   \<and> (online db \<and> online dbCommit
        \<longrightarrow> (\<exists>result. fst (allocateTasksOptimized batchSize now finish db dbCommit svcFailing)
                         = Inr result))
   \<and> (\<not> up r
        \<longrightarrow> fst (redisGet key r) = Inl RedisUnavailable
            \<and> fst (redisSet key v r) = Inl RedisUnavailable
            \<and> fst (redisSetex key seconds v r) = Inl RedisUnavailable
            \<and> fst (redisDel keys r) = Inl RedisUnavailable
            \<and> fst (redisScan pattern r) = Inl RedisUnavailable)"
proof -
  have cmds: "\<not> up r
        \<longrightarrow> fst (redisGet key r) = Inl RedisUnavailable
            \<and> fst (redisSet key v r) = Inl RedisUnavailable
            \<and> fst (redisSetex key seconds v r) = Inl RedisUnavailable
            \<and> fst (redisDel keys r) = Inl RedisUnavailable
            \<and> fst (redisScan pattern r) = Inl RedisUnavailable"
    by (simp add: redisGet_def redisSet_def redisSetex_def redisDel_def redisScan_def)
  from allocate_independent [of batchSize now finish db dbCommit svcFailing svcWorking]
    allocate_returns [of db dbCommit batchSize now finish svcFailing] cmds
  show ?thesis by blast
qed

theorem C6_cache_fail_open_witness:
  "online crowdedStore
   \<and> \<not> up (redis (exampleCache False)) \<and> up (redis (exampleCache True))
   \<and> (\<exists>result. fst (allocateTasksOptimized 100 1000 1001 crowdedStore crowdedStore
                       (exampleCache False)) = Inr result
          \<and> totalTasks result = 2 \<and> allocated result = 2 \<and> allocationFailed result = 0)
   \<and> fst (allocateTasksOptimized 100 1000 1001 crowdedStore crowdedStore (exampleCache False))
       = fst (allocateTasksOptimized 100 1000 1001 crowdedStore crowdedStore (exampleCache True))"
proof -
  have on: "online crowdedStore" by (simp add: crowdedStore_def)
  have ca: "\<not> up (redis (exampleCache False)) \<and> up (redis (exampleCache True))"
    by (simp add: exampleCache_def)
  from C6_cache_fail_open [of 100 1000 1001 crowdedStore crowdedStore "exampleCache False"
      "exampleCache True"]
  have eq: "fst (allocateTasksOptimized 100 1000 1001 crowdedStore crowdedStore (exampleCache False))
       = fst (allocateTasksOptimized 100 1000 1001 crowdedStore crowdedStore (exampleCache True))"
    by blast
  from on ca eq crowded_run [of "exampleCache False"] show ?thesis by blast
qed

text \<open>
  C10. Coordinates are tested by truthiness, so \<open>0\<close> counts as missing. A worker whose
  latitude or longitude is \<open>0\<close> is in no cell of the index and in no answer of a query,
  and every proposal names a worker whose coordinates are present and not \<open>0\<close>. A task
  whose latitude or longitude is \<open>0\<close> adds one to the failed count and nothing else,
  whatever the index holds; every proposal is for a task whose coordinates are present
  and not \<open>0\<close>, and a batch of such tasks only fails.
\<close>

theorem C10_zero_coordinates:
  "truthy (Some 0) = False
   \<and> (lat_user w = Some 0 \<or> lon_user w = Some 0
        \<longrightarrow> (\<forall>cellKey. \<forall>p \<in> set (workersInCell (buildSpatialIndex workers) cellKey). data p \<noteq> w)
            \<and> (\<forall>lat lon r. \<forall>p \<in> set (findNearbyWorkers (buildSpatialIndex workers) lat lon r).
                  data p \<noteq> w))
   \<and> (\<forall>a \<in> set (fst (proposeAllocations (buildSpatialIndex workers) counts tasks)).
         \<exists>u \<in> set workers. workerId a = id_user u
            \<and> lat_user u \<noteq> None \<and> lat_user u \<noteq> Some 0
            \<and> lon_user u \<noteq> None \<and> lon_user u \<noteq> Some 0)
   \<and> (lat_task task = Some 0 \<or> lon_task task = Some 0
        \<longrightarrow> allocationStep idx counts acc task = (fst acc, snd acc + 1))
   \<and> (\<forall>a \<in> set (fst (proposeAllocations idx counts tasks)).
         \<exists>t \<in> set tasks. taskId a = id_task t
            \<and> lat_task t \<noteq> None \<and> lat_task t \<noteq> Some 0
            \<and> lon_task t \<noteq> None \<and> lon_task t \<noteq> Some 0)
   \<and> ((\<forall>t \<in> set tasks. lat_task t = Some 0 \<or> lon_task t = Some 0)
        \<longrightarrow> proposeAllocations idx counts tasks = ([], int (length tasks)))"
proof -
  have tr: "\<And>x. truthy x \<longleftrightarrow> x \<noteq> None \<and> x \<noteq> Some 0"
    by (simp add: truthy_def split: option.splits)
  have zero: "truthy (Some 0) = False" by (simp add: truthy_def)
  have excluded: "lat_user w = Some 0 \<or> lon_user w = Some 0
        \<longrightarrow> (\<forall>cellKey. \<forall>p \<in> set (workersInCell (buildSpatialIndex workers) cellKey). data p \<noteq> w)
            \<and> (\<forall>lat lon r. \<forall>p \<in> set (findNearbyWorkers (buildSpatialIndex workers) lat lon r).
                  data p \<noteq> w)"
  proof
    assume z: "lat_user w = Some 0 \<or> lon_user w = Some 0"
    then have nt: "\<not> (truthy (lat_user w) \<and> truthy (lon_user w))" by (auto simp: zero)
    have a: "\<forall>cellKey. \<forall>p \<in> set (workersInCell (buildSpatialIndex workers) cellKey). data p \<noteq> w"
      using nt by (auto simp: buildSpatialIndex_cell indexed_def toPoint_def)
    have b: "\<forall>lat lon r. \<forall>p \<in> set (findNearbyWorkers (buildSpatialIndex workers) lat lon r).
                  data p \<noteq> w"
      using nt nearby_indexed [of _ workers] by blast
    from a b show "(\<forall>cellKey. \<forall>p \<in> set (workersInCell (buildSpatialIndex workers) cellKey). data p \<noteq> w)
            \<and> (\<forall>lat lon r. \<forall>p \<in> set (findNearbyWorkers (buildSpatialIndex workers) lat lon r).
                  data p \<noteq> w)" by blast
  qed
  have workers_ok: "\<forall>a \<in> set (fst (proposeAllocations (buildSpatialIndex workers) counts tasks)).
         \<exists>u \<in> set workers. workerId a = id_user u
            \<and> lat_user u \<noteq> None \<and> lat_user u \<noteq> Some 0
            \<and> lon_user u \<noteq> None \<and> lon_user u \<noteq> Some 0"
  proof
    fix a assume "a \<in> set (fst (proposeAllocations (buildSpatialIndex workers) counts tasks))"
    then have "a \<in> set (fst (foldl (allocationStep (buildSpatialIndex workers) counts) ([], 0) tasks))"
      by (simp add: proposeAllocations_def)
    from foldl_allocationStep_sound [OF this] obtain task :: Task and p :: SpatialPoint where
      "p \<in> set (findNearbyWorkers (buildSpatialIndex workers) (the (lat_task task))
                  (the (lon_task task)) MAX_ALLOCATION_RADIUS)"
      and "workerId a = id_user (data p)"
      by fastforce
    with nearby_indexed [of p workers] show "\<exists>u \<in> set workers. workerId a = id_user u
            \<and> lat_user u \<noteq> None \<and> lat_user u \<noteq> Some 0
            \<and> lon_user u \<noteq> None \<and> lon_user u \<noteq> Some 0"
      unfolding tr by blast
  qed
  have task_failed: "lat_task task = Some 0 \<or> lon_task task = Some 0
        \<longrightarrow> allocationStep idx counts acc task = (fst acc, snd acc + 1)"
    by (auto simp: allocationStep_falsy zero)
  have tasks_ok: "\<forall>a \<in> set (fst (proposeAllocations idx counts tasks)).
         \<exists>t \<in> set tasks. taskId a = id_task t
            \<and> lat_task t \<noteq> None \<and> lat_task t \<noteq> Some 0
            \<and> lon_task t \<noteq> None \<and> lon_task t \<noteq> Some 0"
  proof
    fix a assume "a \<in> set (fst (proposeAllocations idx counts tasks))"
    then have "a \<in> set (fst (foldl (allocationStep idx counts) ([], 0) tasks))"
      by (simp add: proposeAllocations_def)
    from foldl_allocationStep_sound [OF this]
    show "\<exists>t \<in> set tasks. taskId a = id_task t
            \<and> lat_task t \<noteq> None \<and> lat_task t \<noteq> Some 0
            \<and> lon_task t \<noteq> None \<and> lon_task t \<noteq> Some 0"
      unfolding tr by auto
  qed
  have all_failed: "(\<forall>t \<in> set tasks. lat_task t = Some 0 \<or> lon_task t = Some 0)
        \<longrightarrow> proposeAllocations idx counts tasks = ([], int (length tasks))"
  proof
    assume "\<forall>t \<in> set tasks. lat_task t = Some 0 \<or> lon_task t = Some 0"
    then have "\<forall>t \<in> set tasks. \<not> truthy (lat_task t) \<or> \<not> truthy (lon_task t)"
      by (auto simp: zero)
    from foldl_allocationStep_falsy [OF this]
    show "proposeAllocations idx counts tasks = ([], int (length tasks))"
      by (simp add: proposeAllocations_def)
  qed
  from zero excluded workers_ok task_failed tasks_ok all_failed show ?thesis by blast
qed

theorem C10_zero_coordinates_witness:
  "lat_user zeroWorker = Some 0
   \<and> buildSpatialIndex [zeroWorker, exampleUser ''w1'']
       = [((2381, 9041), [toPoint (exampleUser ''w1'')])]
   \<and> lon_task zeroTask = Some 0
   \<and> proposeAllocations (buildSpatialIndex [exampleUser ''w1'']) Map.empty
        [zeroTask, exampleTask ''t1'' unassigned None]
       = ([\<lparr> taskId = ''t1'', workerId = ''w1'', distance = Some (Num 0) \<rparr>], 1)"
proof -
  have a: "lat_user zeroWorker = Some 0" by (simp add: zeroWorker_def)
  have b: "buildSpatialIndex [zeroWorker, exampleUser ''w1'']
       = [((2381, 9041), [toPoint (exampleUser ''w1'')])]"
    by (simp add: buildSpatialIndex_def indexWorker_def zeroWorker_def exampleUser_def
        truthy_def getGridKey_def GRID_SIZE_def toPoint_def Let_def)
  have c: "lon_task zeroTask = Some 0" by (simp add: zeroTask_def)
  have s1: "allocationStep (buildSpatialIndex [exampleUser ''w1'']) Map.empty ([], 0) zeroTask
              = ([], 1)"
    using C10_zero_coordinates [of zeroWorker "[zeroWorker, exampleUser ''w1'']" Map.empty
        "[zeroTask, exampleTask ''t1'' unassigned None]" zeroTask
        "buildSpatialIndex [exampleUser ''w1'']" "([], 0)"] c
    by simp
  have lt: "countOf Map.empty ''w1'' < MAX_TASKS_PER_WORKER"
    by (simp add: countOf_def MAX_TASKS_PER_WORKER_def)
  have d: "proposeAllocations (buildSpatialIndex [exampleUser ''w1'']) Map.empty
        [zeroTask, exampleTask ''t1'' unassigned None]
       = ([\<lparr> taskId = ''t1'', workerId = ''w1'', distance = Some (Num 0) \<rparr>], 1)"
    unfolding proposeAllocations_def foldl.simps s1 step_same_place [OF lt] by simp
  from a b c d show ?thesis by blast
qed

end
